theory Spec2Isabelle
  imports Complex_Main "HOL-Library.Log_Nat" "HOL-Library.Product_Lexorder"
    "HOL-Library.AList" "HOL-Library.Multiset"
begin

section \<open>Python numbers and strings\<close>

text \<open>
  Python's \<open>int\<close> is unbounded and is modelled by \<^typ>\<open>int\<close>. A Python \<open>float\<close> is an
  IEEE-754 binary64 number; every finite one is a rational, so finite floats are modelled
  by \<^typ>\<open>rat\<close> and each arithmetic operation is the exact rational operation followed by
  rounding to the nearest number with a 53-bit significand, ties to even (\<open>fl\<close>). The
  exponent range is not bounded in the model: overflow to infinity and subnormal numbers
  are outside it. Comparisons of floats are exact and need no rounding.
\<close>

definition pow2 :: "int \<Rightarrow> rat" where
  "pow2 e = (if 0 \<le> e then 2 ^ nat e else 1 / 2 ^ nat (- e))"

definition round_half_even :: "rat \<Rightarrow> int" where
  "round_half_even x = (let f = \<lfloor>x\<rfloor>; r = x - of_int f in
     if r < 1 / 2 then f else if 1 / 2 < r then f + 1 else if even f then f else f + 1)"

text \<open>The exponent \<open>e\<close> with \<open>2^52 \<le> |x| / 2^e < 2^53\<close>, for \<open>x \<noteq> 0\<close>.\<close>

definition binary64_exponent :: "rat \<Rightarrow> int" where
  "binary64_exponent x = (case quotient_of \<bar>x\<bar> of (n, d) \<Rightarrow>
     (let k = bitlen n - bitlen d in (if pow2 k \<le> \<bar>x\<bar> then k else k - 1) - 52))"

definition fl :: "rat \<Rightarrow> rat" where
  "fl x = (if x = 0 then 0 else
     (let e = binary64_exponent x in of_int (round_half_even (x / pow2 e)) * pow2 e))"

text \<open>\<open>float(n)\<close> and the coercion of an \<open>int\<close> operand in mixed arithmetic.\<close>

definition py_float :: "int \<Rightarrow> rat" where
  "py_float n = fl (of_int n)"

text \<open>\<open>int(x)\<close> on a float truncates toward zero.\<close>

definition py_int :: "rat \<Rightarrow> int" where
  "py_int x = (if 0 \<le> x then \<lfloor>x\<rfloor> else \<lceil>x\<rceil>)"

text \<open>
  A number whose Python type is not fixed, such as a number read from JSON: an \<open>int\<close> or
  a \<open>float\<close>. Arithmetic on two ints is exact; when a float takes part the int operand is
  converted with \<open>float\<close> and the result is rounded. Comparisons compare the exact values.
  \<open>max(a, b)\<close> and \<open>min(a, b)\<close> return their first argument unless the second is strictly
  greater (smaller). \<open>sum\<close> starts from the int 0 and adds from left to right.
\<close>

datatype py_number = PyInt int | PyFloat rat

fun num_val :: "py_number \<Rightarrow> rat" where
  "num_val (PyInt i) = of_int i"
| "num_val (PyFloat x) = x"

fun as_float :: "py_number \<Rightarrow> rat" where
  "as_float (PyInt i) = py_float i"
| "as_float (PyFloat x) = x"

fun py_add :: "py_number \<Rightarrow> py_number \<Rightarrow> py_number" where
  "py_add (PyInt a) (PyInt b) = PyInt (a + b)"
| "py_add a b = PyFloat (fl (as_float a + as_float b))"

fun py_sub :: "py_number \<Rightarrow> py_number \<Rightarrow> py_number" where
  "py_sub (PyInt a) (PyInt b) = PyInt (a - b)"
| "py_sub a b = PyFloat (fl (as_float a - as_float b))"

fun py_mul :: "py_number \<Rightarrow> py_number \<Rightarrow> py_number" where
  "py_mul (PyInt a) (PyInt b) = PyInt (a * b)"
| "py_mul a b = PyFloat (fl (as_float a * as_float b))"

text \<open>\<open>a / b\<close> for \<open>b \<noteq> 0\<close>: always a float, correctly rounded for two ints.\<close>

fun py_truediv :: "py_number \<Rightarrow> py_number \<Rightarrow> rat" where
  "py_truediv (PyInt a) (PyInt b) = fl (of_int a / of_int b)"
| "py_truediv a b = fl (as_float a / as_float b)"

definition py_less :: "py_number \<Rightarrow> py_number \<Rightarrow> bool" where
  "py_less a b \<longleftrightarrow> num_val a < num_val b"

definition py_max :: "py_number \<Rightarrow> py_number \<Rightarrow> py_number" where
  "py_max a b = (if py_less a b then b else a)"

definition py_min :: "py_number \<Rightarrow> py_number \<Rightarrow> py_number" where
  "py_min a b = (if py_less b a then b else a)"

definition py_sum :: "py_number list \<Rightarrow> py_number" where
  "py_sum xs = foldl py_add (PyInt 0) xs"

text \<open>\<open>str(n)\<close> of an \<open>int\<close>, as an f-string renders it.\<close>

fun str_nat :: "nat \<Rightarrow> string" where
  "str_nat n = (if n < 10 then [''0123456789'' ! n]
                else str_nat (n div 10) @ [''0123456789'' ! (n mod 10)])"

declare str_nat.simps [simp del]

definition str_int :: "int \<Rightarrow> string" where
  "str_int i = (if i < 0 then CHR ''-'' # str_nat (nat (- i)) else str_nat (nat i))"

section \<open>Configuration (app/config.py)\<close>

definition MIN_ORDER_QUANTITY :: int where
  "MIN_ORDER_QUANTITY = 10"

text \<open>The literal \<open>1.2\<close> denotes the binary64 number nearest to 12/10.\<close>

definition SAFETY_STOCK_MULTIPLIER :: rat where
  "SAFETY_STOCK_MULTIPLIER = fl (12 / 10)"

definition EXPIRY_THRESHOLD_DAYS :: int where
  "EXPIRY_THRESHOLD_DAYS = 30"

section \<open>Site features\<close>

text \<open>
  One row of the feature table, with the columns the orchestrator, the rule engine and the
  allocation step read. \<open>urgency_score\<close> is a float that is only compared and negated.
\<close>

record site =
  site_id :: string
  projected_30d_demand :: int
  current_inventory :: int
  days_to_expiry :: int
  urgency_score :: rat

section \<open>Rule engine (app/rules_engine.py)\<close>

record rules_result =
  rr_action :: string
  rr_quantity :: int
  rr_reason :: string

text \<open>Line 31: \<open>int(projected_demand * (Config.SAFETY_STOCK_MULTIPLIER - 1))\<close>.\<close>

definition safety_stock_of :: "int \<Rightarrow> int" where
  "safety_stock_of projected_demand =
     py_int (fl (py_float projected_demand * fl (SAFETY_STOCK_MULTIPLIER - 1)))"

definition recommend_resupply :: "site \<Rightarrow> rules_result" where
  "recommend_resupply site_features =
     (let projected_demand = projected_30d_demand site_features;
          current_inv = current_inventory site_features;
          dte = py_float (days_to_expiry site_features);
          safety_stock = safety_stock_of projected_demand
      in if dte < of_int EXPIRY_THRESHOLD_DAYS then
           (let recommended_quantity =
                  max MIN_ORDER_QUANTITY (projected_demand + safety_stock - current_inv)
            in \<lparr>rr_action = ''resupply'', rr_quantity = recommended_quantity,
                rr_reason = ''Inventory expiring in '' @ str_int (py_int dte) @ '' days. ''
                  @ ''Projected demand: '' @ str_int projected_demand @ '', ''
                  @ ''Current inventory: '' @ str_int current_inv @ ''. ''
                  @ ''Resupply needed to maintain stock levels.''\<rparr>)
         else if projected_demand > current_inv + safety_stock then
           (let recommended_quantity =
                  max MIN_ORDER_QUANTITY (projected_demand + safety_stock - current_inv)
            in \<lparr>rr_action = ''resupply'', rr_quantity = recommended_quantity,
                rr_reason = ''Projected 30-day demand ('' @ str_int projected_demand
                  @ '') exceeds '' @ ''current inventory ('' @ str_int current_inv
                  @ '') plus safety stock. '' @ ''Resupply '' @ str_int recommended_quantity
                  @ '' kits recommended.''\<rparr>)
         else
           \<lparr>rr_action = ''no_resupply'', rr_quantity = 0,
            rr_reason = ''Current inventory ('' @ str_int current_inv @ '') sufficient for ''
              @ ''projected 30-day demand ('' @ str_int projected_demand @ ''). ''
              @ ''No resupply needed at this time.''\<rparr>)"

section \<open>Reasoning client (app/gemini_client.py)\<close>

datatype error = ValueError string | KeyError string | Exception string

text \<open>
  API keys live in \<open>Config\<close>; an unset environment variable reads as the empty string.
  The remaining fields are the settings the orchestrator copies at construction.
\<close>

record config =
  GEMINI_API_KEY :: string
  GEMINI_API_KEY_1 :: string
  GEMINI_API_KEY_2 :: string
  GEMINI_API_KEY_3 :: string
  BATCH_API_SIZE :: int
  USE_BATCH_API :: bool
  MAX_CONCURRENT_REQUESTS :: int
  USE_PARALLEL :: bool
  LLM_PRIORITY_THRESHOLD :: rat
  LLM_EXPIRY_THRESHOLD :: int
  USE_SELECTIVE_LLM :: bool

definition get_gemini_api_keys :: "config \<Rightarrow> string list" where
  "get_gemini_api_keys cls =
     (if GEMINI_API_KEY cls \<noteq> [] then [GEMINI_API_KEY cls] else [])
     @ (if GEMINI_API_KEY_1 cls \<noteq> [] then [GEMINI_API_KEY_1 cls] else [])
     @ (if GEMINI_API_KEY_2 cls \<noteq> [] then [GEMINI_API_KEY_2 cls] else [])
     @ (if GEMINI_API_KEY_3 cls \<noteq> [] then [GEMINI_API_KEY_3 cls] else [])"

text \<open>The key rotation state of a client; the two dictionaries are keyed by API key.\<close>

record gemini_client =
  api_keys :: "string list"
  current_key_index :: nat
  key_failures :: "string \<rightharpoonup> nat"
  key_cooldown :: "string \<rightharpoonup> rat"

text \<open>
  \<open>for key in keys: d[key] = v\<close>, which is also how the comprehension
  \<open>{key: v for key in keys}\<close> fills an empty dictionary.
\<close>

fun dict_set_all :: "'k list \<Rightarrow> 'v \<Rightarrow> ('k \<rightharpoonup> 'v) \<Rightarrow> ('k \<rightharpoonup> 'v)" where
  "dict_set_all [] v d = d"
| "dict_set_all (key # keys) v d = dict_set_all keys v (d(key \<mapsto> v))"

definition GeminiClient_init :: "config \<Rightarrow> error + gemini_client" where
  "GeminiClient_init cfg =
     (let keys = get_gemini_api_keys cfg in
      if keys = [] then Inl (ValueError ''No GEMINI_API_KEY configured'')
      else Inr \<lparr>api_keys = keys, current_key_index = 0,
                key_failures = dict_set_all keys 0 Map.empty,
                key_cooldown = dict_set_all keys 0 Map.empty\<rparr>)"

text \<open>
  Lines 500-503: the keys whose cooldown has elapsed, in configuration order. Reading the
  cooldown of a key that the dictionary lacks raises \<open>KeyError\<close>.
\<close>

fun available_keys_of :: "(string \<rightharpoonup> rat) \<Rightarrow> rat \<Rightarrow> string list \<Rightarrow> error + string list" where
  "available_keys_of cd current_time [] = Inr []"
| "available_keys_of cd current_time (key # keys) =
     (case cd key of
        None \<Rightarrow> Inl (KeyError key)
      | Some t \<Rightarrow>
          (case available_keys_of cd current_time keys of
             Inl e \<Rightarrow> Inl e
           | Inr rest \<Rightarrow> Inr (if t \<le> current_time then key # rest else rest)))"

text \<open>\<open>_get_next_available_key\<close>; \<open>current_time\<close> is the reading of \<open>time.time()\<close>.\<close>

definition get_next_available_key ::
    "rat \<Rightarrow> gemini_client \<Rightarrow> error + (string option \<times> gemini_client)" where
  "get_next_available_key current_time self =
     (case available_keys_of (key_cooldown self) current_time (api_keys self) of
        Inl e \<Rightarrow> Inl e
      | Inr available \<Rightarrow>
          (let (self1, available_keys) =
                 (if available = []
                  then (self\<lparr>key_cooldown := dict_set_all (api_keys self) 0 (key_cooldown self)\<rparr>,
                        api_keys self)
                  else (self, available))
           in if available_keys \<noteq> [] then
                Inr (Some (available_keys ! (current_key_index self1 mod length available_keys)),
                     self1\<lparr>current_key_index :=
                              (current_key_index self1 + 1) mod length available_keys\<rparr>)
              else Inr (None, self1)))"

text \<open>\<open>_mark_key_failure\<close>: 60 s of cooldown after a 429, 30 s after a 503, 10 s otherwise.\<close>

definition mark_key_failure ::
    "rat \<Rightarrow> string \<Rightarrow> int option \<Rightarrow> gemini_client \<Rightarrow> error + gemini_client" where
  "mark_key_failure current_time key status_code self =
     (case key_failures self key of
        None \<Rightarrow> Inl (KeyError key)
      | Some n \<Rightarrow>
          (let cooldown_seconds =
                 (if status_code = Some 429 then 60 else if status_code = Some 503 then 30
                  else 10)
           in Inr (self\<lparr>key_failures := (key_failures self)(key \<mapsto> n + 1),
                        key_cooldown := (key_cooldown self)(key \<mapsto>
                                           fl (current_time + of_int cooldown_seconds))\<rparr>)))"

text \<open>
  Lines 544-546 of \<open>_call_gemini_api\<close>: \<open>key_override or self._get_next_available_key()\<close>,
  then \<open>raise ValueError("No available API keys")\<close> when the chosen key is falsy.
\<close>

definition select_api_key ::
    "string option \<Rightarrow> rat \<Rightarrow> gemini_client \<Rightarrow> error + (string \<times> gemini_client)" where
  "select_api_key key_override current_time self =
     (if key_override \<noteq> None \<and> key_override \<noteq> Some []
      then Inr (the key_override, self)
      else (case get_next_available_key current_time self of
              Inl e \<Rightarrow> Inl e
            | Inr (None, self') \<Rightarrow> Inl (ValueError ''No available API keys'')
            | Inr (Some api_key, self') \<Rightarrow>
                if api_key = [] then Inl (ValueError ''No available API keys'')
                else Inr (api_key, self')))"

text \<open>
  The states a client passes through after construction: every key selection and every
  failure mark, at any clock reading, for any key the client holds and any status code.
\<close>

inductive client_reachable :: "config \<Rightarrow> gemini_client \<Rightarrow> bool" for cfg where
  constructed: "GeminiClient_init cfg = Inr c \<Longrightarrow> client_reachable cfg c"
| selected: "client_reachable cfg c \<Longrightarrow> get_next_available_key t c = Inr (k, c')
     \<Longrightarrow> client_reachable cfg c'"
| marked: "client_reachable cfg c \<Longrightarrow> key \<in> set (api_keys c)
     \<Longrightarrow> mark_key_failure t key status_code c = Inr c' \<Longrightarrow> client_reachable cfg c'"

subsection \<open>Batch responses\<close>

text \<open>
  The \<open>structured_result\<close> object of a response is whatever JSON the remote model wrote:
  each of the keys the orchestrator reads may be missing, and the orchestrator copies the
  values without a cast. The quantity is any finite JSON number, an int or a float. The
  action is only compared with strings and the confidence is only copied. Values of other
  JSON types (a quantity that is a string or \<open>null\<close>, on which the arithmetic of the depot
  step and of the summary raises \<open>TypeError\<close>) are not represented.
\<close>

record structured_result =
  sr_action :: "string option"
  sr_quantity :: "py_number option"
  sr_confidence :: "rat option"
  sr_reasons :: "string list"

record gemini_result =
  structured_result :: structured_result
  draft_message :: string

text \<open>One element of the \<open>sites\<close> array of a batch response.\<close>

record site_result =
  echoed_site_id :: "string option"
  echoed_structured_result :: "structured_result option"
  echoed_draft_message :: "string option"

text \<open>
  The shapes \<open>_parse_batch_response\<close> tells apart: no text part, text that is not JSON,
  JSON without a \<open>sites\<close> key, and a \<open>sites\<close> array.
\<close>

datatype batch_response = NoText | NotJson | NoSites | Sites "site_result list"

definition default_structured_result :: structured_result where
  "default_structured_result =
     \<lparr>sr_action = Some ''no_resupply'', sr_quantity = Some (PyInt 0),
      sr_confidence = Some (fl (5 / 10)),
      sr_reasons = [''Unable to parse structured result'']\<rparr>"

text \<open>Lines 454-467: the entry stored for a response element, with the defaults patched in.\<close>

definition patched :: "site_result \<Rightarrow> gemini_result" where
  "patched site_result =
     \<lparr>structured_result =
        (case echoed_structured_result site_result of
           None \<Rightarrow> default_structured_result | Some sr \<Rightarrow> sr),
      draft_message =
        (case echoed_draft_message site_result of
           None \<Rightarrow> ''Unable to generate justification message.'' | Some m \<Rightarrow> m)\<rparr>"

definition results_map_step ::
    "site_result \<Rightarrow> (string \<rightharpoonup> gemini_result) \<Rightarrow> (string \<rightharpoonup> gemini_result)" where
  "results_map_step site_result results_map =
     (case echoed_site_id site_result of
        None \<Rightarrow> results_map
      | Some sid \<Rightarrow> if sid = [] then results_map
                   else results_map(sid \<mapsto> patched site_result))"

text \<open>Lines 476-484: the entry for a site id the response does not hold.\<close>

definition fallback_result :: "string \<Rightarrow> gemini_result" where
  "fallback_result sid =
     \<lparr>structured_result =
        \<lparr>sr_action = Some ''no_resupply'', sr_quantity = Some (PyInt 0),
         sr_confidence = Some (fl (3 / 10)),
         sr_reasons = [''Site '' @ sid @ '' not found in batch response'']\<rparr>,
      draft_message = ''Unable to generate LLM analysis for site '' @ sid @ ''.''\<rparr>"

definition parse_batch_response :: "batch_response \<Rightarrow> string list \<Rightarrow> error + gemini_result list" where
  "parse_batch_response response site_ids =
     (case response of
        NoText \<Rightarrow> Inl (ValueError ''Error parsing batch response: Invalid response format from Gemini API'')
      | NotJson \<Rightarrow> Inl (ValueError ''Failed to parse JSON response'')
      | NoSites \<Rightarrow> Inl (ValueError ''Error parsing batch response: Response missing 'sites' array'')
      | Sites sites \<Rightarrow>
          (let results_map = fold results_map_step sites Map.empty
           in Inr (map (\<lambda>sid. case results_map sid of
                                  Some r \<Rightarrow> r
                                | None \<Rightarrow> fallback_result sid) site_ids)))"

text \<open>The invariant of the key rotation state that every reachable client has.\<close>

definition client_ok :: "gemini_client \<Rightarrow> bool" where
  "client_ok c \<longleftrightarrow> api_keys c \<noteq> [] \<and> [] \<notin> set (api_keys c)
     \<and> set (api_keys c) \<subseteq> dom (key_cooldown c) \<and> set (api_keys c) \<subseteq> dom (key_failures c)"

section \<open>Allocation optimizer (app/depot_optimizer.py)\<close>

text \<open>
  A Python \<open>dict\<close> whose iteration order matters is an association list with distinct
  keys, in insertion order: \<open>d[k] = v\<close> is \<^const>\<open>AList.update\<close>, \<open>d.get(k, v)\<close> is
  \<open>dict_get\<close>, and a comprehension or a loop of assignments over a sequence of pairs is
  \<open>dict_of_items\<close>.
\<close>

definition dict_get :: "('k \<times> 'v) list \<Rightarrow> 'k \<Rightarrow> 'v \<Rightarrow> 'v" where
  "dict_get d k v = (case map_of d k of None \<Rightarrow> v | Some x \<Rightarrow> x)"

definition dict_of_items :: "('k \<times> 'v) list \<Rightarrow> ('k \<times> 'v) list" where
  "dict_of_items items = foldl (\<lambda>d (k, v). AList.update k v d) [] items"

record allocation =
  depot_id :: string
  alloc_site_id :: string
  alloc_quantity :: int
  lead_time_days :: int

record allocation_plan =
  allocations :: "allocation list"
  total_allocated :: int
  unmet_demand :: "(string \<times> int) list"
  excess_inventory :: "(string \<times> int) list"
  optimization_score :: rat

text \<open>
  \<open>_find_best_depot\<close> with \<open>shipping_costs=None\<close>, as every call in the repository has it:
  the score of a candidate is its lead time. A candidate is (depot, allocatable, score).
\<close>

fun depot_candidates ::
    "string \<Rightarrow> int \<Rightarrow> (string \<times> int) list \<Rightarrow> (string \<times> (string \<times> int) list) list
       \<Rightarrow> (string \<times> int \<times> int) list" where
  "depot_candidates sid demand [] lead_times = []"
| "depot_candidates sid demand ((did, available) # depots) lead_times =
     (if available \<le> 0 then depot_candidates sid demand depots lead_times
      else (case map_of lead_times did of
              None \<Rightarrow> depot_candidates sid demand depots lead_times
            | Some site_times \<Rightarrow>
                (case map_of site_times sid of
                   None \<Rightarrow> depot_candidates sid demand depots lead_times
                 | Some lead_time \<Rightarrow>
                     (did, min demand available, lead_time)
                       # depot_candidates sid demand depots lead_times)))"

definition find_best_depot ::
    "string \<Rightarrow> int \<Rightarrow> (string \<times> int) list \<Rightarrow> (string \<times> (string \<times> int) list) list
       \<Rightarrow> (string \<times> int) option" where
  "find_best_depot sid demand depot_inventory lead_times =
     (case sort_key (\<lambda>(did, qty, score). score)
             (depot_candidates sid demand depot_inventory lead_times) of
        [] \<Rightarrow> None
      | (best_depot_id, best_qty, score) # rest \<Rightarrow> Some (best_depot_id, best_qty))"

text \<open>
  The allocation loop of \<open>optimize_depot_allocation\<close> (lines 54-78), over the sites in
  sorted order; the state is the plan and \<open>remaining_depot_inv\<close>.
\<close>

fun allocate_sites ::
    "(string \<times> (string \<times> int) list) list \<Rightarrow> (string \<times> int) list
       \<Rightarrow> allocation_plan \<times> (string \<times> int) list \<Rightarrow> allocation_plan \<times> (string \<times> int) list" where
  "allocate_sites lead_times [] st = st"
| "allocate_sites lead_times ((sid, net_demand) # sorted_sites) (plan, remaining_depot_inv) =
     (if net_demand \<le> 0 then allocate_sites lead_times sorted_sites (plan, remaining_depot_inv)
      else (case find_best_depot sid net_demand remaining_depot_inv lead_times of
              Some (did, allocated_qty) \<Rightarrow>
                allocate_sites lead_times sorted_sites
                  (plan\<lparr>allocations := allocations plan @
                            [\<lparr>depot_id = did, alloc_site_id = sid, alloc_quantity = allocated_qty,
                              lead_time_days = dict_get (dict_get lead_times did []) sid 7\<rparr>],
                         total_allocated := total_allocated plan + allocated_qty,
                         unmet_demand :=
                           (if allocated_qty < net_demand
                            then AList.update sid (net_demand - allocated_qty) (unmet_demand plan)
                            else unmet_demand plan)\<rparr>,
                   AList.map_entry did (\<lambda>v. v - allocated_qty) remaining_depot_inv)
            | None \<Rightarrow>
                allocate_sites lead_times sorted_sites
                  (plan\<lparr>unmet_demand := AList.update sid net_demand (unmet_demand plan)\<rparr>,
                   remaining_depot_inv)))"

text \<open>Net demand of one site: \<open>max(0, demand - site_inventory.get(site_id, 0))\<close>.\<close>

definition net_demand_of :: "(string \<times> int) list \<Rightarrow> string \<Rightarrow> int \<Rightarrow> int" where
  "net_demand_of site_inventory sid demand = max 0 (demand - dict_get site_inventory sid 0)"

text \<open>
  \<open>optimize_depot_allocation\<close>. \<open>site_demands\<close> is a dictionary, so each assignment
  \<open>net_demands[site_id] = \<dots>\<close> of the first loop adds a new key; \<open>sorted(\<dots>, reverse=True)\<close>
  is stable, as is \<^const>\<open>sort_key\<close> on the negated key. The score is the float
  \<open>(total_allocated / total_demand) * 100\<close>.
\<close>

definition optimize_depot_allocation ::
    "(string \<times> int) list \<Rightarrow> (string \<times> int) list \<Rightarrow> (string \<times> int) list
       \<Rightarrow> (string \<times> (string \<times> int) list) list \<Rightarrow> allocation_plan" where
  "optimize_depot_allocation site_demands depot_inventory site_inventory lead_times =
     (let net_demands = map (\<lambda>(sid, demand). (sid, net_demand_of site_inventory sid demand))
                          site_demands;
          sorted_sites = sort_key (\<lambda>(sid, net_demand). - net_demand) net_demands;
          (plan, remaining_depot_inv) =
             allocate_sites lead_times sorted_sites
               (\<lparr>allocations = [], total_allocated = 0, unmet_demand = [],
                 excess_inventory = [], optimization_score = 0\<rparr>, depot_inventory);
          plan1 = plan\<lparr>excess_inventory := filter (\<lambda>(did, remaining). remaining > 0)
                                                remaining_depot_inv\<rparr>;
          total_demand = sum_list (map snd net_demands)
      in if total_demand > 0
         then plan1\<lparr>optimization_score :=
                      fl (fl (of_int (total_allocated plan1) / of_int total_demand) * 100)\<rparr>
         else plan1)"

subsection \<open>The optimizer on numbers of either type\<close>

text \<open>
  The source of the optimizer does not fix the type of its quantities. The embedding
  above is the one for the annotated types, \<open>Dict[str, int]\<close>. The orchestrator passes the
  quantities of its decisions, which for the reasoning lane are JSON numbers of either
  type; the embedding below is the same source, line by line, on such numbers. On ints
  the two agree (\<open>num_optimize_depot_allocation_ints\<close>). With floats, \<open>sum\<close> is the plain
  left-to-right addition of CPython before 3.12; later versions compensate the rounding
  error of a float sum.
\<close>

definition dict_map_values :: "('v \<Rightarrow> 'w) \<Rightarrow> ('k \<times> 'v) list \<Rightarrow> ('k \<times> 'w) list" where
  "dict_map_values f d = map (\<lambda>(k, v). (k, f v)) d"

record num_allocation =
  num_depot_id :: string
  num_site_id :: string
  num_quantity :: py_number
  num_lead_time_days :: int

record num_allocation_plan =
  num_allocations :: "num_allocation list"
  num_total_allocated :: py_number
  num_unmet_demand :: "(string \<times> py_number) list"
  num_excess_inventory :: "(string \<times> py_number) list"
  num_optimization_score :: rat

fun num_depot_candidates ::
    "string \<Rightarrow> py_number \<Rightarrow> (string \<times> py_number) list \<Rightarrow> (string \<times> (string \<times> int) list) list
       \<Rightarrow> (string \<times> py_number \<times> int) list" where
  "num_depot_candidates sid demand [] lead_times = []"
| "num_depot_candidates sid demand ((did, available) # depots) lead_times =
     (if \<not> py_less (PyInt 0) available then num_depot_candidates sid demand depots lead_times
      else (case map_of lead_times did of
              None \<Rightarrow> num_depot_candidates sid demand depots lead_times
            | Some site_times \<Rightarrow>
                (case map_of site_times sid of
                   None \<Rightarrow> num_depot_candidates sid demand depots lead_times
                 | Some lead_time \<Rightarrow>
                     (did, py_min demand available, lead_time)
                       # num_depot_candidates sid demand depots lead_times)))"

definition num_find_best_depot ::
    "string \<Rightarrow> py_number \<Rightarrow> (string \<times> py_number) list \<Rightarrow> (string \<times> (string \<times> int) list) list
       \<Rightarrow> (string \<times> py_number) option" where
  "num_find_best_depot sid demand depot_inventory lead_times =
     (case sort_key (\<lambda>(did, qty, score). score)
             (num_depot_candidates sid demand depot_inventory lead_times) of
        [] \<Rightarrow> None
      | (best_depot_id, best_qty, score) # rest \<Rightarrow> Some (best_depot_id, best_qty))"

fun num_allocate_sites ::
    "(string \<times> (string \<times> int) list) list \<Rightarrow> (string \<times> py_number) list
       \<Rightarrow> num_allocation_plan \<times> (string \<times> py_number) list
       \<Rightarrow> num_allocation_plan \<times> (string \<times> py_number) list" where
  "num_allocate_sites lead_times [] st = st"
| "num_allocate_sites lead_times ((sid, net_demand) # sorted_sites) (plan, remaining_depot_inv) =
     (if \<not> py_less (PyInt 0) net_demand
      then num_allocate_sites lead_times sorted_sites (plan, remaining_depot_inv)
      else (case num_find_best_depot sid net_demand remaining_depot_inv lead_times of
              Some (did, allocated_qty) \<Rightarrow>
                num_allocate_sites lead_times sorted_sites
                  (plan\<lparr>num_allocations := num_allocations plan @
                            [\<lparr>num_depot_id = did, num_site_id = sid, num_quantity = allocated_qty,
                              num_lead_time_days = dict_get (dict_get lead_times did []) sid 7\<rparr>],
                         num_total_allocated := py_add (num_total_allocated plan) allocated_qty,
                         num_unmet_demand :=
                           (if py_less allocated_qty net_demand
                            then AList.update sid (py_sub net_demand allocated_qty)
                                   (num_unmet_demand plan)
                            else num_unmet_demand plan)\<rparr>,
                   AList.map_entry did (\<lambda>v. py_sub v allocated_qty) remaining_depot_inv)
            | None \<Rightarrow>
                num_allocate_sites lead_times sorted_sites
                  (plan\<lparr>num_unmet_demand := AList.update sid net_demand (num_unmet_demand plan)\<rparr>,
                   remaining_depot_inv)))"

definition num_net_demand_of :: "(string \<times> py_number) list \<Rightarrow> string \<Rightarrow> py_number \<Rightarrow> py_number" where
  "num_net_demand_of site_inventory sid demand =
     py_max (PyInt 0) (py_sub demand (dict_get site_inventory sid (PyInt 0)))"

definition num_optimize_depot_allocation ::
    "(string \<times> py_number) list \<Rightarrow> (string \<times> py_number) list \<Rightarrow> (string \<times> py_number) list
       \<Rightarrow> (string \<times> (string \<times> int) list) list \<Rightarrow> num_allocation_plan" where
  "num_optimize_depot_allocation site_demands depot_inventory site_inventory lead_times =
     (let net_demands = map (\<lambda>(sid, demand). (sid, num_net_demand_of site_inventory sid demand))
                          site_demands;
          sorted_sites = sort_key (\<lambda>(sid, net_demand). - num_val net_demand) net_demands;
          (plan, remaining_depot_inv) =
             num_allocate_sites lead_times sorted_sites
               (\<lparr>num_allocations = [], num_total_allocated = PyInt 0, num_unmet_demand = [],
                 num_excess_inventory = [], num_optimization_score = 0\<rparr>, depot_inventory);
          plan1 = plan\<lparr>num_excess_inventory :=
                           filter (\<lambda>(did, remaining). py_less (PyInt 0) remaining)
                             remaining_depot_inv\<rparr>;
          total_demand = py_sum (map snd net_demands)
      in if py_less (PyInt 0) total_demand
         then plan1\<lparr>num_optimization_score :=
                      fl (py_truediv (num_total_allocated plan1) total_demand * py_float 100)\<rparr>
         else plan1)"

text \<open>The plan of the int embedding, read as a plan on numbers.\<close>

definition num_plan_of :: "allocation_plan \<Rightarrow> num_allocation_plan" where
  "num_plan_of plan =
     \<lparr>num_allocations =
        map (\<lambda>a. \<lparr>num_depot_id = depot_id a, num_site_id = alloc_site_id a,
                   num_quantity = PyInt (alloc_quantity a),
                   num_lead_time_days = lead_time_days a\<rparr>) (allocations plan),
      num_total_allocated = PyInt (total_allocated plan),
      num_unmet_demand = dict_map_values PyInt (unmet_demand plan),
      num_excess_inventory = dict_map_values PyInt (excess_inventory plan),
      num_optimization_score = optimization_score plan\<rparr>"

section \<open>Orchestrator (app/orchestrator.py)\<close>

text \<open>
  The two calls the orchestrator makes on its client are modelled by their outcome: what
  \<open>get_batch_recommendations\<close> returns or raises for a batch of rows, and what
  \<open>get_recommendation_justification\<close> returns or raises for one row. Retries, key
  rotation and the remote model are behind that outcome.
\<close>

record remote =
  get_batch_recommendations :: "site list \<Rightarrow> error + gemini_result list"
  get_recommendation_justification :: "site \<Rightarrow> error + gemini_result"

record orchestrator =
  gemini_client :: "gemini_client option"
  llm_available :: bool
  llm_failure_count :: nat
  max_llm_failures :: nat
  use_batch_api :: bool
  use_parallel :: bool
  use_selective_llm :: bool
  batch_api_size :: int
  max_concurrent :: int
  rate_limiter :: "int option"

text \<open>
  \<open>__init__\<close>: a client that cannot be constructed leaves the orchestrator without one.
  \<open>Semaphore(n)\<close> raises \<open>ValueError\<close> for a negative \<open>n\<close>.
\<close>

definition Orchestrator_init :: "config \<Rightarrow> error + orchestrator" where
  "Orchestrator_init cfg =
     (let (client, available) =
            (case GeminiClient_init cfg of
               Inl e \<Rightarrow> (None, False)
             | Inr c \<Rightarrow> (Some c, True))
      in if USE_PARALLEL cfg \<and> MAX_CONCURRENT_REQUESTS cfg < 0
         then Inl (ValueError ''semaphore initial value must be >= 0'')
         else Inr \<lparr>gemini_client = client, llm_available = available,
                   llm_failure_count = 0, max_llm_failures = 3,
                   use_batch_api = (USE_BATCH_API cfg \<and> available),
                   use_parallel = USE_PARALLEL cfg,
                   use_selective_llm = USE_SELECTIVE_LLM cfg,
                   batch_api_size = BATCH_API_SIZE cfg,
                   max_concurrent = MAX_CONCURRENT_REQUESTS cfg,
                   rate_limiter = (if USE_PARALLEL cfg then Some (MAX_CONCURRENT_REQUESTS cfg)
                                   else None)\<rparr>)"

definition should_use_llm :: "config \<Rightarrow> orchestrator \<Rightarrow> site \<Rightarrow> bool" where
  "should_use_llm cfg self site_row =
     (if \<not> use_selective_llm self \<or> \<not> llm_available self
      then llm_available self \<and> llm_failure_count self < max_llm_failures self
      else if urgency_score site_row \<ge> LLM_PRIORITY_THRESHOLD cfg then True
      else if days_to_expiry site_row \<le> LLM_EXPIRY_THRESHOLD cfg then True
      else if current_inventory site_row < projected_30d_demand site_row then True
      else False)"

text \<open>
  One entry of \<open>results\<close>. \<open>latency_ms\<close> (a wall-clock measurement) and the nested copy of
  the raw response are left out; \<open>result_current_inventory\<close> is the \<open>current_inventory\<close> key
  that the enrichment loop adds.
\<close>

record decision =
  result_site_id :: string
  action :: string
  quantity :: py_number
  confidence :: rat
  reason :: string
  llm_used :: bool
  result_current_inventory :: "int option"

definition process_site_with_rules :: "site \<Rightarrow> string \<Rightarrow> decision" where
  "process_site_with_rules row sid =
     (let rules_result = recommend_resupply row
      in \<lparr>result_site_id = sid, action = rr_action rules_result,
          quantity = PyInt (rr_quantity rules_result), confidence = fl (5 / 10),
          reason = rr_reason rules_result @ '' (Rules engine)'', llm_used = False,
          result_current_inventory = None\<rparr>)"

text \<open>
  The dictionary built from a client result (lines 144-153 and 186-195); a key that
  \<open>structured_result\<close> lacks raises \<open>KeyError\<close>.
\<close>

definition llm_decision :: "string \<Rightarrow> gemini_result \<Rightarrow> error + decision" where
  "llm_decision sid gemini_res =
     (case sr_action (structured_result gemini_res) of
        None \<Rightarrow> Inl (KeyError ''action'')
      | Some a \<Rightarrow>
          (case sr_quantity (structured_result gemini_res) of
             None \<Rightarrow> Inl (KeyError ''quantity'')
           | Some q \<Rightarrow>
               (case sr_confidence (structured_result gemini_res) of
                  None \<Rightarrow> Inl (KeyError ''confidence'')
                | Some c \<Rightarrow>
                    Inr \<lparr>result_site_id = sid, action = a, quantity = q, confidence = c,
                         reason = draft_message gemini_res, llm_used = True,
                         result_current_inventory = None\<rparr>)))"

text \<open>Lines 139-156: the \<open>idx\<close>-th row takes the \<open>idx\<close>-th result, or the rules when there is none.\<close>

fun map_batch_results :: "site list \<Rightarrow> gemini_result list \<Rightarrow> error + decision list" where
  "map_batch_results [] batch_results = Inr []"
| "map_batch_results (row # rows) [] =
     (case map_batch_results rows [] of
        Inl e \<Rightarrow> Inl e
      | Inr processed \<Rightarrow> Inr (process_site_with_rules row (site_id row) # processed))"
| "map_batch_results (row # rows) (gemini_res # batch_results) =
     (case llm_decision (site_id row) gemini_res of
        Inl e \<Rightarrow> Inl e
      | Inr d \<Rightarrow>
          (case map_batch_results rows batch_results of
             Inl e \<Rightarrow> Inl e
           | Inr processed \<Rightarrow> Inr (d # processed)))"

definition process_sites_batch_llm ::
    "remote \<Rightarrow> orchestrator \<Rightarrow> site list \<Rightarrow> decision list \<times> orchestrator" where
  "process_sites_batch_llm rem self sites_batch =
     (if gemini_client self = None \<or> sites_batch = [] then ([], self)
      else (case get_batch_recommendations rem sites_batch of
              Inl e \<Rightarrow>
                (map (\<lambda>row. process_site_with_rules row (site_id row)) sites_batch,
                 self\<lparr>llm_failure_count := llm_failure_count self + 1\<rparr>)
            | Inr batch_results \<Rightarrow>
                (case map_batch_results sites_batch batch_results of
                   Inl e \<Rightarrow>
                     (map (\<lambda>row. process_site_with_rules row (site_id row)) sites_batch,
                      self\<lparr>llm_failure_count := llm_failure_count self + 1\<rparr>)
                 | Inr processed_sites \<Rightarrow>
                     (processed_sites, self\<lparr>llm_failure_count := 0\<rparr>))))"

text \<open>
  \<open>_process_site_individual_llm\<close> resets the failure count as soon as the call returns
  (line 184), before it reads the result: a \<open>KeyError\<close> raised by the reads of lines
  186-195 is caught by the same handler and counts one failure from zero.
\<close>

definition process_site_individual_llm ::
    "remote \<Rightarrow> orchestrator \<Rightarrow> site \<Rightarrow> string \<Rightarrow> decision \<times> orchestrator" where
  "process_site_individual_llm rem self row sid =
     (if gemini_client self = None then (process_site_with_rules row sid, self)
      else (case get_recommendation_justification rem row of
              Inl e \<Rightarrow>
                (process_site_with_rules row sid,
                 self\<lparr>llm_failure_count := llm_failure_count self + 1\<rparr>)
            | Inr gemini_res \<Rightarrow>
                (case llm_decision sid gemini_res of
                   Inl e \<Rightarrow> (process_site_with_rules row sid, self\<lparr>llm_failure_count := 0 + 1\<rparr>)
                 | Inr d \<Rightarrow> (d, self\<lparr>llm_failure_count := 0\<rparr>))))"

subsection \<open>The run\<close>

text \<open>
  The model of \<open>run\<close> starts from the feature table (steps 3 to 5 and 7): classification,
  dispatch of both lanes, the enrichment loop and the depot step. Loading, waste and
  excursion analysis, the output file and the summary are outside it.
\<close>

text \<open>
  \<open>as_completed\<close> yields every submitted future once, in the order the tasks finish. The
  order is a parameter: at each step the next choice, taken modulo the number of pending
  tasks, names the task that finishes next; when the choices run out the rest finish in
  submission order. Every completion order arises from some list of choices. A task runs
  to its end without interleaving with another one.
\<close>

fun as_completed :: "nat list \<Rightarrow> 'a list \<Rightarrow> 'a list" where
  "as_completed choices [] = []"
| "as_completed [] pending = pending"
| "as_completed (c # choices) pending =
     (let i = c mod length pending
      in pending ! i # as_completed choices (take i pending @ drop (Suc i) pending))"

record schedule =
  llm_completion :: "nat list"
  rules_completion :: "nat list"

text \<open>
  \<open>llm_sites[batch_idx:batch_idx + size]\<close> for \<open>batch_idx\<close> in
  \<open>range(0, len(llm_sites), size)\<close>. The loop runs only for a size above 1.
\<close>

function batches_of :: "nat \<Rightarrow> 'a list \<Rightarrow> 'a list list" where
  "batches_of n xs = (if n = 0 \<or> xs = [] then [] else take n xs # batches_of n (drop n xs))"
  by pat_completeness auto
termination
  by (relation "measure (\<lambda>(n, xs). length xs)") auto

declare batches_of.simps [simp del]

fun process_batches ::
    "remote \<Rightarrow> orchestrator \<Rightarrow> site list list \<Rightarrow> decision list \<times> orchestrator" where
  "process_batches rem self [] = ([], self)"
| "process_batches rem self (batch # batches) =
     (case process_sites_batch_llm rem self batch of
        (batch_results, self1) \<Rightarrow>
          (case process_batches rem self1 batches of
             (results, self2) \<Rightarrow> (batch_results @ results, self2)))"

fun process_individually ::
    "remote \<Rightarrow> orchestrator \<Rightarrow> site list \<Rightarrow> decision list \<times> orchestrator" where
  "process_individually rem self [] = ([], self)"
| "process_individually rem self (row # rows) =
     (case process_site_individual_llm rem self row (site_id row) of
        (result, self1) \<Rightarrow>
          (case process_individually rem self1 rows of
             (results, self2) \<Rightarrow> (result # results, self2)))"

text \<open>
  Lines 296-351. \<open>ThreadPoolExecutor(max_workers=n)\<close> raises \<open>ValueError\<close> for \<open>n \<le> 0\<close>.
\<close>

definition process_llm_sites ::
    "remote \<Rightarrow> schedule \<Rightarrow> orchestrator \<Rightarrow> site list \<Rightarrow> error + decision list \<times> orchestrator" where
  "process_llm_sites rem sched self llm_sites =
     (if llm_sites = [] then Inr ([], self)
      else if use_batch_api self \<and> batch_api_size self > 1
      then Inr (process_batches rem self (batches_of (nat (batch_api_size self)) llm_sites))
      else if use_parallel self \<and> rate_limiter self \<noteq> None
      then (if max_concurrent self \<le> 0
            then Inl (ValueError ''max_workers must be greater than 0'')
            else Inr (process_individually rem self
                        (as_completed (llm_completion sched) llm_sites)))
      else Inr (process_individually rem self llm_sites))"

text \<open>
  Lines 354-382. The rule engine raises on no row, so the handler of lines 372-376 is
  never entered.
\<close>

definition process_rules_sites ::
    "schedule \<Rightarrow> orchestrator \<Rightarrow> site list \<Rightarrow> error + decision list" where
  "process_rules_sites sched self rules_sites =
     (if rules_sites = [] then Inr []
      else if use_parallel self \<and> rate_limiter self \<noteq> None
      then (if min (max_concurrent self * 2) (int (length rules_sites)) \<le> 0
            then Inl (ValueError ''max_workers must be greater than 0'')
            else Inr (as_completed (rules_completion sched)
                        (map (\<lambda>row. process_site_with_rules row (site_id row)) rules_sites)))
      else Inr (map (\<lambda>row. process_site_with_rules row (site_id row)) rules_sites))"

text \<open>
  Lines 385-448: a result takes \<open>current_inventory\<close> from the first row of \<open>sites_list\<close>
  with its site id, and is left as it is when there is none.
\<close>

definition enrich :: "site list \<Rightarrow> decision \<Rightarrow> decision" where
  "enrich sites_list result =
     (case find (\<lambda>r. site_id r = result_site_id result) sites_list of
        None \<Rightarrow> result
      | Some row \<Rightarrow> result\<lparr>result_current_inventory := Some (current_inventory row)\<rparr>)"

text \<open>
  Lines 472-479: the inputs of the depot step. The demands are the quantities of the
  decisions as they are; the inventories are the ints the enrichment loop stored.
\<close>

definition depot_site_demands :: "decision list \<Rightarrow> (string \<times> py_number) list" where
  "depot_site_demands results =
     dict_of_items (map (\<lambda>r. (result_site_id r, quantity r))
                        (filter (\<lambda>r. action r = ''resupply'') results))"

definition depot_site_inventory :: "decision list \<Rightarrow> (string \<times> int) list" where
  "depot_site_inventory results =
     dict_of_items (map (\<lambda>r. (result_site_id r,
                               (case result_current_inventory r of None \<Rightarrow> 0 | Some i \<Rightarrow> i)))
                        results)"

definition depot_depot_inventory :: "(string \<times> py_number) list \<Rightarrow> (string \<times> py_number) list" where
  "depot_depot_inventory site_demands =
     [(''DEPOT_001'', py_mul (py_sum (map snd site_demands)) (PyInt 2))]"

definition depot_lead_times ::
    "(string \<times> py_number) list \<Rightarrow> (string \<times> py_number) list
       \<Rightarrow> (string \<times> (string \<times> int) list) list" where
  "depot_lead_times site_demands depot_inventory =
     dict_of_items (map (\<lambda>(did, inv). (did, dict_of_items (map (\<lambda>(sid, q). (sid, 7)) site_demands)))
                        depot_inventory)"

definition depot_step :: "decision list \<Rightarrow> num_allocation_plan option" where
  "depot_step results =
     (if length results > 0
      then (let site_demands = depot_site_demands results;
                site_inventory = depot_site_inventory results;
                depot_inventory = depot_depot_inventory site_demands;
                lead_times = depot_lead_times site_demands depot_inventory
            in Some (num_optimize_depot_allocation site_demands depot_inventory
                       (dict_map_values PyInt site_inventory) lead_times))
      else None)"

record run_output =
  results :: "decision list"
  depot_optimization :: "num_allocation_plan option"

definition sort_sites :: "site list \<Rightarrow> site list" where
  "sort_sites site_features =
     sort_key (\<lambda>row. (- urgency_score row, days_to_expiry row)) site_features"

definition run ::
    "config \<Rightarrow> remote \<Rightarrow> schedule \<Rightarrow> orchestrator \<Rightarrow> site list
       \<Rightarrow> error + run_output \<times> orchestrator" where
  "run cfg rem sched self site_features =
     (let sites_list = sort_sites site_features;
          llm_sites = filter (\<lambda>row. should_use_llm cfg self row) sites_list;
          rules_sites = filter (\<lambda>row. \<not> should_use_llm cfg self row) sites_list
      in case process_llm_sites rem sched self llm_sites of
           Inl e \<Rightarrow> Inl e
         | Inr (llm_results, self1) \<Rightarrow>
             (case process_rules_sites sched self1 rules_sites of
                Inl e \<Rightarrow> Inl e
              | Inr rules_results \<Rightarrow>
                  (let results = map (enrich sites_list) (llm_results @ rules_results)
                   in Inr (\<lparr>results = results, depot_optimization = depot_step results\<rparr>,
                           self1))))"

section \<open>Relations between sites and decisions\<close>

text \<open>
  A result that the client returned for a row: the result of the single call on the row,
  or the result at the row's position in the answer to a batch that holds the row.
\<close>

definition client_returned :: "remote \<Rightarrow> site \<Rightarrow> gemini_result \<Rightarrow> bool" where
  "client_returned rem row g \<longleftrightarrow>
     get_recommendation_justification rem row = Inr g
     \<or> (\<exists>batch rs i. get_batch_recommendations rem batch = Inr rs
            \<and> i < length batch \<and> i < length rs \<and> batch ! i = row \<and> rs ! i = g)"

text \<open>
  What dispatch makes of a row: the rule engine's decision for it, or the decision built
  from a result that the client returned for it.
\<close>

definition lane_ok :: "remote \<Rightarrow> site \<Rightarrow> decision \<Rightarrow> bool" where
  "lane_ok rem row d \<longleftrightarrow> d = process_site_with_rules row (site_id row)
     \<or> (\<exists>g. client_returned rem row g \<and> llm_decision (site_id row) g = Inr d)"

text \<open>The same after the enrichment loop has run over the results.\<close>

definition site_decision :: "site list \<Rightarrow> site \<Rightarrow> decision \<Rightarrow> bool" where
  "site_decision sites_list row d \<longleftrightarrow>
     d = enrich sites_list (process_site_with_rules row (site_id row))
     \<or> (llm_used d \<and> result_site_id d = site_id row)"

text \<open>The orchestrator's fields other than the failure count.\<close>

definition settings_of :: "orchestrator \<Rightarrow> orchestrator" where
  "settings_of self = self\<lparr>llm_failure_count := 0\<rparr>"

text \<open>The total quantity that the edges of a plan allocate to one site.\<close>

definition allocated_to :: "allocation_plan \<Rightarrow> string \<Rightarrow> int" where
  "allocated_to plan sid =
     sum_list (map alloc_quantity (filter (\<lambda>a. alloc_site_id a = sid) (allocations plan)))"

text \<open>
  The exact values, without rounding, of the two totals of the depot step: the net demand
  of all demand sites, and the sum of the demands.
\<close>

definition net_demand_total :: "(string \<times> py_number) list \<Rightarrow> (string \<times> int) list \<Rightarrow> rat" where
  "net_demand_total site_demands site_inventory =
     sum_list (map (\<lambda>(sid, demand). max 0 (num_val demand - of_int (dict_get site_inventory sid 0)))
                   site_demands)"

definition demand_total :: "(string \<times> py_number) list \<Rightarrow> rat" where
  "demand_total site_demands = sum_list (map (\<lambda>(sid, demand). num_val demand) site_demands)"

section \<open>Example inputs\<close>

text \<open>The configuration with the defaults of \<open>app/config.py\<close> and one API key.\<close>

definition default_config :: config where
  "default_config =
     \<lparr>GEMINI_API_KEY = ''key-0'', GEMINI_API_KEY_1 = [], GEMINI_API_KEY_2 = [],
      GEMINI_API_KEY_3 = [], BATCH_API_SIZE = 5, USE_BATCH_API = True,
      MAX_CONCURRENT_REQUESTS = 3, USE_PARALLEL = True, LLM_PRIORITY_THRESHOLD = fl (15 / 10),
      LLM_EXPIRY_THRESHOLD = 60, USE_SELECTIVE_LLM = True\<rparr>"

text \<open>The site of the spec's rule engine example.\<close>

definition example_site :: "string \<Rightarrow> site" where
  "example_site sid =
     \<lparr>site_id = sid, projected_30d_demand = 100, current_inventory = 50, days_to_expiry = 60,
      urgency_score = fl (100 / 51)\<rparr>"

text \<open>
  A remote whose batch call answers \<open>resupply\<close> with quantity \<open>q\<close> for every row of the
  batch, and whose single call raises.
\<close>

definition example_remote :: "int \<Rightarrow> remote" where
  "example_remote q =
     \<lparr>get_batch_recommendations =
        (\<lambda>batch. Inr (map (\<lambda>row. \<lparr>structured_result =
                                      \<lparr>sr_action = Some ''resupply'', sr_quantity = Some (PyInt q),
                                       sr_confidence = Some (fl (9 / 10)), sr_reasons = []\<rparr>,
                                    draft_message = ''Resupply advised.''\<rparr>) batch)),
      get_recommendation_justification = (\<lambda>row. Inl (Exception ''unused''))\<rparr>"

text \<open>The same with any action and any number as the quantity.\<close>

definition answering_remote :: "string \<Rightarrow> py_number \<Rightarrow> remote" where
  "answering_remote a q =
     \<lparr>get_batch_recommendations =
        (\<lambda>batch. Inr (map (\<lambda>row. \<lparr>structured_result =
                                      \<lparr>sr_action = Some a, sr_quantity = Some q,
                                       sr_confidence = Some (fl (9 / 10)), sr_reasons = []\<rparr>,
                                    draft_message = ''Advice.''\<rparr>) batch)),
      get_recommendation_justification = (\<lambda>row. Inl (Exception ''unused''))\<rparr>"

definition no_schedule :: schedule where
  "no_schedule = \<lparr>llm_completion = [], rules_completion = []\<rparr>"


definition sequential_config :: config where
  "sequential_config =
     default_config\<lparr>USE_SELECTIVE_LLM := False, USE_BATCH_API := False, USE_PARALLEL := False\<rparr>"

definition routine_site :: "string \<Rightarrow> int \<Rightarrow> site" where
  "routine_site sid dte =
     \<lparr>site_id = sid, projected_30d_demand = 10, current_inventory = 50, days_to_expiry = dte,
      urgency_score = fl (10 / 51)\<rparr>"

definition five_sites :: "site list" where
  "five_sites = [routine_site ''SITE_001'' 61, routine_site ''SITE_002'' 62,
     routine_site ''SITE_003'' 63, routine_site ''SITE_004'' 64, routine_site ''SITE_005'' 65]"

definition flaky_remote :: remote where
  "flaky_remote =
     \<lparr>get_batch_recommendations = (\<lambda>batch. Inl (Exception ''503'')),
      get_recommendation_justification =
        (\<lambda>row. if site_id row = ''SITE_005''
               then Inr \<lparr>structured_result =
                           \<lparr>sr_action = Some ''no_resupply'', sr_quantity = Some (PyInt 0),
                            sr_confidence = Some (fl (9 / 10)), sr_reasons = []\<rparr>,
                         draft_message = ''Stock is sufficient.''\<rparr>
               else Inl (Exception ''503''))\<rparr>"


text \<open>
  A site without stock, and a remote whose batch call answers \<open>resupply\<close> with the
  quantities 0.1, 0.2 and 0.5 for \<open>SITE_001\<close>, \<open>SITE_002\<close> and any other site.
\<close>

definition stockout_site :: "string \<Rightarrow> site" where
  "stockout_site sid =
     \<lparr>site_id = sid, projected_30d_demand = 100, current_inventory = 0, days_to_expiry = 60,
      urgency_score = fl (100 / 1)\<rparr>"

definition fractional_quantity :: "string \<Rightarrow> py_number" where
  "fractional_quantity sid =
     (if sid = ''SITE_001'' then PyFloat (fl (1 / 10))
      else if sid = ''SITE_002'' then PyFloat (fl (2 / 10))
      else PyFloat (fl (5 / 10)))"

definition fractional_remote :: remote where
  "fractional_remote =
     \<lparr>get_batch_recommendations =
        (\<lambda>batch. Inr (map (\<lambda>row. \<lparr>structured_result =
                                      \<lparr>sr_action = Some ''resupply'',
                                       sr_quantity = Some (fractional_quantity (site_id row)),
                                       sr_confidence = Some (fl (9 / 10)), sr_reasons = []\<rparr>,
                                    draft_message = ''Resupply advised.''\<rparr>) batch)),
      get_recommendation_justification = (\<lambda>row. Inl (Exception ''unused''))\<rparr>"

text \<open>A site whose inventory records sum to a negative count.\<close>

definition negative_inventory_site :: site where
  "negative_inventory_site =
     \<lparr>site_id = ''SITE_001'', projected_30d_demand = 40, current_inventory = - 30,
      days_to_expiry = 90, urgency_score = fl (- 40 / 29)\<rparr>"

section \<open>Verified properties\<close>

subsection \<open>Arithmetic of the model\<close>

lemma safety_stock_of_100: "safety_stock_of 100 = 19"
  by code_simp

lemma safety_stock_product_100:
  "fl (py_float 100 * fl (SAFETY_STOCK_MULTIPLIER - 1)) = 5629499534213119 / 281474976710656"
  by code_simp

lemma py_float_60: "py_float 60 = 60"
  by code_simp

lemma fl_3_10_less: "fl (3 / 10) < fl (1 / 2)"
  by code_simp

subsection \<open>Rule engine\<close>

text \<open>
  C3 (the code differs): for demand 100, inventory 50 and 60 days to expiry the claim
  states a safety stock of 20 and a quantity of 70. The code multiplies 100 by the
  binary64 value of \<open>1.2 - 1\<close>, which lies below 2/10; the rounded product lies below 20
  and \<open>int\<close> truncates it to 19. The rule engine decides resupply, with quantity
  \<open>max(10, 100 + 19 - 50) = 69\<close>.
\<close>

theorem recommend_resupply_spec_example:
  "fl (py_float 100 * fl (SAFETY_STOCK_MULTIPLIER - 1)) < 20
   \<and> safety_stock_of 100 = 19
   \<and> rr_action (recommend_resupply (example_site sid)) = ''resupply''
   \<and> rr_quantity (recommend_resupply (example_site sid)) = 69"
  by (simp add: safety_stock_product_100 recommend_resupply_def example_site_def
      safety_stock_of_100 py_float_60 EXPIRY_THRESHOLD_DAYS_def MIN_ORDER_QUANTITY_def)

subsection \<open>Batch response parsing\<close>

lemma fold_results_map_step:
  "fold results_map_step sites m sid =
     (let echoes = filter (\<lambda>e. echoed_site_id e = Some sid) sites
      in if sid \<noteq> [] \<and> echoes \<noteq> [] then Some (patched (last echoes)) else m sid)"
proof (induction sites arbitrary: m)
  case Nil
  then show ?case by simp
next
  case (Cons e es)
  have "fold results_map_step (e # es) m sid = fold results_map_step es (results_map_step e m) sid"
    by simp
  also have "\<dots> = (let echoes = filter (\<lambda>e. echoed_site_id e = Some sid) es
      in if sid \<noteq> [] \<and> echoes \<noteq> [] then Some (patched (last echoes))
         else results_map_step e m sid)"
    by (rule Cons.IH)
  also have "\<dots> = (let echoes = filter (\<lambda>e. echoed_site_id e = Some sid) (e # es)
      in if sid \<noteq> [] \<and> echoes \<noteq> [] then Some (patched (last echoes)) else m sid)"
    by (auto simp: Let_def results_map_step_def split: option.splits)
  finally show ?case .
qed

text \<open>
  C7: for a response with a \<open>sites\<close> array, the parsed list has the length and the order of
  the input site ids. The entry of a site id is taken from the response element that echoes
  it (the last such element when several echo it): its own \<open>structured_result\<close> and its own
  \<open>draft_message\<close>, each replaced by a default only when the element lacks it. A site id
  that no element echoes, and the empty site id, get the fallback entry: \<open>no_resupply\<close>,
  quantity 0, confidence 0.3, which is below the 0.5 of the default.
\<close>

theorem parse_batch_response_matches_site_ids:
  "\<exists>results. parse_batch_response (Sites sites) site_ids = Inr results
     \<and> length results = length site_ids
     \<and> (\<forall>i < length site_ids.
          (let sid = site_ids ! i;
               echoes = filter (\<lambda>e. echoed_site_id e = Some sid) sites
           in results ! i =
                (if sid \<noteq> [] \<and> echoes \<noteq> []
                 then \<lparr>structured_result =
                         (case echoed_structured_result (last echoes) of
                            None \<Rightarrow>
                              \<lparr>sr_action = Some ''no_resupply'', sr_quantity = Some (PyInt 0),
                               sr_confidence = Some (fl (5 / 10)),
                               sr_reasons = [''Unable to parse structured result'']\<rparr>
                          | Some sr \<Rightarrow> sr),
                       draft_message =
                         (case echoed_draft_message (last echoes) of
                            None \<Rightarrow> ''Unable to generate justification message.''
                          | Some m \<Rightarrow> m)\<rparr>
                 else \<lparr>structured_result =
                         \<lparr>sr_action = Some ''no_resupply'', sr_quantity = Some (PyInt 0),
                          sr_confidence = Some (fl (3 / 10)),
                          sr_reasons = [''Site '' @ sid @ '' not found in batch response'']\<rparr>,
                       draft_message =
                         ''Unable to generate LLM analysis for site '' @ sid @ ''.''\<rparr>)))
     \<and> fl (3 / 10) < fl (5 / 10)"
  by (simp add: parse_batch_response_def fold_results_map_step Let_def fallback_result_def
      patched_def default_structured_result_def fl_3_10_less cong: option.case_cong)

theorem parse_batch_response_matches_site_ids_witness:
  "\<exists>results. parse_batch_response
       (Sites [\<lparr>echoed_site_id = Some ''SITE_002'',
                echoed_structured_result =
                  Some \<lparr>sr_action = Some ''resupply'', sr_quantity = Some (PyInt 40),
                        sr_confidence = Some (fl (9 / 10)),
                        sr_reasons = [''Demand exceeds stock'']\<rparr>,
                echoed_draft_message = Some ''Please ship 40 units.''\<rparr>,
               \<lparr>echoed_site_id = Some ''SITE_003'', echoed_structured_result = None,
                echoed_draft_message = None\<rparr>])
       [''SITE_001'', ''SITE_002'', ''SITE_003''] = Inr results
     \<and> length results = 3
     \<and> results ! 0 =
         \<lparr>structured_result =
            \<lparr>sr_action = Some ''no_resupply'', sr_quantity = Some (PyInt 0),
             sr_confidence = Some (fl (3 / 10)),
             sr_reasons = [''Site SITE_001 not found in batch response'']\<rparr>,
          draft_message = ''Unable to generate LLM analysis for site SITE_001.''\<rparr>
     \<and> results ! 1 =
         \<lparr>structured_result =
            \<lparr>sr_action = Some ''resupply'', sr_quantity = Some (PyInt 40),
             sr_confidence = Some (fl (9 / 10)),
             sr_reasons = [''Demand exceeds stock'']\<rparr>,
          draft_message = ''Please ship 40 units.''\<rparr>
     \<and> results ! 2 =
         \<lparr>structured_result =
            \<lparr>sr_action = Some ''no_resupply'', sr_quantity = Some (PyInt 0),
             sr_confidence = Some (fl (5 / 10)),
             sr_reasons = [''Unable to parse structured result'']\<rparr>,
          draft_message = ''Unable to generate justification message.''\<rparr>"
proof -
  let ?a = "\<lparr>echoed_site_id = Some ''SITE_002'',
             echoed_structured_result =
               Some \<lparr>sr_action = Some ''resupply'', sr_quantity = Some (PyInt 40),
                     sr_confidence = Some (fl (9 / 10)),
                     sr_reasons = [''Demand exceeds stock'']\<rparr>,
             echoed_draft_message = Some ''Please ship 40 units.''\<rparr>"
  let ?b = "\<lparr>echoed_site_id = Some ''SITE_003'', echoed_structured_result = None,
             echoed_draft_message = None\<rparr>"
  let ?ids = "[''SITE_001'', ''SITE_002'', ''SITE_003'']"
  from parse_batch_response_matches_site_ids [of "[?a, ?b]" ?ids]
  obtain results where r: "parse_batch_response (Sites [?a, ?b]) ?ids = Inr results"
    and l: "length results = length ?ids"
    and a: "\<And>i. i < length ?ids \<Longrightarrow>
          (let sid = ?ids ! i;
               echoes = filter (\<lambda>e. echoed_site_id e = Some sid) [?a, ?b]
           in results ! i =
                (if sid \<noteq> [] \<and> echoes \<noteq> []
                 then \<lparr>structured_result =
                         (case echoed_structured_result (last echoes) of
                            None \<Rightarrow>
                              \<lparr>sr_action = Some ''no_resupply'', sr_quantity = Some (PyInt 0),
                               sr_confidence = Some (fl (5 / 10)),
                               sr_reasons = [''Unable to parse structured result'']\<rparr>
                          | Some sr \<Rightarrow> sr),
                       draft_message =
                         (case echoed_draft_message (last echoes) of
                            None \<Rightarrow> ''Unable to generate justification message.''
                          | Some m \<Rightarrow> m)\<rparr>
                 else \<lparr>structured_result =
                         \<lparr>sr_action = Some ''no_resupply'', sr_quantity = Some (PyInt 0),
                          sr_confidence = Some (fl (3 / 10)),
                          sr_reasons = [''Site '' @ sid @ '' not found in batch response'']\<rparr>,
                       draft_message =
                         ''Unable to generate LLM analysis for site '' @ sid @ ''.''\<rparr>))"
    by blast
  from a [of 0] have "results ! 0 =
         \<lparr>structured_result =
            \<lparr>sr_action = Some ''no_resupply'', sr_quantity = Some (PyInt 0),
             sr_confidence = Some (fl (3 / 10)),
             sr_reasons = [''Site SITE_001 not found in batch response'']\<rparr>,
          draft_message = ''Unable to generate LLM analysis for site SITE_001.''\<rparr>"
    by (simp add: Let_def)
  moreover from a [of 1] have "results ! 1 =
         \<lparr>structured_result =
            \<lparr>sr_action = Some ''resupply'', sr_quantity = Some (PyInt 40),
             sr_confidence = Some (fl (9 / 10)),
             sr_reasons = [''Demand exceeds stock'']\<rparr>,
          draft_message = ''Please ship 40 units.''\<rparr>"
    by (simp add: Let_def)
  moreover from a [of 2] have "results ! 2 =
         \<lparr>structured_result =
            \<lparr>sr_action = Some ''no_resupply'', sr_quantity = Some (PyInt 0),
             sr_confidence = Some (fl (5 / 10)),
             sr_reasons = [''Unable to parse structured result'']\<rparr>,
          draft_message = ''Unable to generate justification message.''\<rparr>"
    by (simp add: Let_def)
  ultimately show ?thesis
    using r l by simp
qed

subsection \<open>Key rotation\<close>

lemma dom_dict_set_all: "dom (dict_set_all keys v d) = set keys \<union> dom d"
  by (induction keys arbitrary: d) auto

lemma dict_set_all_other: "key \<notin> set keys \<Longrightarrow> dict_set_all keys v d key = d key"
  by (induction keys arbitrary: d) auto

lemma dict_set_all_apply: "key \<in> set keys \<Longrightarrow> dict_set_all keys v d key = Some v"
proof (induction keys arbitrary: d)
  case Nil
  then show ?case by simp
next
  case (Cons a keys)
  then show ?case
    by (cases "key \<in> set keys") (auto simp: dict_set_all_other)
qed

lemma available_keys_of_covered:
  "set keys \<subseteq> dom cd \<Longrightarrow>
   available_keys_of cd t keys = Inr (filter (\<lambda>key. \<exists>x. cd key = Some x \<and> x \<le> t) keys)"
  by (induction keys) auto

lemma get_gemini_api_keys_truthy: "[] \<notin> set (get_gemini_api_keys cfg)"
  by (simp add: get_gemini_api_keys_def)

lemma GeminiClient_init_ok: "GeminiClient_init cfg = Inr c \<Longrightarrow> client_ok c"
  by (auto simp: GeminiClient_init_def Let_def client_ok_def dict_set_all_apply
      get_gemini_api_keys_truthy split: if_splits)

lemma get_next_available_key_ok:
  assumes "client_ok c"
  shows "\<exists>k c'. get_next_available_key t c = Inr (Some k, c') \<and> k \<noteq> [] \<and> k \<in> set (api_keys c)
     \<and> client_ok c' \<and> api_keys c' = api_keys c
     \<and> (let available = filter (\<lambda>key. \<exists>x. key_cooldown c key = Some x \<and> x \<le> t) (api_keys c)
        in if available \<noteq> []
           then k = available ! (current_key_index c mod length available)
                \<and> current_key_index c' = (current_key_index c + 1) mod length available
                \<and> key_cooldown c' = key_cooldown c
           else k = api_keys c ! (current_key_index c mod length (api_keys c))
                \<and> current_key_index c' = (current_key_index c + 1) mod length (api_keys c)
                \<and> (\<forall>key \<in> set (api_keys c). key_cooldown c' key = Some 0))"
proof -
  let ?av = "filter (\<lambda>key. \<exists>x. key_cooldown c key = Some x \<and> x \<le> t) (api_keys c)"
  have av: "available_keys_of (key_cooldown c) t (api_keys c) = Inr ?av"
    using assms by (simp add: available_keys_of_covered client_ok_def)
  show ?thesis
  proof (cases "?av = []")
    case True
    have n: "current_key_index c mod length (api_keys c) < length (api_keys c)"
      using assms by (simp add: client_ok_def)
    then have m: "api_keys c ! (current_key_index c mod length (api_keys c)) \<in> set (api_keys c)"
      by (rule nth_mem)
    have ne: "api_keys c ! (current_key_index c mod length (api_keys c)) \<noteq> []"
      using m assms unfolding client_ok_def by metis
    from True assms m ne show ?thesis
      unfolding get_next_available_key_def av
      by (simp add: client_ok_def dom_dict_set_all dict_set_all_apply le_supI1)
  next
    case False
    then have "current_key_index c mod length ?av < length ?av" by simp
    then have "?av ! (current_key_index c mod length ?av) \<in> set ?av"
      by (rule nth_mem)
    then have m: "?av ! (current_key_index c mod length ?av) \<in> set (api_keys c)"
      by simp
    have ne: "?av ! (current_key_index c mod length ?av) \<noteq> []"
      using m assms unfolding client_ok_def by metis
    from False assms m ne show ?thesis
      unfolding get_next_available_key_def av
      by (simp add: client_ok_def Let_def)
  qed
qed

lemma mark_key_failure_ok:
  "client_ok c \<Longrightarrow> mark_key_failure t key sc c = Inr c' \<Longrightarrow> client_ok c'"
  by (auto simp: mark_key_failure_def client_ok_def Let_def split: option.splits)

lemma client_reachable_ok: "client_reachable cfg c \<Longrightarrow> client_ok c"
proof (induction rule: client_reachable.induct)
  case (constructed c)
  then show ?case by (rule GeminiClient_init_ok)
next
  case (selected c t k c')
  from get_next_available_key_ok [OF selected.IH, of t] selected.hyps(2)
  show ?case by auto
next
  case (marked c key t status_code c')
  then show ?case by (auto intro: mark_key_failure_ok)
qed

text \<open>
  C8: in every state a constructed client can reach, at every clock reading, key selection
  returns a key of the client, and never the empty one, so \<open>_call_gemini_api\<close> does not
  raise "No available API keys". While some key is out of cooldown the key is the one at
  the rotating index among those keys and no cooldown changes; when all are in cooldown
  every cooldown is reset to 0 and the key is taken from the whole list. The index then
  advances by one, modulo the number of keys chosen from.
\<close>

theorem key_selection_always_returns:
  assumes "client_reachable cfg c"
  shows "\<exists>k c'. get_next_available_key t c = Inr (Some k, c') \<and> k \<noteq> [] \<and> k \<in> set (api_keys c)
     \<and> client_reachable cfg c'
     \<and> (\<exists>k2 c2. select_api_key key_override t c = Inr (k2, c2))
     \<and> (let available = filter (\<lambda>key. \<exists>x. key_cooldown c key = Some x \<and> x \<le> t) (api_keys c)
        in if available \<noteq> []
           then k = available ! (current_key_index c mod length available)
                \<and> current_key_index c' = (current_key_index c + 1) mod length available
                \<and> key_cooldown c' = key_cooldown c
           else k = api_keys c ! (current_key_index c mod length (api_keys c))
                \<and> current_key_index c' = (current_key_index c + 1) mod length (api_keys c)
                \<and> (\<forall>key \<in> set (api_keys c). key_cooldown c' key = Some 0))"
proof -
  from get_next_available_key_ok [OF client_reachable_ok [OF assms], of t]
  obtain k c' where g: "get_next_available_key t c = Inr (Some k, c')" and k: "k \<noteq> []"
    "k \<in> set (api_keys c)"
    and rr: "(let available = filter (\<lambda>key. \<exists>x. key_cooldown c key = Some x \<and> x \<le> t) (api_keys c)
        in if available \<noteq> []
           then k = available ! (current_key_index c mod length available)
                \<and> current_key_index c' = (current_key_index c + 1) mod length available
                \<and> key_cooldown c' = key_cooldown c
           else k = api_keys c ! (current_key_index c mod length (api_keys c))
                \<and> current_key_index c' = (current_key_index c + 1) mod length (api_keys c)
                \<and> (\<forall>key \<in> set (api_keys c). key_cooldown c' key = Some 0))"
    by blast
  have r: "client_reachable cfg c'"
    using assms g by (rule client_reachable.selected)
  have s: "\<exists>k2 c2. select_api_key key_override t c = Inr (k2, c2)"
    using g k by (simp add: select_api_key_def)
  from g k r s rr show ?thesis by blast
qed

theorem key_selection_always_returns_witness:
  "\<exists>c0 c1 c2 k c'. GeminiClient_init (default_config\<lparr>GEMINI_API_KEY_2 := ''key-2''\<rparr>) = Inr c0
     \<and> mark_key_failure 100 ''key-0'' (Some 429) c0 = Inr c1
     \<and> mark_key_failure 100 ''key-2'' (Some 503) c1 = Inr c2
     \<and> get_next_available_key 105 c2 = Inr (Some k, c')
     \<and> k = ''key-0'' \<and> current_key_index c' = 1
     \<and> key_cooldown c' ''key-0'' = Some 0 \<and> key_cooldown c' ''key-2'' = Some 0"
proof -
  let ?cfg = "default_config\<lparr>GEMINI_API_KEY_2 := ''key-2''\<rparr>"
  obtain c0 where c0: "GeminiClient_init ?cfg = Inr c0"
    by (simp add: GeminiClient_init_def get_gemini_api_keys_def default_config_def)
  then have k0: "api_keys c0 = [''key-0'', ''key-2'']"
    by (auto simp: GeminiClient_init_def get_gemini_api_keys_def default_config_def)
  have r0: "client_reachable ?cfg c0"
    using c0 by (rule client_reachable.constructed)
  obtain c1 where c1: "mark_key_failure 100 ''key-0'' (Some 429) c0 = Inr c1"
    using c0 by (auto simp: mark_key_failure_def GeminiClient_init_def get_gemini_api_keys_def default_config_def)
  have r1: "client_reachable ?cfg c1"
    using r0 _ c1 by (rule client_reachable.marked) (simp add: k0)
  have k1: "api_keys c1 = [''key-0'', ''key-2'']"
    using c1 k0 by (auto simp: mark_key_failure_def Let_def split: option.splits)
  obtain c2 where c2: "mark_key_failure 100 ''key-2'' (Some 503) c1 = Inr c2"
    using c0 c1 by (auto simp: mark_key_failure_def GeminiClient_init_def get_gemini_api_keys_def default_config_def)
  have r2: "client_reachable ?cfg c2"
    using r1 _ c2 by (rule client_reachable.marked) (simp add: k1)
  have k2: "api_keys c2 = [''key-0'', ''key-2'']"
    using c2 k1 by (auto simp: mark_key_failure_def Let_def split: option.splits)
  have i2: "current_key_index c2 = 0"
    using c0 c1 c2 by (auto simp: mark_key_failure_def GeminiClient_init_def get_gemini_api_keys_def default_config_def)
  have f160: "fl 160 = 160" by code_simp
  have f130: "fl 130 = 130" by code_simp
  have cd0: "key_cooldown c2 ''key-0'' = Some 160"
    using c0 c1 c2 by (auto simp: f160 mark_key_failure_def GeminiClient_init_def get_gemini_api_keys_def default_config_def)
  have cd2: "key_cooldown c2 ''key-2'' = Some 130"
    using c0 c1 c2 by (auto simp: f130 mark_key_failure_def GeminiClient_init_def get_gemini_api_keys_def default_config_def)
  from key_selection_always_returns [OF r2, of 105 None]
  obtain k c' where g: "get_next_available_key 105 c2 = Inr (Some k, c')"
    and rr: "(let available = filter (\<lambda>key. \<exists>x. key_cooldown c2 key = Some x \<and> x \<le> 105) (api_keys c2)
        in if available \<noteq> []
           then k = available ! (current_key_index c2 mod length available)
                \<and> current_key_index c' = (current_key_index c2 + 1) mod length available
                \<and> key_cooldown c' = key_cooldown c2
           else k = api_keys c2 ! (current_key_index c2 mod length (api_keys c2))
                \<and> current_key_index c' = (current_key_index c2 + 1) mod length (api_keys c2)
                \<and> (\<forall>key \<in> set (api_keys c2). key_cooldown c' key = Some 0))"
    by blast
  from rr have "k = ''key-0'' \<and> current_key_index c' = 1
     \<and> key_cooldown c' ''key-0'' = Some 0 \<and> key_cooldown c' ''key-2'' = Some 0"
    by (simp add: k2 i2 cd0 cd2)
  with c0 c1 c2 g show ?thesis by blast
qed

subsection \<open>Dispatch\<close>

lemma lane_ok_rules: "lane_ok rem row (process_site_with_rules row (site_id row))"
  by (simp add: lane_ok_def)

lemma llm_decision_fields:
  assumes "llm_decision sid g = Inr d"
  shows "llm_used d" and "result_site_id d = sid" and "result_current_inventory d = None"
    and "sr_action (structured_result g) = Some (action d)"
    and "sr_quantity (structured_result g) = Some (quantity d)"
    and "sr_confidence (structured_result g) = Some (confidence d)"
    and "reason d = draft_message g"
  using assms by (auto simp: llm_decision_def split: option.splits)

lemma lane_ok_cases:
  assumes "lane_ok rem row d"
  shows "d = process_site_with_rules row (site_id row)
     \<or> (llm_used d \<and> result_site_id d = site_id row \<and> result_current_inventory d = None)"
proof (cases "d = process_site_with_rules row (site_id row)")
  case True
  then show ?thesis by simp
next
  case False
  with assms obtain g where "llm_decision (site_id row) g = Inr d"
    unfolding lane_ok_def by blast
  from llm_decision_fields(1-3) [OF this] show ?thesis by simp
qed

lemma lane_ok_site_id: "lane_ok rem row d \<Longrightarrow> result_site_id d = site_id row"
  using lane_ok_cases [of rem row d] by (auto simp: process_site_with_rules_def Let_def)

lemma llm_decision_lane_ok:
  "client_returned rem row g \<Longrightarrow> llm_decision (site_id row) g = Inr d \<Longrightarrow> lane_ok rem row d"
  unfolding lane_ok_def by blast

lemma list_all2_lane_ok_rules:
  "list_all2 (lane_ok rem) rows (map (\<lambda>row. process_site_with_rules row (site_id row)) rows)"
  by (induction rows) (simp_all add: lane_ok_rules)

lemma list_all2_lane_ok_ids:
  "list_all2 (lane_ok rem) rows ds \<Longrightarrow> map result_site_id ds = map site_id rows"
  by (induction rows ds rule: list_all2_induct) (simp_all add: lane_ok_site_id)

lemma settings_of_fields:
  assumes "settings_of a = settings_of b"
  shows "gemini_client a = gemini_client b" "llm_available a = llm_available b"
    "use_batch_api a = use_batch_api b" "use_parallel a = use_parallel b"
    "use_selective_llm a = use_selective_llm b" "batch_api_size a = batch_api_size b"
    "max_concurrent a = max_concurrent b" "rate_limiter a = rate_limiter b"
    "max_llm_failures a = max_llm_failures b"
  using assms by (cases a; cases b; simp add: settings_of_def)+

subsection \<open>Completion orders and batches\<close>

lemma mset_as_completed: "mset (as_completed choices pending) = mset pending"
proof (induction choices pending rule: as_completed.induct)
  case (1 choices)
  then show ?case by simp
next
  case (2 v va)
  then show ?case by simp
next
  case (3 c choices v va)
  let ?p = "v # va"
  let ?i = "c mod length ?p"
  have i: "?i < length ?p" by simp
  have "mset (as_completed (c # choices) ?p)
      = add_mset (?p ! ?i) (mset (take ?i ?p @ drop (Suc ?i) ?p))"
    using "3.IH" [of ?i] by (simp add: Let_def del: nth_Cons_Suc take_Cons' drop_Suc_Cons)
  also have "\<dots> = mset (take ?i ?p @ ?p ! ?i # drop (Suc ?i) ?p)"
    by simp
  also have "\<dots> = mset ?p"
    using id_take_nth_drop [OF i] by simp
  finally show ?case .
qed

lemma as_completed_map: "as_completed choices (map f pending) = map f (as_completed choices pending)"
proof (induction choices pending rule: as_completed.induct)
  case (3 c choices v va)
  let ?p = "v # va"
  let ?i = "c mod length ?p"
  have i: "?i < length ?p" by simp
  have "as_completed (c # choices) (map f ?p)
     = map f ?p ! ?i # as_completed choices (take ?i (map f ?p) @ drop (Suc ?i) (map f ?p))"
    by (simp add: Let_def del: nth_Cons_Suc take_Cons' drop_Suc_Cons)
  also have "\<dots> = f (?p ! ?i) # as_completed choices (map f (take ?i ?p @ drop (Suc ?i) ?p))"
    using i by (simp only: nth_map take_map drop_map map_append)
  also have "\<dots> = map f (as_completed (c # choices) ?p)"
    using "3.IH" [of ?i] by (simp add: Let_def del: nth_Cons_Suc take_Cons' drop_Suc_Cons)
  finally show ?case .
qed simp_all

lemma concat_batches_of: "0 < n \<Longrightarrow> concat (batches_of n xs) = xs"
proof (induction n xs rule: batches_of.induct)
  case (1 n xs)
  then show ?case
    by (subst batches_of.simps) auto
qed

lemma batches_of_nonempty: "b \<in> set (batches_of n xs) \<Longrightarrow> b \<noteq> []"
proof (induction n xs rule: batches_of.induct)
  case (1 n xs)
  from "1.prems"
  have "b \<in> set (if n = 0 \<or> xs = [] then [] else take n xs # batches_of n (drop n xs))"
    by (subst (asm) batches_of.simps)
  with "1.IH" show ?case
    by (auto split: if_splits)
qed

lemma map_batch_results_lane_ok:
  "map_batch_results rows batch_results = Inr ds
     \<Longrightarrow> \<forall>(row, g) \<in> set (zip rows batch_results). client_returned rem row g
     \<Longrightarrow> list_all2 (lane_ok rem) rows ds"
proof (induction rows batch_results arbitrary: ds rule: map_batch_results.induct)
  case (1 batch_results)
  then show ?case by simp
next
  case (2 row rows)
  then show ?case by (auto simp: lane_ok_rules split: sum.splits)
next
  case (3 row rows gemini_res batch_results)
  then show ?case by (auto simp: llm_decision_lane_ok split: sum.splits)
qed

lemma process_sites_batch_llm_lane_ok:
  assumes "gemini_client self \<noteq> None" and "sites_batch \<noteq> []"
  shows "list_all2 (lane_ok rem) sites_batch (fst (process_sites_batch_llm rem self sites_batch))"
proof (cases "get_batch_recommendations rem sites_batch")
  case (Inl e)
  with assms show ?thesis
    by (simp add: process_sites_batch_llm_def list_all2_lane_ok_rules)
next
  case (Inr batch_results)
  have c: "\<forall>(row, g) \<in> set (zip sites_batch batch_results). client_returned rem row g"
  proof (intro ballI, clarify)
    fix row g assume "(row, g) \<in> set (zip sites_batch batch_results)"
    then obtain i where "i < length sites_batch" "i < length batch_results"
        "sites_batch ! i = row" "batch_results ! i = g"
      by (auto simp: in_set_zip)
    with Inr show "client_returned rem row g"
      unfolding client_returned_def by blast
  qed
  show ?thesis
  proof (cases "map_batch_results sites_batch batch_results")
    case (Inl e)
    with assms Inr show ?thesis
      by (simp add: process_sites_batch_llm_def list_all2_lane_ok_rules)
  next
    case r: (Inr processed)
    from map_batch_results_lane_ok [OF r c] assms Inr r show ?thesis
      by (simp add: process_sites_batch_llm_def)
  qed
qed

lemma process_sites_batch_llm_state:
  "settings_of (snd (process_sites_batch_llm rem self sites_batch)) = settings_of self"
  unfolding process_sites_batch_llm_def settings_of_def
  by (simp split: sum.splits)

lemma process_batches_lane_ok:
  assumes "gemini_client self \<noteq> None" and "\<forall>b \<in> set batches. b \<noteq> []"
  shows "list_all2 (lane_ok rem) (concat batches) (fst (process_batches rem self batches))"
  using assms
proof (induction batches arbitrary: self)
  case Nil
  then show ?case by simp
next
  case (Cons b batches)
  obtain rs self1 where p: "process_sites_batch_llm rem self b = (rs, self1)"
    by (cases "process_sites_batch_llm rem self b")
  obtain rs2 self2 where q: "process_batches rem self1 batches = (rs2, self2)"
    by (cases "process_batches rem self1 batches")
  have "settings_of self1 = settings_of self"
    using process_sites_batch_llm_state [of rem self b] p by simp
  from settings_of_fields(1) [OF this] have c: "gemini_client self1 \<noteq> None"
    using Cons.prems by simp
  have h: "list_all2 (lane_ok rem) b rs"
    using process_sites_batch_llm_lane_ok [of self b rem] Cons.prems p by simp
  have t: "list_all2 (lane_ok rem) (concat batches) rs2"
    using Cons.IH [OF c] Cons.prems q by simp
  show ?case
    using h t p q by (simp add: list_all2_appendI)
qed

lemma process_batches_state:
  "settings_of (snd (process_batches rem self batches)) = settings_of self"
proof (induction batches arbitrary: self)
  case Nil
  then show ?case by simp
next
  case (Cons b batches)
  obtain rs self1 where p: "process_sites_batch_llm rem self b = (rs, self1)"
    by (cases "process_sites_batch_llm rem self b")
  obtain rs2 self2 where q: "process_batches rem self1 batches = (rs2, self2)"
    by (cases "process_batches rem self1 batches")
  have "settings_of self1 = settings_of self"
    using process_sites_batch_llm_state [of rem self b] p by simp
  moreover have "settings_of self2 = settings_of self1"
    using Cons.IH [of self1] q by simp
  ultimately show ?case
    using p q by simp
qed

lemma process_site_individual_llm_lane_ok:
  "lane_ok rem row (fst (process_site_individual_llm rem self row (site_id row)))"
proof (cases "get_recommendation_justification rem row")
  case (Inl e)
  then show ?thesis
    by (simp add: process_site_individual_llm_def lane_ok_rules)
next
  case (Inr g)
  then have c: "client_returned rem row g"
    by (simp add: client_returned_def)
  show ?thesis
  proof (cases "llm_decision (site_id row) g")
    case (Inl e)
    with Inr show ?thesis
      by (simp add: process_site_individual_llm_def lane_ok_rules)
  next
    case d: (Inr d)
    from llm_decision_lane_ok [OF c d] Inr d show ?thesis
      by (simp add: process_site_individual_llm_def lane_ok_rules)
  qed
qed

lemma process_site_individual_llm_state:
  "settings_of (snd (process_site_individual_llm rem self row sid)) = settings_of self"
  unfolding process_site_individual_llm_def settings_of_def
  by (simp split: sum.splits)

lemma process_individually_lane_ok:
  "list_all2 (lane_ok rem) rows (fst (process_individually rem self rows))"
proof (induction rows arbitrary: self)
  case Nil
  then show ?case by simp
next
  case (Cons row rows)
  obtain r self1 where p: "process_site_individual_llm rem self row (site_id row) = (r, self1)"
    by (cases "process_site_individual_llm rem self row (site_id row)")
  obtain rs2 self2 where q: "process_individually rem self1 rows = (rs2, self2)"
    by (cases "process_individually rem self1 rows")
  have "lane_ok rem row r"
    using process_site_individual_llm_lane_ok [of rem row self] p by simp
  moreover have "list_all2 (lane_ok rem) rows rs2"
    using Cons.IH [of self1] q by simp
  ultimately show ?case
    using p q by simp
qed

lemma process_individually_state:
  "settings_of (snd (process_individually rem self rows)) = settings_of self"
proof (induction rows arbitrary: self)
  case Nil
  then show ?case by simp
next
  case (Cons row rows)
  obtain r self1 where p: "process_site_individual_llm rem self row (site_id row) = (r, self1)"
    by (cases "process_site_individual_llm rem self row (site_id row)")
  obtain rs2 self2 where q: "process_individually rem self1 rows = (rs2, self2)"
    by (cases "process_individually rem self1 rows")
  have "settings_of self1 = settings_of self"
    using process_site_individual_llm_state [of rem self row "site_id row"] p by simp
  moreover have "settings_of self2 = settings_of self1"
    using Cons.IH [of self1] q by simp
  ultimately show ?case
    using p q by simp
qed

text \<open>What dispatch of the reasoning lane returns: one decision per site, for the sites in
  some order.\<close>

lemma process_llm_sites_lane_ok:
  assumes "process_llm_sites rem sched self llm_sites = Inr (rs, self1)"
    and "use_batch_api self \<longrightarrow> gemini_client self \<noteq> None"
  shows "\<exists>order. mset order = mset llm_sites \<and> list_all2 (lane_ok rem) order rs
           \<and> settings_of self1 = settings_of self"
proof -
  consider (empty) "llm_sites = []"
    | (batch) "llm_sites \<noteq> []" "use_batch_api self \<and> batch_api_size self > 1"
    | (par) "llm_sites \<noteq> []" "\<not> (use_batch_api self \<and> batch_api_size self > 1)"
        "use_parallel self \<and> rate_limiter self \<noteq> None"
    | (seq) "llm_sites \<noteq> []" "\<not> (use_batch_api self \<and> batch_api_size self > 1)"
        "\<not> (use_parallel self \<and> rate_limiter self \<noteq> None)"
    by blast
  then show ?thesis
  proof cases
    case empty
    with assms(1) have "rs = []" "self1 = self"
      by (simp_all add: process_llm_sites_def)
    with empty show ?thesis by (intro exI [of _ "[]"]) auto
  next
    case batch
    let ?bs = "batches_of (nat (batch_api_size self)) llm_sites"
    have r: "process_batches rem self ?bs = (rs, self1)"
      using assms(1) batch by (simp add: process_llm_sites_def)
    have c: "concat ?bs = llm_sites"
      using batch by (simp add: concat_batches_of)
    have "list_all2 (lane_ok rem) (concat ?bs) (fst (process_batches rem self ?bs))"
      using assms(2) batch by (intro process_batches_lane_ok) (auto simp: batches_of_nonempty)
    then have "list_all2 (lane_ok rem) llm_sites rs"
      using r c by simp
    moreover have "settings_of self1 = settings_of self"
      using process_batches_state [of rem self ?bs] r by simp
    ultimately show ?thesis by (intro exI [of _ llm_sites]) auto
  next
    case par
    let ?order = "as_completed (llm_completion sched) llm_sites"
    have r: "process_individually rem self ?order = (rs, self1)"
      using assms(1) par by (auto simp: process_llm_sites_def split: if_splits)
    have "list_all2 (lane_ok rem) ?order rs"
      using process_individually_lane_ok [of rem ?order self] r by simp
    moreover have "settings_of self1 = settings_of self"
      using process_individually_state [of rem self ?order] r by simp
    ultimately show ?thesis
      by (intro exI [of _ ?order]) (auto simp: mset_as_completed)
  next
    case seq
    have r: "process_individually rem self llm_sites = (rs, self1)"
      using assms(1) seq by (auto simp: process_llm_sites_def split: if_splits)
    have "list_all2 (lane_ok rem) llm_sites rs"
      using process_individually_lane_ok [of rem llm_sites self] r by simp
    moreover have "settings_of self1 = settings_of self"
      using process_individually_state [of rem self llm_sites] r by simp
    ultimately show ?thesis by (intro exI [of _ llm_sites]) auto
  qed
qed

lemma process_rules_sites_results:
  assumes "process_rules_sites sched self rules_sites = Inr rs"
  shows "\<exists>order. mset order = mset rules_sites
           \<and> rs = map (\<lambda>row. process_site_with_rules row (site_id row)) order"
proof (cases "rules_sites \<noteq> [] \<and> use_parallel self \<and> rate_limiter self \<noteq> None")
  case True
  then have "rs = map (\<lambda>row. process_site_with_rules row (site_id row))
                 (as_completed (rules_completion sched) rules_sites)"
    using assms by (auto simp: process_rules_sites_def as_completed_map split: if_splits)
  then show ?thesis
    by (intro exI [of _ "as_completed (rules_completion sched) rules_sites"])
      (simp add: mset_as_completed)
next
  case False
  then have "rs = map (\<lambda>row. process_site_with_rules row (site_id row)) rules_sites"
    using assms by (auto simp: process_rules_sites_def split: if_splits)
  then show ?thesis by (intro exI [of _ rules_sites]) simp
qed

subsection \<open>The run\<close>

lemma enrich_fields [simp]:
  "result_site_id (enrich sl d) = result_site_id d" "action (enrich sl d) = action d"
  "quantity (enrich sl d) = quantity d" "llm_used (enrich sl d) = llm_used d"
  "reason (enrich sl d) = reason d" "confidence (enrich sl d) = confidence d"
  by (simp_all add: enrich_def split: option.splits)

lemma lane_ok_enrich: "lane_ok rem row d \<Longrightarrow> site_decision sl row (enrich sl d)"
  using lane_ok_cases [of rem row d] by (auto simp: site_decision_def)

lemma site_decision_site_id: "site_decision sl row d \<Longrightarrow> result_site_id d = site_id row"
  by (auto simp: site_decision_def process_site_with_rules_def Let_def)

lemma Orchestrator_init_fields:
  assumes "Orchestrator_init cfg = Inr self"
  shows "use_batch_api self \<longrightarrow> gemini_client self \<noteq> None"
    and "llm_available self \<longleftrightarrow> gemini_client self \<noteq> None"
    and "llm_available self \<longleftrightarrow> get_gemini_api_keys cfg \<noteq> []"
    and "llm_failure_count self = 0" and "max_llm_failures self = 3"
    and "use_parallel self = USE_PARALLEL cfg"
    and "max_concurrent self = MAX_CONCURRENT_REQUESTS cfg"
    and "rate_limiter self \<noteq> None \<longleftrightarrow> USE_PARALLEL cfg"
    and "use_selective_llm self = USE_SELECTIVE_LLM cfg"
    and "batch_api_size self = BATCH_API_SIZE cfg"
    and "use_batch_api self \<longleftrightarrow> USE_BATCH_API cfg \<and> get_gemini_api_keys cfg \<noteq> []"
  using assms
  by (auto simp: Orchestrator_init_def GeminiClient_init_def Let_def split: if_splits sum.splits)

lemma mset_sort_sites: "mset (sort_sites site_features) = mset site_features"
  by (simp add: sort_sites_def)

lemma process_llm_sites_total:
  assumes "\<not> use_parallel self \<or> 0 < max_concurrent self"
  shows "\<exists>rs self1. process_llm_sites rem sched self llm_sites = Inr (rs, self1)"
proof -
  obtain a b where "process_batches rem self (batches_of (nat (batch_api_size self)) llm_sites) = (a, b)"
    by (cases "process_batches rem self (batches_of (nat (batch_api_size self)) llm_sites)")
  moreover obtain c d where "process_individually rem self (as_completed (llm_completion sched) llm_sites) = (c, d)"
    by (cases "process_individually rem self (as_completed (llm_completion sched) llm_sites)")
  moreover obtain e f where "process_individually rem self llm_sites = (e, f)"
    by (cases "process_individually rem self llm_sites")
  ultimately show ?thesis
    using assms by (auto simp: process_llm_sites_def)
qed

lemma process_rules_sites_total:
  assumes "\<not> use_parallel self \<or> 0 < max_concurrent self"
  shows "\<exists>rs. process_rules_sites sched self rules_sites = Inr rs"
  using assms by (cases rules_sites) (auto simp: process_rules_sites_def)

lemma run_total:
  assumes "Orchestrator_init cfg = Inr self"
    and "\<not> USE_PARALLEL cfg \<or> 0 < MAX_CONCURRENT_REQUESTS cfg"
  shows "\<exists>out self'. run cfg rem sched self site_features = Inr (out, self')"
proof -
  let ?sl = "sort_sites site_features"
  let ?llm = "filter (\<lambda>row. should_use_llm cfg self row) ?sl"
  let ?rules = "filter (\<lambda>row. \<not> should_use_llm cfg self row) ?sl"
  have pool: "\<not> use_parallel self \<or> 0 < max_concurrent self"
    using assms Orchestrator_init_fields(6,7) [OF assms(1)] by simp
  obtain rs self1 where l: "process_llm_sites rem sched self ?llm = Inr (rs, self1)"
    using process_llm_sites_total [OF pool] by blast
  from process_llm_sites_lane_ok [OF l Orchestrator_init_fields(1) [OF assms(1)]]
  have s: "settings_of self1 = settings_of self" by blast
  have pool1: "\<not> use_parallel self1 \<or> 0 < max_concurrent self1"
    using pool settings_of_fields(4,7) [OF s] by simp
  obtain rs2 where r: "process_rules_sites sched self1 ?rules = Inr rs2"
    using process_rules_sites_total [OF pool1] by blast
  show ?thesis
    using l r by (simp add: run_def Let_def)
qed

lemma run_results:
  assumes "Orchestrator_init cfg = Inr self"
    and "run cfg rem sched self site_features = Inr (out, self')"
  shows "\<exists>order. mset order = mset site_features
           \<and> list_all2 (site_decision (sort_sites site_features)) order (results out)"
proof -
  let ?sl = "sort_sites site_features"
  let ?llm = "filter (\<lambda>row. should_use_llm cfg self row) ?sl"
  let ?rules = "filter (\<lambda>row. \<not> should_use_llm cfg self row) ?sl"
  from assms(2) obtain rs self1 rs2
    where l: "process_llm_sites rem sched self ?llm = Inr (rs, self1)"
      and r: "process_rules_sites sched self1 ?rules = Inr rs2"
      and o: "results out = map (enrich ?sl) (rs @ rs2)"
    by (auto simp: run_def Let_def split: sum.splits prod.splits)
  from process_llm_sites_lane_ok [OF l Orchestrator_init_fields(1) [OF assms(1)]]
  obtain order1 where o1: "mset order1 = mset ?llm" "list_all2 (lane_ok rem) order1 rs"
    by blast
  from process_rules_sites_results [OF r]
  obtain order2 where o2: "mset order2 = mset ?rules"
      "rs2 = map (\<lambda>row. process_site_with_rules row (site_id row)) order2"
    by blast
  have "list_all2 (lane_ok rem) order2 rs2"
    using o2(2) by (simp add: list_all2_lane_ok_rules)
  with o1(2) have "list_all2 (lane_ok rem) (order1 @ order2) (rs @ rs2)"
    by (rule list_all2_appendI)
  then have "list_all2 (\<lambda>row d. site_decision ?sl row (enrich ?sl d)) (order1 @ order2) (rs @ rs2)"
    by (rule list_all2_mono) (rule lane_ok_enrich)
  then have "list_all2 (site_decision ?sl) (order1 @ order2) (map (enrich ?sl) (rs @ rs2))"
    by (simp only: list_all2_map2)
  then have a: "list_all2 (site_decision ?sl) (order1 @ order2) (results out)"
    by (simp only: o)
  have "mset (order1 @ order2) = mset ?llm + mset ?rules"
    using o1(1) o2(1) by simp
  also have "\<dots> = mset ?sl"
    by (simp only: mset_filter multiset_partition [symmetric])
  finally have "mset (order1 @ order2) = mset site_features"
    by (simp add: mset_sort_sites)
  with a show ?thesis by blast
qed

lemma list_all2_obtain_left:
  assumes "list_all2 P xs ys" and "y \<in> set ys"
  shows "\<exists>x \<in> set xs. P x y"
  using assms by (induction xs ys rule: list_all2_induct) auto

lemma lane_ok_not_enriched: "lane_ok rem row d \<Longrightarrow> result_current_inventory d = None"
  using lane_ok_cases [of rem row d] by (auto simp: process_site_with_rules_def Let_def)

text \<open>
  The results of a run before the enrichment loop: one decision per site, each made by
  dispatch for its site.
\<close>

lemma run_results_pre:
  assumes "Orchestrator_init cfg = Inr self"
    and "run cfg rem sched self site_features = Inr (out, self')"
  shows "\<exists>order pre. mset order = mset site_features \<and> list_all2 (lane_ok rem) order pre
           \<and> results out = map (enrich (sort_sites site_features)) pre
           \<and> depot_optimization out = depot_step (results out)"
proof -
  let ?sl = "sort_sites site_features"
  let ?llm = "filter (\<lambda>row. should_use_llm cfg self row) ?sl"
  let ?rules = "filter (\<lambda>row. \<not> should_use_llm cfg self row) ?sl"
  from assms(2) obtain rs self1 rs2
    where l: "process_llm_sites rem sched self ?llm = Inr (rs, self1)"
      and r: "process_rules_sites sched self1 ?rules = Inr rs2"
      and o: "results out = map (enrich ?sl) (rs @ rs2)"
      and d: "depot_optimization out = depot_step (results out)"
    by (auto simp: run_def Let_def split: sum.splits prod.splits)
  from process_llm_sites_lane_ok [OF l Orchestrator_init_fields(1) [OF assms(1)]]
  obtain order1 where o1: "mset order1 = mset ?llm" "list_all2 (lane_ok rem) order1 rs"
    by blast
  from process_rules_sites_results [OF r]
  obtain order2 where o2: "mset order2 = mset ?rules"
      "rs2 = map (\<lambda>row. process_site_with_rules row (site_id row)) order2"
    by blast
  have "list_all2 (lane_ok rem) order2 rs2"
    using o2(2) by (simp add: list_all2_lane_ok_rules)
  with o1(2) have a: "list_all2 (lane_ok rem) (order1 @ order2) (rs @ rs2)"
    by (rule list_all2_appendI)
  have "mset (order1 @ order2) = mset ?llm + mset ?rules"
    using o1(1) o2(1) by simp
  also have "\<dots> = mset ?sl"
    by (simp only: mset_filter multiset_partition [symmetric])
  finally have "mset (order1 @ order2) = mset site_features"
    by (simp add: mset_sort_sites)
  with a o d show ?thesis by blast
qed

text \<open>Every result of a run is the enriched decision that dispatch made for an input site.\<close>

lemma run_result_origin:
  assumes "Orchestrator_init cfg = Inr self"
    and "run cfg rem sched self site_features = Inr (out, self')"
    and "d \<in> set (results out)"
  shows "\<exists>row \<in> set site_features. \<exists>d0. lane_ok rem row d0
           \<and> d = enrich (sort_sites site_features) d0"
proof -
  from run_results_pre [OF assms(1,2)] obtain order pre
    where m: "mset order = mset site_features" and a: "list_all2 (lane_ok rem) order pre"
      and o: "results out = map (enrich (sort_sites site_features)) pre"
    by blast
  from assms(3) o obtain d0 where d0: "d0 \<in> set pre" "d = enrich (sort_sites site_features) d0"
    by auto
  from list_all2_obtain_left [OF a d0(1)] obtain row where "row \<in> set order" "lane_ok rem row d0"
    by blast
  moreover have "set order = set site_features"
    using m by (rule mset_eq_setD)
  ultimately show ?thesis
    using d0(2) by blast
qed

lemma list_all2_site_decision_ids:
  "list_all2 (site_decision sl) rows ds \<Longrightarrow> map result_site_id ds = map site_id rows"
  by (induction rows ds rule: list_all2_induct) (simp_all add: site_decision_site_id)

lemma recommend_resupply_valid:
  "(rr_action (recommend_resupply row) = ''no_resupply'' \<longrightarrow> rr_quantity (recommend_resupply row) = 0)
   \<and> (rr_action (recommend_resupply row) = ''resupply''
        \<longrightarrow> MIN_ORDER_QUANTITY \<le> rr_quantity (recommend_resupply row))"
  by (simp add: recommend_resupply_def Let_def)

text \<open>
  C1: a run of an orchestrator as constructed, in any mode (batched, parallel individual,
  sequential, rules only, as the configuration selects), whatever the remote answers and
  in whatever order the tasks finish, returns one decision per input row: as many
  decisions as rows, the same site ids with the same multiplicities (each exactly once
  when the input site ids are distinct), and every decision is either marked as produced
  by the reasoning client or is the rule engine's decision for a row. The run returns
  whenever the pool size is positive or parallel processing is off.
\<close>

theorem run_one_decision_per_site:
  assumes "Orchestrator_init cfg = Inr self"
  shows "(\<not> USE_PARALLEL cfg \<or> 0 < MAX_CONCURRENT_REQUESTS cfg
            \<longrightarrow> (\<exists>out self'. run cfg rem sched self site_features = Inr (out, self')))
     \<and> (\<forall>out self'. run cfg rem sched self site_features = Inr (out, self') \<longrightarrow>
           length (results out) = length site_features
         \<and> mset (map result_site_id (results out)) = mset (map site_id site_features)
         \<and> (distinct (map site_id site_features) \<longrightarrow> distinct (map result_site_id (results out)))
         \<and> (\<forall>d \<in> set (results out).
               llm_used d
               \<or> (\<exists>row \<in> set site_features.
                     d = enrich (sort_sites site_features)
                           (process_site_with_rules row (site_id row)))))"
proof (intro conjI allI impI)
  assume "\<not> USE_PARALLEL cfg \<or> 0 < MAX_CONCURRENT_REQUESTS cfg"
  with assms show "\<exists>out self'. run cfg rem sched self site_features = Inr (out, self')"
    by (rule run_total)
next
  fix out self'
  assume r: "run cfg rem sched self site_features = Inr (out, self')"
  from run_results [OF assms r] obtain order
    where m: "mset order = mset site_features"
      and a: "list_all2 (site_decision (sort_sites site_features)) order (results out)"
    by blast
  have ids: "map result_site_id (results out) = map site_id order"
    using a by (rule list_all2_site_decision_ids)
  have len: "length order = length site_features"
    using m by (rule mset_eq_length)
  show "length (results out) = length site_features"
    using list_all2_lengthD [OF a] len by simp
  have mm: "mset (map site_id order) = mset (map site_id site_features)"
    using m by (metis mset_map)
  show "mset (map result_site_id (results out)) = mset (map site_id site_features)"
    using ids mm by simp
  show "distinct (map result_site_id (results out))" if "distinct (map site_id site_features)"
  proof -
    from that have "distinct (map site_id order)"
      using mm by (metis mset_eq_imp_distinct_iff)
    then show ?thesis
      using ids by simp
  qed
  show "\<forall>d \<in> set (results out). llm_used d \<or> (\<exists>row \<in> set site_features.
        d = enrich (sort_sites site_features) (process_site_with_rules row (site_id row)))"
  proof
    fix d assume "d \<in> set (results out)"
    then obtain row where "row \<in> set order" "site_decision (sort_sites site_features) row d"
      using a by (metis in_set_conv_nth list_all2_conv_all_nth)
    moreover have "set order = set site_features"
      using m by (rule mset_eq_setD)
    ultimately show "llm_used d \<or> (\<exists>row \<in> set site_features.
        d = enrich (sort_sites site_features) (process_site_with_rules row (site_id row)))"
      by (auto simp: site_decision_def)
  qed
qed

theorem run_one_decision_per_site_witness:
  "\<exists>self out self'. Orchestrator_init default_config = Inr self
     \<and> run default_config (example_remote 70) no_schedule self
           [example_site ''SITE_001'', example_site ''SITE_002''] = Inr (out, self')
     \<and> length (results out) = 2
     \<and> mset (map result_site_id (results out)) = mset [''SITE_001'', ''SITE_002'']
     \<and> distinct (map result_site_id (results out))"
proof -
  let ?sites = "[example_site ''SITE_001'', example_site ''SITE_002'']"
  obtain self where i: "Orchestrator_init default_config = Inr self"
    by (simp add: Orchestrator_init_def GeminiClient_init_def get_gemini_api_keys_def
        default_config_def)
  note t = run_one_decision_per_site [OF i, of "example_remote 70" no_schedule ?sites]
  have "\<not> USE_PARALLEL default_config \<or> 0 < MAX_CONCURRENT_REQUESTS default_config"
    by (simp add: default_config_def)
  with t obtain out self'
    where r: "run default_config (example_remote 70) no_schedule self ?sites = Inr (out, self')"
    by blast
  have d: "distinct (map site_id ?sites)"
    by (simp add: example_site_def)
  from t r d have "length (results out) = length ?sites
     \<and> mset (map result_site_id (results out)) = mset (map site_id ?sites)
     \<and> distinct (map result_site_id (results out))"
    by blast
  then have "length (results out) = 2
     \<and> mset (map result_site_id (results out)) = mset [''SITE_001'', ''SITE_002'']
     \<and> distinct (map result_site_id (results out))"
    by (simp add: example_site_def)
  with i r show ?thesis by blast
qed

subsection \<open>Evaluated runs\<close>

lemma run_llm_lane_example:
  "(case Orchestrator_init default_config of
      Inl e \<Rightarrow> False
    | Inr self \<Rightarrow>
        (case run default_config (example_remote 3) no_schedule self [example_site ''SITE_001''] of
           Inl e \<Rightarrow> False
         | Inr (out, self') \<Rightarrow>
             map (\<lambda>d. (action d, quantity d, llm_used d)) (results out)
               = [(''resupply'', PyInt 3, True)]))"
  by code_simp

lemma run_llm_lane_idle_example:
  "(case Orchestrator_init default_config of
      Inl e \<Rightarrow> False
    | Inr self \<Rightarrow>
        (case run default_config (answering_remote ''no_resupply'' (PyInt 7)) no_schedule self
                [example_site ''SITE_001''] of
           Inl e \<Rightarrow> False
         | Inr (out, self') \<Rightarrow>
             map (\<lambda>d. (action d, quantity d, llm_used d)) (results out)
               = [(''no_resupply'', PyInt 7, True)]))"
  by code_simp

lemma run_two_lanes_example:
  "(case Orchestrator_init default_config of
      Inl e \<Rightarrow> False
    | Inr self \<Rightarrow>
        (case run default_config (example_remote 3) no_schedule self
                [example_site ''SITE_001'', routine_site ''SITE_002'' 61] of
           Inl e \<Rightarrow> False
         | Inr (out, self') \<Rightarrow>
             map (\<lambda>d. (result_site_id d, action d, quantity d, llm_used d)) (results out)
               = [(''SITE_001'', ''resupply'', PyInt 3, True),
                  (''SITE_002'', ''no_resupply'', PyInt 0, False)]))"
  by code_simp

lemma run_batch_mode_example:
  "(case Orchestrator_init default_config of
      Inl e \<Rightarrow> False
    | Inr self \<Rightarrow>
        use_batch_api self \<and> 1 < batch_api_size self
        \<and> batches_of (nat (batch_api_size self))
             (filter (\<lambda>row. should_use_llm default_config self row)
                (sort_sites [example_site ''SITE_001''])) = [[example_site ''SITE_001'']])"
  by code_simp



subsection \<open>Decisions of the two lanes\<close>

text \<open>
  C2 (as stated, refuted): the claim covers decisions of the reasoning lane. The
  orchestrator copies the action and the quantity of a reasoning result without a check.
  With the default configuration and the urgent example site, a batch answer of
  \<open>resupply\<close> with quantity 3 ends in the results as it is, below the minimum order
  quantity 10; and a batch answer of \<open>no_resupply\<close> with quantity 7 ends in the results
  as it is, with a quantity other than 0.
\<close>

theorem decision_quantity_invariant_counterexample:
  "\<not> (\<forall>cfg rem sched self site_features out self'.
         Orchestrator_init cfg = Inr self
         \<longrightarrow> run cfg rem sched self site_features = Inr (out, self')
         \<longrightarrow> (\<forall>d \<in> set (results out).
                action d = ''resupply''
                \<longrightarrow> of_int MIN_ORDER_QUANTITY \<le> num_val (quantity d)))
   \<and> \<not> (\<forall>cfg rem sched self site_features out self'.
         Orchestrator_init cfg = Inr self
         \<longrightarrow> run cfg rem sched self site_features = Inr (out, self')
         \<longrightarrow> (\<forall>d \<in> set (results out).
                action d = ''no_resupply'' \<longrightarrow> num_val (quantity d) = 0))"
proof
  show "\<not> (\<forall>cfg rem sched self site_features out self'.
         Orchestrator_init cfg = Inr self
         \<longrightarrow> run cfg rem sched self site_features = Inr (out, self')
         \<longrightarrow> (\<forall>d \<in> set (results out).
                action d = ''resupply''
                \<longrightarrow> of_int MIN_ORDER_QUANTITY \<le> num_val (quantity d)))"
  proof
    assume a: "\<forall>cfg rem sched self site_features out self'.
         Orchestrator_init cfg = Inr self
         \<longrightarrow> run cfg rem sched self site_features = Inr (out, self')
         \<longrightarrow> (\<forall>d \<in> set (results out).
                action d = ''resupply''
                \<longrightarrow> of_int MIN_ORDER_QUANTITY \<le> num_val (quantity d))"
    from run_llm_lane_example obtain self out self'
      where i: "Orchestrator_init default_config = Inr self"
        and r: "run default_config (example_remote 3) no_schedule self [example_site ''SITE_001'']
                  = Inr (out, self')"
        and m: "map (\<lambda>d. (action d, quantity d, llm_used d)) (results out)
                  = [(''resupply'', PyInt 3, True)]"
      by (auto split: sum.splits prod.splits)
    from m obtain d where d: "d \<in> set (results out)" "action d = ''resupply''"
        "quantity d = PyInt 3"
      by (cases "results out") auto
    from a i r d(1) have "action d = ''resupply''
        \<longrightarrow> of_int MIN_ORDER_QUANTITY \<le> num_val (quantity d)"
      by blast
    with d show False
      by (simp add: MIN_ORDER_QUANTITY_def)
  qed
  show "\<not> (\<forall>cfg rem sched self site_features out self'.
         Orchestrator_init cfg = Inr self
         \<longrightarrow> run cfg rem sched self site_features = Inr (out, self')
         \<longrightarrow> (\<forall>d \<in> set (results out).
                action d = ''no_resupply'' \<longrightarrow> num_val (quantity d) = 0))"
  proof
    assume a: "\<forall>cfg rem sched self site_features out self'.
         Orchestrator_init cfg = Inr self
         \<longrightarrow> run cfg rem sched self site_features = Inr (out, self')
         \<longrightarrow> (\<forall>d \<in> set (results out).
                action d = ''no_resupply'' \<longrightarrow> num_val (quantity d) = 0)"
    from run_llm_lane_idle_example obtain self out self'
      where i: "Orchestrator_init default_config = Inr self"
        and r: "run default_config (answering_remote ''no_resupply'' (PyInt 7)) no_schedule self
                  [example_site ''SITE_001''] = Inr (out, self')"
        and m: "map (\<lambda>d. (action d, quantity d, llm_used d)) (results out)
                  = [(''no_resupply'', PyInt 7, True)]"
      by (auto split: sum.splits prod.splits)
    from m obtain d where d: "d \<in> set (results out)" "action d = ''no_resupply''"
        "quantity d = PyInt 7"
      by (cases "results out") auto
    from a i r d(1) have "action d = ''no_resupply'' \<longrightarrow> num_val (quantity d) = 0"
      by blast
    with d show False
      by simp
  qed
qed

text \<open>
  C2 (amended): a decision of a run that is not marked as produced by the reasoning
  client has the int quantity 0 when its action is \<open>no_resupply\<close> and an int quantity of
  at least \<open>MIN_ORDER_QUANTITY\<close> when its action is \<open>resupply\<close>. A decision that is marked
  as produced by the reasoning client belongs to an input site for which the client
  returned a result, and its action and its quantity are the ones of that result,
  unchanged.
\<close>

theorem decision_quantity_by_lane:
  assumes "Orchestrator_init cfg = Inr self"
    and "run cfg rem sched self site_features = Inr (out, self')"
    and "d \<in> set (results out)"
  shows "(\<not> llm_used d \<longrightarrow>
            (action d = ''no_resupply'' \<longrightarrow> quantity d = PyInt 0)
          \<and> (action d = ''resupply''
               \<longrightarrow> (\<exists>q. quantity d = PyInt q \<and> MIN_ORDER_QUANTITY \<le> q)))
     \<and> (llm_used d \<longrightarrow>
          (\<exists>row \<in> set site_features. \<exists>g.
              result_site_id d = site_id row \<and> client_returned rem row g
              \<and> sr_action (structured_result g) = Some (action d)
              \<and> sr_quantity (structured_result g) = Some (quantity d)))"
proof -
  let ?sl = "sort_sites site_features"
  from run_result_origin [OF assms] obtain row d0
    where row: "row \<in> set site_features" and l: "lane_ok rem row d0"
      and d: "d = enrich ?sl d0"
    by blast
  let ?r = "process_site_with_rules row (site_id row)"
  have rules: "\<not> llm_used ?r" "action ?r = rr_action (recommend_resupply row)"
      "quantity ?r = PyInt (rr_quantity (recommend_resupply row))"
    by (simp_all add: process_site_with_rules_def Let_def)
  show ?thesis
  proof (cases "d0 = ?r")
    case True
    with d rules have "\<not> llm_used d" "action d = rr_action (recommend_resupply row)"
        "quantity d = PyInt (rr_quantity (recommend_resupply row))"
      by simp_all
    with recommend_resupply_valid [of row] show ?thesis
      by simp
  next
    case False
    with l obtain g where g: "client_returned rem row g" "llm_decision (site_id row) g = Inr d0"
      unfolding lane_ok_def by blast
    note f = llm_decision_fields [OF g(2)]
    from f(1,2,4,5) d have "llm_used d" "result_site_id d = site_id row"
        "sr_action (structured_result g) = Some (action d)"
        "sr_quantity (structured_result g) = Some (quantity d)"
      by simp_all
    with row g(1) show ?thesis
      by blast
  qed
qed

theorem decision_quantity_by_lane_witness:
  "\<exists>self out self' d1 d2. Orchestrator_init default_config = Inr self
     \<and> run default_config (example_remote 3) no_schedule self
           [example_site ''SITE_001'', routine_site ''SITE_002'' 61] = Inr (out, self')
     \<and> d1 \<in> set (results out) \<and> llm_used d1 \<and> result_site_id d1 = ''SITE_001''
     \<and> action d1 = ''resupply'' \<and> quantity d1 = PyInt 3
     \<and> (\<exists>row g. row \<in> set [example_site ''SITE_001'', routine_site ''SITE_002'' 61]
           \<and> site_id row = ''SITE_001'' \<and> client_returned (example_remote 3) row g
           \<and> sr_action (structured_result g) = Some ''resupply''
           \<and> sr_quantity (structured_result g) = Some (PyInt 3))
     \<and> d2 \<in> set (results out) \<and> \<not> llm_used d2 \<and> result_site_id d2 = ''SITE_002''
     \<and> action d2 = ''no_resupply'' \<and> quantity d2 = PyInt 0"
proof -
  let ?sites = "[example_site ''SITE_001'', routine_site ''SITE_002'' 61]"
  from run_two_lanes_example obtain self out self'
    where i: "Orchestrator_init default_config = Inr self"
      and r: "run default_config (example_remote 3) no_schedule self ?sites = Inr (out, self')"
      and m: "map (\<lambda>d. (result_site_id d, action d, quantity d, llm_used d)) (results out)
                = [(''SITE_001'', ''resupply'', PyInt 3, True),
                   (''SITE_002'', ''no_resupply'', PyInt 0, False)]"
    by (auto split: sum.splits prod.splits)
  from m obtain d1 d2 where res: "results out = [d1, d2]"
    and d1: "result_site_id d1 = ''SITE_001''" "action d1 = ''resupply''"
      "quantity d1 = PyInt 3" "llm_used d1"
    and d2: "result_site_id d2 = ''SITE_002''" "action d2 = ''no_resupply''" "\<not> llm_used d2"
    by auto
  have m1: "d1 \<in> set (results out)" and m2: "d2 \<in> set (results out)"
    by (simp_all add: res)
  from decision_quantity_by_lane [OF i r m1] d1(4)
  have "\<exists>row \<in> set ?sites. \<exists>g.
          result_site_id d1 = site_id row \<and> client_returned (example_remote 3) row g
          \<and> sr_action (structured_result g) = Some (action d1)
          \<and> sr_quantity (structured_result g) = Some (quantity d1)"
    by blast
  then obtain row g where "row \<in> set ?sites" "result_site_id d1 = site_id row"
      "client_returned (example_remote 3) row g"
      "sr_action (structured_result g) = Some (action d1)"
      "sr_quantity (structured_result g) = Some (quantity d1)"
    by blast
  with d1 have g: "row \<in> set ?sites" "site_id row = ''SITE_001''"
      "client_returned (example_remote 3) row g"
      "sr_action (structured_result g) = Some ''resupply''"
      "sr_quantity (structured_result g) = Some (PyInt 3)"
    by simp_all
  from decision_quantity_by_lane [OF i r m2] d2 have q2: "quantity d2 = PyInt 0"
    by simp
  from i r m1 m2 d1 d2 q2 g show ?thesis
    by blast
qed

subsection \<open>The failure count\<close>

text \<open>
  C4 (the code differs): with selective routing, batching and parallelism off, five sites
  and a remote that fails for the first four, the failure count stands at 4 after the
  fourth site, above \<open>max_llm_failures = 3\<close>; but \<open>run\<close> asked \<open>_should_use_llm\<close> for
  every site before the first call, when the count was 0, so the fifth site still goes to
  the reasoning client, whose answer is used and resets the count to 0.
\<close>

theorem circuit_breaker_not_consulted:
  "(case Orchestrator_init sequential_config of
      Inl e \<Rightarrow> False
    | Inr self \<Rightarrow>
        (case process_individually flaky_remote self (take 4 five_sites) of
           (rs4, self4) \<Rightarrow>
             llm_failure_count self4 = 4 \<and> max_llm_failures self4 = 3
             \<and> map llm_used rs4 = [False, False, False, False])
        \<and> (case run sequential_config flaky_remote no_schedule self five_sites of
              Inl e \<Rightarrow> False
            | Inr (out, self') \<Rightarrow>
                map (\<lambda>d. (result_site_id d, llm_used d)) (results out)
                  = [(''SITE_001'', False), (''SITE_002'', False), (''SITE_003'', False),
                     (''SITE_004'', False), (''SITE_005'', True)]
                \<and> llm_failure_count self' = 0))"
  by code_simp

subsection \<open>No credentials\<close>






subsection \<open>Failed batches\<close>

lemma process_sites_batch_llm_raises:
  assumes "gemini_client self \<noteq> None" and "batch \<noteq> []"
    and "(\<exists>e. get_batch_recommendations rem batch = Inl e)
         \<or> (\<exists>rs e. get_batch_recommendations rem batch = Inr rs
                    \<and> map_batch_results batch rs = Inl e)"
  shows "process_sites_batch_llm rem self batch
           = (map (\<lambda>row. process_site_with_rules row (site_id row)) batch,
              self\<lparr>llm_failure_count := llm_failure_count self + 1\<rparr>)"
  using assms by (auto simp: process_sites_batch_llm_def)

lemma process_batches_member:
  assumes "batch \<in> set batches"
  shows "\<exists>self_b. settings_of self_b = settings_of self
           \<and> set (fst (process_sites_batch_llm rem self_b batch))
               \<subseteq> set (fst (process_batches rem self batches))"
  using assms
proof (induction batches arbitrary: self)
  case Nil
  then show ?case by simp
next
  case (Cons b batches)
  obtain rs self1 where p: "process_sites_batch_llm rem self b = (rs, self1)"
    by (cases "process_sites_batch_llm rem self b")
  obtain rs2 self2 where q: "process_batches rem self1 batches = (rs2, self2)"
    by (cases "process_batches rem self1 batches")
  have s1: "settings_of self1 = settings_of self"
    using process_sites_batch_llm_state [of rem self b] p by simp
  show ?case
  proof (cases "batch = b")
    case True
    have "set (fst (process_sites_batch_llm rem self batch))
            \<subseteq> set (fst (process_batches rem self (b # batches)))"
      using True p q by simp
    then show ?thesis by blast
  next
    case False
    with Cons.prems have "batch \<in> set batches" by simp
    from Cons.IH [OF this, of self1] obtain self_b
      where "settings_of self_b = settings_of self1"
        "set (fst (process_sites_batch_llm rem self_b batch)) \<subseteq> set rs2"
      using q by auto
    then have "settings_of self_b = settings_of self
       \<and> set (fst (process_sites_batch_llm rem self_b batch))
           \<subseteq> set (fst (process_batches rem self (b # batches)))"
      using s1 p q by auto
    then show ?thesis by blast
  qed
qed

text \<open>
  C6: in batch mode, when the client call for a batch raises (or reading its results
  raises \<open>KeyError\<close>), the results of the run hold, for every row of that batch, the rule
  engine's decision: its action and quantity, its reason followed by " (Rules engine)",
  not marked as produced by the reasoning client.
\<close>

theorem failed_batch_degrades_to_rules:
  assumes "Orchestrator_init cfg = Inr self"
    and "run cfg rem sched self site_features = Inr (out, self')"
    and "use_batch_api self" and "1 < batch_api_size self"
    and "batch \<in> set (batches_of (nat (batch_api_size self))
                        (filter (\<lambda>row. should_use_llm cfg self row) (sort_sites site_features)))"
    and "(\<exists>e. get_batch_recommendations rem batch = Inl e)
         \<or> (\<exists>rs e. get_batch_recommendations rem batch = Inr rs
                    \<and> map_batch_results batch rs = Inl e)"
    and "row \<in> set batch"
  shows "\<exists>d \<in> set (results out).
           d = enrich (sort_sites site_features) (process_site_with_rules row (site_id row))
           \<and> result_site_id d = site_id row \<and> \<not> llm_used d
           \<and> action d = rr_action (recommend_resupply row)
           \<and> quantity d = PyInt (rr_quantity (recommend_resupply row))
           \<and> reason d = rr_reason (recommend_resupply row) @ '' (Rules engine)''"
proof -
  let ?sl = "sort_sites site_features"
  let ?llm = "filter (\<lambda>row. should_use_llm cfg self row) ?sl"
  let ?bs = "batches_of (nat (batch_api_size self)) ?llm"
  let ?rules = "\<lambda>row. process_site_with_rules row (site_id row)"
  have ne: "batch \<noteq> []"
    using assms(5) by (rule batches_of_nonempty)
  have llm_ne: "?llm \<noteq> []"
    using assms(5) by (auto simp: batches_of.simps [of _ "[]"])
  have c: "gemini_client self \<noteq> None"
    using Orchestrator_init_fields(1) [OF assms(1)] assms(3) by simp
  from process_batches_member [OF assms(5), of self rem] obtain self_b
    where sb: "settings_of self_b = settings_of self"
      and sub: "set (fst (process_sites_batch_llm rem self_b batch))
                  \<subseteq> set (fst (process_batches rem self ?bs))"
    by blast
  have cb: "gemini_client self_b \<noteq> None"
    using settings_of_fields(1) [OF sb] c by simp
  have "fst (process_sites_batch_llm rem self_b batch) = map ?rules batch"
    using process_sites_batch_llm_raises [OF cb ne assms(6)] by simp
  with sub assms(7) have mem: "?rules row \<in> set (fst (process_batches rem self ?bs))"
    by auto
  have "process_llm_sites rem sched self ?llm = Inr (process_batches rem self ?bs)"
    using llm_ne assms(3,4) by (simp add: process_llm_sites_def)
  with assms(2) obtain rs2
    where "results out = map (enrich ?sl) (fst (process_batches rem self ?bs) @ rs2)"
    by (auto simp: run_def Let_def split: sum.splits prod.splits)
  with mem have "enrich ?sl (?rules row) \<in> set (results out)"
    by auto
  then show ?thesis
    by (auto simp: process_site_with_rules_def Let_def)
qed

theorem failed_batch_degrades_to_rules_witness:
  "\<exists>self out self' d. Orchestrator_init default_config = Inr self
     \<and> run default_config flaky_remote no_schedule self [example_site ''SITE_001'']
           = Inr (out, self')
     \<and> get_batch_recommendations flaky_remote [example_site ''SITE_001''] = Inl (Exception ''503'')
     \<and> d \<in> set (results out) \<and> result_site_id d = ''SITE_001'' \<and> \<not> llm_used d
     \<and> action d = ''resupply'' \<and> quantity d = PyInt 69"
proof -
  let ?s = "example_site ''SITE_001''"
  from run_batch_mode_example obtain self
    where i: "Orchestrator_init default_config = Inr self"
      and u: "use_batch_api self" and b: "1 < batch_api_size self"
      and bs: "batches_of (nat (batch_api_size self))
                 (filter (\<lambda>row. should_use_llm default_config self row) (sort_sites [?s])) = [[?s]]"
    by (auto split: sum.splits)
  have "\<not> USE_PARALLEL default_config \<or> 0 < MAX_CONCURRENT_REQUESTS default_config"
    by (simp add: default_config_def)
  from run_total [OF i this, of flaky_remote no_schedule "[?s]"] obtain out self'
    where r: "run default_config flaky_remote no_schedule self [?s] = Inr (out, self')"
    by blast
  have m: "[?s] \<in> set (batches_of (nat (batch_api_size self))
                 (filter (\<lambda>row. should_use_llm default_config self row) (sort_sites [?s])))"
    by (simp add: bs)
  have f: "get_batch_recommendations flaky_remote [?s] = Inl (Exception ''503'')"
    by (simp add: flaky_remote_def)
  then have f': "(\<exists>e. get_batch_recommendations flaky_remote [?s] = Inl e)
         \<or> (\<exists>rs e. get_batch_recommendations flaky_remote [?s] = Inr rs
                    \<and> map_batch_results [?s] rs = Inl e)"
    by simp
  have "?s \<in> set [?s]" by simp
  from failed_batch_degrades_to_rules [OF i r u b m f' this]
  obtain d where d: "d \<in> set (results out)" "result_site_id d = site_id ?s" "\<not> llm_used d"
      "action d = rr_action (recommend_resupply ?s)"
      "quantity d = PyInt (rr_quantity (recommend_resupply ?s))"
    by blast
  have a: "rr_action (recommend_resupply ?s) = ''resupply''"
    and q: "rr_quantity (recommend_resupply ?s) = 69"
    by (simp_all add: recommend_resupply_def example_site_def safety_stock_of_100 py_float_60
        EXPIRY_THRESHOLD_DAYS_def MIN_ORDER_QUANTITY_def)
  have "site_id ?s = ''SITE_001''"
    by (simp add: example_site_def)
  with d a q i r f show ?thesis by auto
qed

section \<open>Allocation\<close>

subsection \<open>Dictionaries\<close>

lemma sum_snd_update_fresh:
  "k \<notin> fst ` set al \<Longrightarrow> sum_list (map snd (AList.update k v al)) = sum_list (map snd al) + (v::int)"
  by (induction al) auto

lemma set_update_subset: "set (AList.update k v al) \<subseteq> insert (k, v) (set al)"
  by (induction al) auto

lemma dict_of_items_snoc:
  "dict_of_items (items @ [(k, v)]) = AList.update k v (dict_of_items items)"
  by (simp add: dict_of_items_def)

lemma distinct_dict_of_items: "distinct (map fst (dict_of_items items))"
proof (induction items rule: rev_induct)
  case Nil
  then show ?case by (simp add: dict_of_items_def)
next
  case (snoc x items)
  then show ?case
    by (cases x) (simp add: dict_of_items_snoc distinct_update)
qed

lemma set_dict_of_items: "set (dict_of_items items) \<subseteq> set items"
proof (induction items rule: rev_induct)
  case Nil
  then show ?case by (simp add: dict_of_items_def)
next
  case (snoc x items)
  obtain k v where x: "x = (k, v)" by (cases x)
  show ?case
    using snoc set_update_subset [of k v "dict_of_items items"]
    by (auto simp: x dict_of_items_snoc)
qed

lemma keys_dict_of_items: "fst ` set (dict_of_items items) = fst ` set items"
proof (induction items rule: rev_induct)
  case Nil
  then show ?case by (simp add: dict_of_items_def)
next
  case (snoc x items)
  then show ?case
    by (cases x) (auto simp: dict_of_items_snoc dom_update)
qed

lemma update_fresh: "k \<notin> fst ` set al \<Longrightarrow> AList.update k v al = al @ [(k, v)]"
  by (induction al) auto

lemma dict_of_items_distinct: "distinct (map fst items) \<Longrightarrow> dict_of_items items = items"
proof (induction items rule: rev_induct)
  case Nil
  then show ?case by (simp add: dict_of_items_def)
next
  case (snoc x items)
  obtain k v where x: "x = (k, v)" by (cases x)
  from snoc.prems have d: "distinct (map fst items)" and k: "k \<notin> fst ` set items"
    by (auto simp: x)
  show ?case
    using snoc.IH [OF d] k by (simp add: x dict_of_items_snoc update_fresh)
qed

lemma sum_list_map_mset_cong:
  "mset xs = mset ys \<Longrightarrow> sum_list (map f xs) = (sum_list (map f ys) :: int)"
  by (metis mset_map sum_mset_sum_list)

subsection \<open>The best depot\<close>

lemma depot_candidates_bound:
  "(did, qty, score) \<in> set (depot_candidates sid demand depots lead_times) \<Longrightarrow> qty \<le> demand"
  by (induction depots) (auto split: if_splits option.splits)

lemma find_best_depot_bound:
  assumes "find_best_depot sid demand depots lead_times = Some (did, qty)"
  shows "qty \<le> demand"
proof -
  let ?c = "depot_candidates sid demand depots lead_times"
  from assms obtain score rest
    where "sort_key (\<lambda>(did, qty, score). score) ?c = (did, qty, score) # rest"
    by (auto simp: find_best_depot_def split: list.splits)
  then have "(did, qty, score) \<in> set (sort_key (\<lambda>(did, qty, score). score) ?c)"
    by simp
  then have "(did, qty, score) \<in> set ?c"
    by simp
  then show ?thesis
    by (rule depot_candidates_bound)
qed

subsection \<open>The allocation loop\<close>

lemma allocated_to_append:
  "allocated_to (plan\<lparr>allocations := allocations plan @ [a]\<rparr>) sid
     = allocated_to plan sid + (if alloc_site_id a = sid then alloc_quantity a else 0)"
  by (simp add: allocated_to_def)

lemma allocate_sites_invariant:
  assumes "allocate_sites lead_times sites (plan, remaining) = (plan', remaining')"
    and "distinct (map fst sites)"
    and "fst ` set (unmet_demand plan) \<inter> fst ` set sites = {}"
  shows "total_allocated plan' + sum_list (map snd (unmet_demand plan'))
           = total_allocated plan + sum_list (map snd (unmet_demand plan))
             + sum_list (map (\<lambda>(s, n). max 0 n) sites)
       \<and> fst ` set (unmet_demand plan') \<subseteq> fst ` set (unmet_demand plan) \<union> fst ` set sites
       \<and> (\<forall>sid. allocated_to plan' sid
                  \<le> allocated_to plan sid
                    + sum_list (map (\<lambda>(s, n). if s = sid then max 0 n else 0) sites))
       \<and> alloc_site_id ` set (allocations plan')
            \<subseteq> alloc_site_id ` set (allocations plan) \<union> fst ` set sites
       \<and> total_allocated plan' - sum_list (map alloc_quantity (allocations plan'))
            = total_allocated plan - sum_list (map alloc_quantity (allocations plan))"
  using assms
proof (induction sites arbitrary: plan remaining)
  case Nil
  then show ?case by simp
next
  case (Cons x sites)
  obtain s n where x: "x = (s, n)" by (cases x)
  from Cons.prems(2) have dist: "distinct (map fst sites)" and fresh: "s \<notin> fst ` set sites"
    by (auto simp: x)
  from Cons.prems(3) have s_unmet: "s \<notin> fst ` set (unmet_demand plan)"
    and disj: "fst ` set (unmet_demand plan) \<inter> fst ` set sites = {}"
    by (auto simp: x)
  show ?case
  proof (cases "n \<le> 0")
    case True
    with Cons.prems(1) have "allocate_sites lead_times sites (plan, remaining) = (plan', remaining')"
      by (simp add: x)
    from Cons.IH [OF this dist disj] True show ?thesis
      by (auto simp: x)
  next
    case pos: False
    show ?thesis
    proof (cases "find_best_depot s n remaining lead_times")
      case None
      let ?p1 = "plan\<lparr>unmet_demand := AList.update s n (unmet_demand plan)\<rparr>"
      from Cons.prems(1) pos None
      have r: "allocate_sites lead_times sites (?p1, remaining) = (plan', remaining')"
        by (simp add: x)
      have d1: "fst ` set (unmet_demand ?p1) \<inter> fst ` set sites = {}"
        using disj fresh by (auto simp: dom_update)
      have u1: "sum_list (map snd (unmet_demand ?p1)) = sum_list (map snd (unmet_demand plan)) + n"
        using s_unmet by (simp add: sum_snd_update_fresh)
      have k1: "fst ` set (unmet_demand ?p1) = insert s (fst ` set (unmet_demand plan))"
        by (simp add: dom_update)
      have a1: "allocated_to ?p1 sid = allocated_to plan sid" for sid
        by (simp add: allocated_to_def)
      note ih = Cons.IH [OF r dist d1]
      have c1: "total_allocated plan' + sum_list (map snd (unmet_demand plan'))
           = total_allocated plan + sum_list (map snd (unmet_demand plan))
             + sum_list (map (\<lambda>(s, n). max 0 n) (x # sites))"
        using ih pos unfolding u1 by (simp add: x)
      have c2: "fst ` set (unmet_demand plan')
                  \<subseteq> fst ` set (unmet_demand plan) \<union> fst ` set (x # sites)"
        using ih unfolding k1 by (auto simp: x)
      have c3: "allocated_to plan' sid
                  \<le> allocated_to plan sid
                    + sum_list (map (\<lambda>(s, n). if s = sid then max 0 n else 0) (x # sites))" for sid
      proof -
        from ih have "allocated_to plan' sid
                  \<le> allocated_to ?p1 sid
                    + sum_list (map (\<lambda>(s, n). if s = sid then max 0 n else 0) sites)"
          by blast
        then show ?thesis
          unfolding a1 using pos by (simp add: x)
      qed
      have c4: "alloc_site_id ` set (allocations plan')
            \<subseteq> alloc_site_id ` set (allocations plan) \<union> fst ` set (x # sites)"
        using ih by (auto simp: x)
      have c5: "total_allocated plan' - sum_list (map alloc_quantity (allocations plan'))
            = total_allocated plan - sum_list (map alloc_quantity (allocations plan))"
        using ih by simp
      from c1 c2 c3 c4 c5 show ?thesis by blast
    next
      case (Some best)
      obtain did qty where best: "best = (did, qty)" by (cases best)
      have q: "qty \<le> n"
        using Some find_best_depot_bound by (simp add: best)
      let ?a = "\<lparr>depot_id = did, alloc_site_id = s, alloc_quantity = qty,
                 lead_time_days = dict_get (dict_get lead_times did []) s 7\<rparr>"
      let ?u1 = "if qty < n then AList.update s (n - qty) (unmet_demand plan)
                 else unmet_demand plan"
      let ?p1 = "plan\<lparr>allocations := allocations plan @ [?a],
                      total_allocated := total_allocated plan + qty,
                      unmet_demand := ?u1\<rparr>"
      let ?r1 = "AList.map_entry did (\<lambda>v. v - qty) remaining"
      from Cons.prems(1) pos Some
      have r: "allocate_sites lead_times sites (?p1, ?r1) = (plan', remaining')"
        by (simp add: x best)
      have d1: "fst ` set (unmet_demand ?p1) \<inter> fst ` set sites = {}"
        using disj fresh by (auto simp: dom_update)
      have u1: "sum_list (map snd (unmet_demand ?p1))
                  = sum_list (map snd (unmet_demand plan)) + (n - qty)"
        using s_unmet q by (simp add: sum_snd_update_fresh)
      have k1: "fst ` set (unmet_demand ?p1) \<subseteq> insert s (fst ` set (unmet_demand plan))"
        by (auto simp: dom_update)
      have a1: "allocated_to ?p1 sid = allocated_to plan sid + (if s = sid then qty else 0)" for sid
        by (simp add: allocated_to_def)
      have t1: "total_allocated ?p1 = total_allocated plan + qty"
        by simp
      have al1: "allocations ?p1 = allocations plan @ [?a]"
        by simp
      note ih = Cons.IH [OF r dist d1]
      have c1: "total_allocated plan' + sum_list (map snd (unmet_demand plan'))
           = total_allocated plan + sum_list (map snd (unmet_demand plan))
             + sum_list (map (\<lambda>(s, n). max 0 n) (x # sites))"
        using ih pos unfolding u1 t1 by (simp add: x)
      have xs: "fst ` set (x # sites) = insert s (fst ` set sites)"
        by (simp add: x)
      from ih have ih2: "fst ` set (unmet_demand plan')
                  \<subseteq> fst ` set (unmet_demand ?p1) \<union> fst ` set sites"
        by blast
      have c2: "fst ` set (unmet_demand plan')
                  \<subseteq> fst ` set (unmet_demand plan) \<union> fst ` set (x # sites)"
        using ih2 k1 unfolding xs by blast
      have c3: "allocated_to plan' sid
                  \<le> allocated_to plan sid
                    + sum_list (map (\<lambda>(s, n). if s = sid then max 0 n else 0) (x # sites))" for sid
      proof -
        from ih have "allocated_to plan' sid
                  \<le> allocated_to ?p1 sid
                    + sum_list (map (\<lambda>(s, n). if s = sid then max 0 n else 0) sites)"
          by blast
        then show ?thesis
          unfolding a1 using q pos by (auto simp: x split: if_splits)
      qed
      have c4: "alloc_site_id ` set (allocations plan')
            \<subseteq> alloc_site_id ` set (allocations plan) \<union> fst ` set (x # sites)"
        using ih unfolding al1 by (auto simp: x)
      have c5: "total_allocated plan' - sum_list (map alloc_quantity (allocations plan'))
            = total_allocated plan - sum_list (map alloc_quantity (allocations plan))"
        using ih unfolding al1 t1 by simp
      from c1 c2 c3 c4 c5 show ?thesis by blast
    qed
  qed
qed

lemma allocate_sites_score:
  "optimization_score (fst (allocate_sites lead_times sites (plan, remaining)))
     = optimization_score plan"
proof (induction sites arbitrary: plan remaining)
  case Nil
  then show ?case by simp
next
  case (Cons x sites)
  obtain s n where x: "x = (s, n)" by (cases x)
  show ?case
    by (simp add: x Cons.IH split: option.splits prod.splits)
qed

lemma optimize_depot_allocation_fields:
  assumes "allocate_sites lead_times
             (sort_key (\<lambda>(sid, net_demand). - net_demand)
                (map (\<lambda>(sid, demand). (sid, net_demand_of site_inventory sid demand)) site_demands))
             (\<lparr>allocations = [], total_allocated = 0, unmet_demand = [],
               excess_inventory = [], optimization_score = 0\<rparr>, depot_inventory)
           = (plan, remaining)"
  shows "allocations (optimize_depot_allocation site_demands depot_inventory site_inventory lead_times)
           = allocations plan"
    and "total_allocated (optimize_depot_allocation site_demands depot_inventory site_inventory lead_times)
           = total_allocated plan"
    and "unmet_demand (optimize_depot_allocation site_demands depot_inventory site_inventory lead_times)
           = unmet_demand plan"
    and "optimization_score (optimize_depot_allocation site_demands depot_inventory site_inventory lead_times)
           = (let total_demand = sum_list (map (\<lambda>(sid, demand). net_demand_of site_inventory sid demand)
                                             site_demands)
              in if total_demand > 0
                 then fl (fl (of_int (total_allocated plan) / of_int total_demand) * 100) else 0)"
proof -
  have "optimization_score (fst (allocate_sites lead_times
             (sort_key (\<lambda>(sid, net_demand). - net_demand)
                (map (\<lambda>(sid, demand). (sid, net_demand_of site_inventory sid demand)) site_demands))
             (\<lparr>allocations = [], total_allocated = 0, unmet_demand = [],
               excess_inventory = [], optimization_score = 0\<rparr>, depot_inventory))) = 0"
    by (simp only: allocate_sites_score allocation_plan.select_convs)
  then have "optimization_score plan = 0"
    by (simp only: assms fst_conv)
  with assms show
    "allocations (optimize_depot_allocation site_demands depot_inventory site_inventory lead_times)
           = allocations plan"
    "total_allocated (optimize_depot_allocation site_demands depot_inventory site_inventory lead_times)
           = total_allocated plan"
    "unmet_demand (optimize_depot_allocation site_demands depot_inventory site_inventory lead_times)
           = unmet_demand plan"
    "optimization_score (optimize_depot_allocation site_demands depot_inventory site_inventory lead_times)
           = (let total_demand = sum_list (map (\<lambda>(sid, demand). net_demand_of site_inventory sid demand)
                                             site_demands)
              in if total_demand > 0
                 then fl (fl (of_int (total_allocated plan) / of_int total_demand) * 100) else 0)"
    by (simp_all add: optimize_depot_allocation_def Let_def case_prod_unfold comp_def)
qed

lemma net_demand_of_nonneg: "0 \<le> net_demand_of site_inventory sid demand"
  by (simp add: net_demand_of_def)

lemma sum_single_key:
  assumes "distinct (map fst items)" and "(k, v) \<in> set items"
  shows "sum_list (map (\<lambda>(s, n). if s = k then f s n else 0) items) = (f k v :: int)"
  using assms
proof (induction items)
  case Nil
  then show ?case by simp
next
  case (Cons x items)
  obtain s n where x: "x = (s, n)" by (cases x)
  show ?case
  proof (cases "s = k")
    case True
    with Cons.prems have v: "n = v" and nk: "k \<notin> fst ` set items"
      by (auto simp: x rev_image_eqI)
    have "sum_list (map (\<lambda>(s, n). if s = k then f s n else 0) items) = 0"
      using nk by (induction items) auto
    with True v show ?thesis by (simp add: x)
  next
    case False
    with Cons show ?thesis by (auto simp: x)
  qed
qed

text \<open>
  C5: for site demands given as a dictionary (distinct keys), any depot inventory, site
  inventory and lead times, with net demand \<open>max(0, demand - inventory)\<close>: the edges of the
  plan allocate to each site at most its net demand, every edge goes to a site of the
  input, \<open>total_allocated\<close> is the sum of the edges, and \<open>total_allocated\<close> plus the sum of
  \<open>unmet_demand\<close> equals the sum of the net demands.
\<close>

theorem optimize_depot_allocation_conservation:
  assumes "distinct (map fst site_demands)"
  shows "(\<forall>(sid, demand) \<in> set site_demands.
            allocated_to (optimize_depot_allocation site_demands depot_inventory site_inventory
                            lead_times) sid
              \<le> net_demand_of site_inventory sid demand)
     \<and> alloc_site_id ` set (allocations (optimize_depot_allocation site_demands depot_inventory
                                           site_inventory lead_times))
          \<subseteq> fst ` set site_demands
     \<and> total_allocated (optimize_depot_allocation site_demands depot_inventory site_inventory
                          lead_times)
         = sum_list (map alloc_quantity
                       (allocations (optimize_depot_allocation site_demands depot_inventory
                                       site_inventory lead_times)))
     \<and> total_allocated (optimize_depot_allocation site_demands depot_inventory site_inventory
                          lead_times)
         + sum_list (map snd (unmet_demand (optimize_depot_allocation site_demands depot_inventory
                                              site_inventory lead_times)))
         = sum_list (map (\<lambda>(sid, demand). net_demand_of site_inventory sid demand) site_demands)"
proof -
  let ?opt = "optimize_depot_allocation site_demands depot_inventory site_inventory lead_times"
  let ?net = "map (\<lambda>(sid, demand). (sid, net_demand_of site_inventory sid demand)) site_demands"
  let ?sorted = "sort_key (\<lambda>(sid, net_demand). - net_demand) ?net"
  let ?p0 = "\<lparr>allocations = [], total_allocated = 0, unmet_demand = [],
              excess_inventory = [], optimization_score = 0\<rparr>"
  obtain plan remaining
    where al: "allocate_sites lead_times ?sorted (?p0, depot_inventory) = (plan, remaining)"
    by (cases "allocate_sites lead_times ?sorted (?p0, depot_inventory)")
  note f = optimize_depot_allocation_fields [OF al]
  have keys: "map fst ?net = map fst site_demands"
    by (simp add: case_prod_unfold comp_def)
  have ms: "mset ?sorted = mset ?net"
    by simp
  have mk: "mset (map fst ?sorted) = mset (map fst ?net)"
    by (simp only: mset_map ms)
  have "distinct (map fst ?net)"
    using assms by (simp only: keys)
  then have dist: "distinct (map fst ?sorted)"
    by (simp only: mset_eq_imp_distinct_iff [OF mk])
  have "set (map fst ?sorted) = set (map fst ?net)"
    using mk by (rule mset_eq_setD)
  then have sk: "fst ` set ?sorted = fst ` set site_demands"
    by (simp only: keys set_map)
  from allocate_sites_invariant [OF al dist]
  have i1: "total_allocated plan + sum_list (map snd (unmet_demand plan))
              = sum_list (map (\<lambda>(s, n). max 0 n) ?sorted)"
    and i3: "\<And>sid. allocated_to plan sid
              \<le> sum_list (map (\<lambda>(s, n). if s = sid then max 0 n else 0) ?sorted)"
    and i4: "alloc_site_id ` set (allocations plan) \<subseteq> fst ` set ?sorted"
    and i5: "total_allocated plan - sum_list (map alloc_quantity (allocations plan)) = 0"
    by (simp_all add: allocated_to_def)
  have s1: "sum_list (map (\<lambda>(s, n). max 0 n) ?sorted) = sum_list (map (\<lambda>(s, n). max 0 n) ?net)"
    using ms by (rule sum_list_map_mset_cong)
  have s2: "sum_list (map (\<lambda>(s, n). max 0 n) ?net)
              = sum_list (map (\<lambda>(sid, demand). net_demand_of site_inventory sid demand) site_demands)"
    by (simp add: case_prod_unfold comp_def net_demand_of_nonneg)
  have at: "allocated_to ?opt sid = allocated_to plan sid" for sid
    by (simp add: allocated_to_def f(1))
  have c1: "\<forall>(sid, demand) \<in> set site_demands.
              allocated_to ?opt sid \<le> net_demand_of site_inventory sid demand"
  proof (intro ballI, clarify)
    fix sid demand assume m: "(sid, demand) \<in> set site_demands"
    have "sum_list (map (\<lambda>(s, n). if s = sid then max 0 n else 0) ?sorted)
            = sum_list (map (\<lambda>(s, n). if s = sid then max 0 n else 0) ?net)"
      using ms by (rule sum_list_map_mset_cong)
    also have "\<dots> = sum_list (map (\<lambda>(s, d). if s = sid then net_demand_of site_inventory s d else 0)
                              site_demands)"
      by (simp add: case_prod_unfold comp_def net_demand_of_nonneg max_absorb2 cong: if_cong)
    also have "\<dots> = net_demand_of site_inventory sid demand"
      using assms m by (rule sum_single_key)
    finally show "allocated_to ?opt sid \<le> net_demand_of site_inventory sid demand"
      using i3 [of sid] by (simp add: at)
  qed
  have c2: "alloc_site_id ` set (allocations ?opt) \<subseteq> fst ` set site_demands"
    using i4 sk by (simp add: f(1))
  have c3: "total_allocated ?opt = sum_list (map alloc_quantity (allocations ?opt))"
    using i5 by (simp add: f(1,2))
  have c4: "total_allocated ?opt + sum_list (map snd (unmet_demand ?opt))
         = sum_list (map (\<lambda>(sid, demand). net_demand_of site_inventory sid demand) site_demands)"
    using i1 s1 s2 by (simp add: f(2,3))
  from c1 c2 c3 c4 show ?thesis by blast
qed

theorem optimize_depot_allocation_conservation_witness:
  "distinct (map fst [(''A'', 100), (''B'', 20 :: int)])
   \<and> allocated_to (optimize_depot_allocation [(''A'', 100), (''B'', 20)] [(''D1'', 30)]
                     [(''A'', 50), (''B'', 30)] [(''D1'', [(''A'', 5), (''B'', 5)])]) ''A''
       \<le> net_demand_of [(''A'', 50), (''B'', 30)] ''A'' 100
   \<and> total_allocated (optimize_depot_allocation [(''A'', 100), (''B'', 20)] [(''D1'', 30)]
                        [(''A'', 50), (''B'', 30)] [(''D1'', [(''A'', 5), (''B'', 5)])])
       + sum_list (map snd (unmet_demand
            (optimize_depot_allocation [(''A'', 100), (''B'', 20)] [(''D1'', 30)]
               [(''A'', 50), (''B'', 30)] [(''D1'', [(''A'', 5), (''B'', 5)])])))
       = 50"
proof -
  have d: "distinct (map fst [(''A'', 100), (''B'', 20 :: int)])"
    by simp
  from optimize_depot_allocation_conservation [OF d, of "[(''D1'', 30)]"
      "[(''A'', 50), (''B'', 30)]" "[(''D1'', [(''A'', 5), (''B'', 5)])]"]
  show ?thesis
    using d by (simp add: net_demand_of_def dict_get_def)
qed

section \<open>Agreement of the two optimizers\<close>

text \<open>On ints the optimizer on numbers computes what the optimizer on ints computes.\<close>

lemma py_less_ints: "py_less (PyInt a) (PyInt b) \<longleftrightarrow> a < b"
  by (simp add: py_less_def)

lemma py_min_ints: "py_min (PyInt a) (PyInt b) = PyInt (min a b)"
  by (simp add: py_min_def py_less_ints min_def)

lemma py_max_ints: "py_max (PyInt a) (PyInt b) = PyInt (max a b)"
  by (simp add: py_max_def py_less_ints max_def)

lemma foldl_py_add_ints: "foldl py_add (PyInt a) (map PyInt xs) = PyInt (a + sum_list xs)"
  by (induction xs arbitrary: a) (simp_all add: add.assoc)

lemma py_sum_ints: "py_sum (map PyInt xs) = PyInt (sum_list xs)"
  by (simp add: py_sum_def foldl_py_add_ints)

lemma py_float_100: "py_float 100 = 100"
  by code_simp

lemma map_of_dict_map_values: "map_of (dict_map_values f d) k = map_option f (map_of d k)"
  by (induction d) (auto simp: dict_map_values_def)

lemma dict_get_map_values: "dict_get (dict_map_values f d) k (f v) = f (dict_get d k v)"
  by (simp add: dict_get_def map_of_dict_map_values split: option.splits)

lemma dict_map_values_simps:
  "dict_map_values f [] = []"
  "dict_map_values f ((k, v) # d) = (k, f v) # dict_map_values f d"
  by (simp_all add: dict_map_values_def)

lemma map_snd_dict_map_values: "map snd (dict_map_values f d) = map f (map snd d)"
  by (induction d) (auto simp: dict_map_values_def)

lemma map_fst_dict_map_values: "map fst (dict_map_values f d) = map fst d"
  by (induction d) (auto simp: dict_map_values_def)

lemma num_net_demand_of_ints:
  "num_net_demand_of (dict_map_values PyInt si) sid (PyInt demand)
     = PyInt (net_demand_of si sid demand)"
  by (simp add: num_net_demand_of_def net_demand_of_def dict_get_map_values py_max_ints)

lemma num_depot_candidates_ints:
  "num_depot_candidates sid (PyInt n) (dict_map_values PyInt di) lt
     = map (\<lambda>(did, qty, score). (did, PyInt qty, score)) (depot_candidates sid n di lt)"
proof (induction di)
  case Nil
  then show ?case by (simp add: dict_map_values_simps)
next
  case (Cons x di)
  obtain did available where x: "x = (did, available)" by (cases x)
  from Cons show ?case
    by (simp add: x dict_map_values_simps py_less_ints py_min_ints not_less split: option.splits)
qed

lemma insort_key_map:
  assumes "\<And>x y. g (f x) \<le> g (f y) \<longleftrightarrow> h x \<le> h y"
  shows "insort_key g (f x) (map f ys) = map f (insort_key h x ys)"
  using assms by (induction ys) simp_all

lemma sort_key_map:
  assumes "\<And>x y. g (f x) \<le> g (f y) \<longleftrightarrow> h x \<le> h y"
  shows "sort_key g (map f xs) = map f (sort_key h xs)"
proof (induction xs)
  case Nil
  then show ?case by simp
next
  case (Cons x xs)
  then show ?case
    by (simp add: insort_key_map [of g f h, OF assms])
qed

lemma num_find_best_depot_ints:
  "num_find_best_depot sid (PyInt n) (dict_map_values PyInt di) lt
     = map_option (\<lambda>(did, qty). (did, PyInt qty)) (find_best_depot sid n di lt)"
proof -
  let ?f = "\<lambda>(did, qty, score). (did, PyInt qty, score :: int)"
  have "sort_key (\<lambda>(did, qty, score). score) (map ?f (depot_candidates sid n di lt))
      = map ?f (sort_key (\<lambda>(did, qty, score). score) (depot_candidates sid n di lt))"
    by (rule sort_key_map) (simp add: case_prod_unfold)
  then show ?thesis
    by (simp add: num_find_best_depot_def find_best_depot_def num_depot_candidates_ints
        split: list.splits)
qed

lemma update_dict_map_values:
  "AList.update k (f v) (dict_map_values f d) = dict_map_values f (AList.update k v d)"
  by (induction d) (auto simp: dict_map_values_def)

lemma map_entry_dict_map_values:
  assumes "\<And>v. g (f v) = f (h v)"
  shows "AList.map_entry k g (dict_map_values f d) = dict_map_values f (AList.map_entry k h d)"
  using assms by (induction d) (auto simp: dict_map_values_def)

lemma num_plan_of_simps:
  "num_allocations (num_plan_of plan) =
     map (\<lambda>a. \<lparr>num_depot_id = depot_id a, num_site_id = alloc_site_id a,
                num_quantity = PyInt (alloc_quantity a),
                num_lead_time_days = lead_time_days a\<rparr>) (allocations plan)"
  "num_total_allocated (num_plan_of plan) = PyInt (total_allocated plan)"
  "num_unmet_demand (num_plan_of plan) = dict_map_values PyInt (unmet_demand plan)"
  "num_excess_inventory (num_plan_of plan) = dict_map_values PyInt (excess_inventory plan)"
  "num_optimization_score (num_plan_of plan) = optimization_score plan"
  by (simp_all add: num_plan_of_def)

lemma num_allocate_sites_ints:
  "num_allocate_sites lt (dict_map_values PyInt sites) (num_plan_of plan, dict_map_values PyInt stock)
     = (case allocate_sites lt sites (plan, stock) of
          (p, r) \<Rightarrow> (num_plan_of p, dict_map_values PyInt r))"
proof (induction sites arbitrary: plan stock)
  case Nil
  then show ?case by (simp add: dict_map_values_simps)
next
  case (Cons x sites)
  obtain sid n where x: "x = (sid, n)" by (cases x)
  show ?case
  proof (cases "n \<le> 0")
    case True
    with Cons.IH [of plan stock] show ?thesis
      by (simp add: x dict_map_values_simps py_less_ints)
  next
    case False
    show ?thesis
    proof (cases "find_best_depot sid n stock lt")
      case None
      let ?p = "plan\<lparr>unmet_demand := AList.update sid n (unmet_demand plan)\<rparr>"
      have "num_plan_of ?p
          = (num_plan_of plan)\<lparr>num_unmet_demand :=
               AList.update sid (PyInt n) (num_unmet_demand (num_plan_of plan))\<rparr>"
        by (simp add: num_plan_of_def update_dict_map_values)
      with Cons.IH [of ?p stock] False None show ?thesis
        by (simp add: x dict_map_values_simps py_less_ints num_find_best_depot_ints)
    next
      case (Some best)
      obtain did q where best: "best = (did, q)" by (cases best)
      let ?p = "plan\<lparr>allocations := allocations plan @
                            [\<lparr>depot_id = did, alloc_site_id = sid, alloc_quantity = q,
                              lead_time_days = dict_get (dict_get lt did []) sid 7\<rparr>],
                         total_allocated := total_allocated plan + q,
                         unmet_demand :=
                           (if q < n
                            then AList.update sid (n - q) (unmet_demand plan)
                            else unmet_demand plan)\<rparr>"
      let ?stock = "AList.map_entry did (\<lambda>v. v - q) stock"
      have p: "num_plan_of ?p
          = (num_plan_of plan)\<lparr>num_allocations := num_allocations (num_plan_of plan) @
                            [\<lparr>num_depot_id = did, num_site_id = sid, num_quantity = PyInt q,
                              num_lead_time_days = dict_get (dict_get lt did []) sid 7\<rparr>],
                         num_total_allocated := py_add (num_total_allocated (num_plan_of plan)) (PyInt q),
                         num_unmet_demand :=
                           (if py_less (PyInt q) (PyInt n)
                            then AList.update sid (py_sub (PyInt n) (PyInt q))
                                   (num_unmet_demand (num_plan_of plan))
                            else num_unmet_demand (num_plan_of plan))\<rparr>"
        by (simp add: num_plan_of_def update_dict_map_values py_less_ints)
      have i: "AList.map_entry did (\<lambda>v. py_sub v (PyInt q)) (dict_map_values PyInt stock)
          = dict_map_values PyInt ?stock"
        by (rule map_entry_dict_map_values) simp
      from Cons.IH [of ?p ?stock] False Some show ?thesis
        unfolding p [symmetric] i [symmetric]
        by (simp add: x best dict_map_values_simps py_less_ints num_find_best_depot_ints p i)
    qed
  qed
qed


lemma num_optimize_depot_allocation_ints:
  "num_optimize_depot_allocation (dict_map_values PyInt site_demands)
       (dict_map_values PyInt depot_inventory) (dict_map_values PyInt site_inventory) lead_times
     = num_plan_of (optimize_depot_allocation site_demands depot_inventory site_inventory
                      lead_times)"
proof -
  let ?net = "map (\<lambda>(sid, demand). (sid, net_demand_of site_inventory sid demand)) site_demands"
  let ?sorted = "sort_key (\<lambda>(sid, net_demand). - net_demand) ?net"
  let ?p0 = "\<lparr>allocations = [], total_allocated = 0, unmet_demand = [],
              excess_inventory = [], optimization_score = 0\<rparr>"
  have net: "map (\<lambda>(sid, demand).
                    (sid, num_net_demand_of (dict_map_values PyInt site_inventory) sid demand))
               (dict_map_values PyInt site_demands) = dict_map_values PyInt ?net"
    by (induction site_demands) (auto simp: dict_map_values_simps num_net_demand_of_ints)
  have sorted: "sort_key (\<lambda>(sid, net_demand). - num_val net_demand) (dict_map_values PyInt ?net)
               = dict_map_values PyInt ?sorted"
    unfolding dict_map_values_def by (rule sort_key_map) (simp add: case_prod_unfold)
  have p0: "\<lparr>num_allocations = [], num_total_allocated = PyInt 0, num_unmet_demand = [],
             num_excess_inventory = [], num_optimization_score = 0\<rparr> = num_plan_of ?p0"
    by (simp add: num_plan_of_def dict_map_values_def)
  obtain plan remaining where al: "allocate_sites lead_times ?sorted (?p0, depot_inventory)
      = (plan, remaining)"
    by (cases "allocate_sites lead_times ?sorted (?p0, depot_inventory)")
  have nal: "num_allocate_sites lead_times (dict_map_values PyInt ?sorted)
               (num_plan_of ?p0, dict_map_values PyInt depot_inventory)
             = (num_plan_of plan, dict_map_values PyInt remaining)"
    by (simp add: num_allocate_sites_ints al)
  have ex: "filter (\<lambda>(did, remaining). py_less (PyInt 0) remaining)
              (dict_map_values PyInt remaining)
            = dict_map_values PyInt (filter (\<lambda>(did, remaining). remaining > 0) remaining)"
    by (simp add: dict_map_values_def filter_map comp_def case_prod_unfold py_less_ints)
  have tot: "py_sum (map snd (dict_map_values PyInt ?net)) = PyInt (sum_list (map snd ?net))"
    by (simp only: map_snd_dict_map_values py_sum_ints)
  show ?thesis
    unfolding num_optimize_depot_allocation_def optimize_depot_allocation_def Let_def
      net sorted p0 nal al tot ex prod.case
    by (simp add: num_plan_of_def py_less_ints py_float_100)
qed

section \<open>The depot step of a run\<close>

subsection \<open>A single depot\<close>

lemma sum_max_nonneg: "0 \<le> sum_list (map (\<lambda>(s, n). max 0 (n::int)) sites)"
  by (induction sites) auto

lemma find_best_depot_single:
  assumes "map_of lead_times dep = Some st" and "map_of st s = Some lead" and "0 < r"
  shows "find_best_depot s n [(dep, r)] lead_times = Some (dep, min n r)"
  using assms by (simp add: find_best_depot_def)

lemma find_best_depot_empty:
  assumes "r \<le> 0"
  shows "find_best_depot s n [(dep, r)] lead_times = None"
  using assms by (simp add: find_best_depot_def)

lemma update_nonempty: "AList.update k v al \<noteq> []"
  by (cases al) auto

lemma allocate_sites_unmet_stays:
  assumes "unmet_demand plan \<noteq> []"
  shows "unmet_demand (fst (allocate_sites lead_times sites (plan, stock))) \<noteq> []"
  using assms
proof (induction sites arbitrary: plan stock)
  case Nil
  then show ?case by simp
next
  case (Cons x sites)
  obtain s n where x: "x = (s, n)" by (cases x)
  show ?case
  proof (cases "n \<le> 0")
    case True
    with Cons show ?thesis by (simp add: x)
  next
    case False
    show ?thesis
    proof (cases "find_best_depot s n stock lead_times")
      case None
      have "unmet_demand (plan\<lparr>unmet_demand := AList.update s n (unmet_demand plan)\<rparr>) \<noteq> []"
        by (simp add: update_nonempty)
      from Cons.IH [OF this] False None show ?thesis
        by (simp add: x)
    next
      case (Some best)
      obtain did q where best: "best = (did, q)" by (cases best)
      let ?p = "plan\<lparr>allocations := allocations plan @
                            [\<lparr>depot_id = did, alloc_site_id = s, alloc_quantity = q,
                              lead_time_days = dict_get (dict_get lead_times did []) s 7\<rparr>],
                         total_allocated := total_allocated plan + q,
                         unmet_demand :=
                           (if q < n
                            then AList.update s (n - q) (unmet_demand plan)
                            else unmet_demand plan)\<rparr>"
      have "unmet_demand ?p \<noteq> []"
        using Cons.prems by (simp add: update_nonempty)
      from Cons.IH [OF this] False Some show ?thesis
        by (simp add: x best)
    qed
  qed
qed

text \<open>
  With one depot that serves every site of positive net demand, nothing stays unmet
  exactly when there is no positive net demand or the depot holds the total of it.
\<close>

lemma allocate_sites_single_depot_unmet:
  assumes "map_of lead_times dep = Some st"
    and "\<forall>(s, n) \<in> set sites. 0 < n \<longrightarrow> map_of st s \<noteq> None"
  shows "unmet_demand (fst (allocate_sites lead_times sites (plan, [(dep, r)]))) = []
     \<longleftrightarrow> unmet_demand plan = []
         \<and> (sum_list (map (\<lambda>(s, n). max 0 n) sites) = 0
            \<or> sum_list (map (\<lambda>(s, n). max 0 n) sites) \<le> r)"
  using assms(2)
proof (induction sites arbitrary: plan r)
  case Nil
  then show ?case by simp
next
  case (Cons x sites)
  obtain s n where x: "x = (s, n)" by (cases x)
  let ?rest = "sum_list (map (\<lambda>(s, n). max 0 n) sites)"
  have rest: "0 \<le> ?rest" by (rule sum_max_nonneg)
  from Cons.prems have cov: "\<forall>(s, n) \<in> set sites. 0 < n \<longrightarrow> map_of st s \<noteq> None"
    by simp
  show ?case
  proof (cases "n \<le> 0")
    case True
    with Cons.IH [OF cov, of plan r] show ?thesis
      by (simp add: x)
  next
    case False
    from Cons.prems False obtain lead where lead: "map_of st s = Some lead"
      by (auto simp: x)
    show ?thesis
    proof (cases "n \<le> r")
      case True
      with False have rp: "0 < r" and nr: "min n r = n" by simp_all
      have best: "find_best_depot s n [(dep, r)] lead_times = Some (dep, n)"
        using find_best_depot_single [OF assms(1) lead rp, of n] nr by simp
      let ?p1 = "plan\<lparr>allocations := allocations plan @
                          [\<lparr>depot_id = dep, alloc_site_id = s, alloc_quantity = n,
                            lead_time_days = dict_get (dict_get lead_times dep []) s 7\<rparr>],
                        total_allocated := total_allocated plan + n,
                        unmet_demand := unmet_demand plan\<rparr>"
      have step: "allocate_sites lead_times (x # sites) (plan, [(dep, r)])
                    = allocate_sites lead_times sites (?p1, [(dep, r - n)])"
        using False best by (simp add: x)
      from Cons.IH [OF cov, of ?p1 "r - n"] False True rest show ?thesis
        unfolding step by (auto simp: x)
    next
      case big: False
      let ?p1 = "(if 0 < r
                  then plan\<lparr>allocations := allocations plan @
                          [\<lparr>depot_id = dep, alloc_site_id = s, alloc_quantity = r,
                            lead_time_days = dict_get (dict_get lead_times dep []) s 7\<rparr>],
                        total_allocated := total_allocated plan + r,
                        unmet_demand := AList.update s (n - r) (unmet_demand plan)\<rparr>
                  else plan\<lparr>unmet_demand := AList.update s n (unmet_demand plan)\<rparr>)"
      let ?stock = "(if 0 < r then [(dep, 0)] else [(dep, r)])"
      have step: "allocate_sites lead_times (x # sites) (plan, [(dep, r)])
                    = allocate_sites lead_times sites (?p1, ?stock)"
      proof (cases "0 < r")
        case True
        with big have nr: "min n r = r" by simp
        have "find_best_depot s n [(dep, r)] lead_times = Some (dep, r)"
          using find_best_depot_single [OF assms(1) lead True, of n] nr by simp
        with False big True show ?thesis
          by (simp add: x)
      next
        case r0: False
        then have "find_best_depot s n [(dep, r)] lead_times = None"
          by (simp add: find_best_depot_empty)
        with False r0 show ?thesis
          by (simp add: x)
      qed
      have "unmet_demand ?p1 \<noteq> []"
        by (simp add: update_nonempty)
      from allocate_sites_unmet_stays [OF this]
      have "unmet_demand (fst (allocate_sites lead_times (x # sites) (plan, [(dep, r)]))) \<noteq> []"
        unfolding step by simp
      moreover have "\<not> (sum_list (map (\<lambda>(s, n). max 0 n) (x # sites)) = 0
            \<or> sum_list (map (\<lambda>(s, n). max 0 n) (x # sites)) \<le> r)"
        using False big rest by (simp add: x)
      ultimately show ?thesis
        by simp
    qed
  qed
qed

lemma allocate_sites_single_depot:
  assumes "map_of lead_times dep = Some st"
    and "\<forall>(s, n) \<in> set sites. 0 < n \<longrightarrow> map_of st s \<noteq> None"
    and "sum_list (map (\<lambda>(s, n). max 0 n) sites) \<le> r"
  shows "total_allocated (fst (allocate_sites lead_times sites (plan, [(dep, r)])))
           = total_allocated plan + sum_list (map (\<lambda>(s, n). max 0 n) sites)"
  using assms(2,3)
proof (induction sites arbitrary: plan r)
  case Nil
  then show ?case by simp
next
  case (Cons x sites)
  obtain s n where x: "x = (s, n)" by (cases x)
  let ?rest = "sum_list (map (\<lambda>(s, n). max 0 n) sites)"
  have rest: "0 \<le> ?rest" by (rule sum_max_nonneg)
  from Cons.prems(1) have cov: "\<forall>(s, n) \<in> set sites. 0 < n \<longrightarrow> map_of st s \<noteq> None"
    by simp
  show ?case
  proof (cases "n \<le> 0")
    case True
    with Cons.prems(2) have "?rest \<le> r" by (simp add: x)
    from Cons.IH [OF cov this, of plan] True show ?thesis
      by (simp add: x)
  next
    case False
    from Cons.prems(1) False obtain lead where lead: "map_of st s = Some lead"
      by (auto simp: x)
    from Cons.prems(2) False have r: "n + ?rest \<le> r"
      by (simp add: x)
    with rest False have rp: "0 < r" and nr: "min n r = n" and r1: "?rest \<le> r - n"
      by simp_all
    have best: "find_best_depot s n [(dep, r)] lead_times = Some (dep, n)"
      using find_best_depot_single [OF assms(1) lead rp, of n] nr by simp
    let ?p1 = "plan\<lparr>allocations := allocations plan @
                        [\<lparr>depot_id = dep, alloc_site_id = s, alloc_quantity = n,
                          lead_time_days = dict_get (dict_get lead_times dep []) s 7\<rparr>],
                      total_allocated := total_allocated plan + n,
                      unmet_demand := unmet_demand plan\<rparr>"
    have step: "allocate_sites lead_times (x # sites) (plan, [(dep, r)])
                  = allocate_sites lead_times sites (?p1, [(dep, r - n)])"
      using False best by (simp add: x)
    from Cons.IH [OF cov r1, of ?p1] False show ?thesis
      unfolding step by (simp add: x)
  qed
qed

lemma fl_1: "fl 1 = 1"
  by code_simp

lemma fl_100: "fl 100 = 100"
  by code_simp

lemma map_fst_const_values: "map fst (map (\<lambda>(k, v). (k, c)) xs) = map fst xs"
  by (induction xs) auto

lemma dict_of_items_single: "dict_of_items [(k, v)] = [(k, v)]"
  by (simp add: dict_of_items_def)

text \<open>The optimizer on ints with the one depot of the depot step.\<close>

lemma optimize_single_depot:
  fixes site_demands site_inventory :: "(string \<times> int) list" and dep :: string and r :: int
  defines "lead_times \<equiv> [(dep, map (\<lambda>(sid, q). (sid, 7::int)) site_demands)]"
  defines "tnet \<equiv> sum_list (map (\<lambda>(sid, demand). net_demand_of site_inventory sid demand)
                                  site_demands)"
  defines "plan \<equiv> optimize_depot_allocation site_demands [(dep, r)] site_inventory lead_times"
  shows "unmet_demand plan = [] \<longleftrightarrow> tnet = 0 \<or> tnet \<le> r"
    and "unmet_demand plan = [] \<Longrightarrow> optimization_score plan = (if 0 < tnet then 100 else 0)"
proof -
  let ?D = site_demands
  let ?I = site_inventory
  let ?st = "map (\<lambda>(sid, q). (sid, 7::int)) ?D"
  let ?netf = "\<lambda>(sid, demand). net_demand_of ?I sid demand"
  let ?net = "map (\<lambda>(sid, demand). (sid, net_demand_of ?I sid demand)) ?D"
  let ?sorted = "sort_key (\<lambda>(sid, net_demand). - net_demand) ?net"
  let ?p0 = "\<lparr>allocations = [], total_allocated = 0, unmet_demand = [],
              excess_inventory = [], optimization_score = 0\<rparr>"
  have ms: "mset ?sorted = mset ?net"
    by simp
  have s1: "sum_list (map (\<lambda>(s, n). max 0 n) ?sorted) = sum_list (map (\<lambda>(s, n). max 0 n) ?net)"
    using ms by (rule sum_list_map_mset_cong)
  have s2: "sum_list (map (\<lambda>(s, n). max 0 n) ?net) = tnet"
    unfolding tnet_def by (simp add: case_prod_unfold comp_def net_demand_of_nonneg)
  have tot: "sum_list (map (\<lambda>(s, n). max 0 n) ?sorted) = tnet"
    using s1 s2 by simp
  have ml: "map_of lead_times dep = Some ?st"
    by (simp add: lead_times_def)
  have cov: "\<forall>(s, n) \<in> set ?sorted. 0 < n \<longrightarrow> map_of ?st s \<noteq> None"
  proof -
    have "map_of ?st s \<noteq> None" if "(s, n) \<in> set ?sorted" for s n
    proof -
      from that have "s \<in> fst ` set ?D"
        by (auto simp: rev_image_eqI)
      then have "s \<in> set (map fst ?D)"
        by simp
      then have "s \<in> set (map fst ?st)"
        by (simp only: map_fst_const_values)
      then have "s \<in> fst ` set ?st"
        by (simp only: set_map)
      then show ?thesis
        by (simp only: map_of_eq_None_iff not_not)
    qed
    then show ?thesis by blast
  qed
  obtain plan' remaining where al: "allocate_sites lead_times ?sorted (?p0, [(dep, r)])
      = (plan', remaining)"
    by (cases "allocate_sites lead_times ?sorted (?p0, [(dep, r)])")
  note f = optimize_depot_allocation_fields [OF al]
  from allocate_sites_single_depot_unmet [OF ml cov, of ?p0 r]
  have un: "unmet_demand plan' = [] \<longleftrightarrow> tnet = 0 \<or> tnet \<le> r"
    unfolding al tot by simp
  then show iff: "unmet_demand plan = [] \<longleftrightarrow> tnet = 0 \<or> tnet \<le> r"
    unfolding plan_def f(3) .
  have nn: "0 \<le> tnet"
    unfolding tnet_def by (intro sum_list_nonneg) (auto simp: net_demand_of_nonneg)
  show "optimization_score plan = (if 0 < tnet then 100 else 0)" if "unmet_demand plan = []"
  proof (cases "0 < tnet")
    case True
    with that iff have "tnet \<le> r" by simp
    then have "sum_list (map (\<lambda>(s, n). max 0 n) ?sorted) \<le> r"
      by (simp only: tot)
    from allocate_sites_single_depot [OF ml cov this, of ?p0]
    have ta: "total_allocated plan' = tnet"
      unfolding al tot by simp
    from True have "(of_int tnet :: rat) / of_int tnet = 1"
      by simp
    with True show ?thesis
      unfolding plan_def f(4) ta Let_def tnet_def [symmetric] by (simp add: fl_1 fl_100)
  next
    case False
    then show ?thesis
      unfolding plan_def f(4) Let_def tnet_def [symmetric] by simp
  qed
qed

text \<open>The inputs that the depot step builds.\<close>

lemma depot_step_plan:
  assumes "ds \<noteq> []"
  shows "depot_step ds
     = Some (num_optimize_depot_allocation (depot_site_demands ds)
               [(''DEPOT_001'', py_mul (py_sum (map snd (depot_site_demands ds))) (PyInt 2))]
               (dict_map_values PyInt (depot_site_inventory ds))
               [(''DEPOT_001'', map (\<lambda>(sid, q). (sid, 7)) (depot_site_demands ds))])"
proof -
  let ?D = "depot_site_demands ds"
  let ?st = "map (\<lambda>(sid, q). (sid, 7::int)) ?D"
  have dD: "distinct (map fst ?D)"
    by (simp add: depot_site_demands_def distinct_dict_of_items)
  have "distinct (map fst ?st)"
    using dD by (simp only: map_fst_const_values)
  then have dst: "dict_of_items ?st = ?st"
    by (rule dict_of_items_distinct)
  have lt: "depot_lead_times ?D (depot_depot_inventory ?D) = [(''DEPOT_001'', ?st)]"
    by (simp add: depot_lead_times_def depot_depot_inventory_def dict_of_items_single dst)
  show ?thesis
    using assms lt by (simp add: depot_step_def Let_def depot_depot_inventory_def)
qed

text \<open>Demands that are all ints.\<close>

lemma dict_map_values_ints:
  assumes "\<forall>(sid, q) \<in> set d. \<exists>i. q = PyInt i"
  shows "dict_map_values PyInt (dict_map_values (\<lambda>q. \<lfloor>num_val q\<rfloor>) d) = d"
  using assms by (induction d) (auto simp: dict_map_values_def)

lemma net_demand_total_ints:
  "net_demand_total (dict_map_values PyInt d) site_inventory
     = of_int (sum_list (map (\<lambda>(sid, demand). net_demand_of site_inventory sid demand) d))"
  by (induction d) (auto simp: net_demand_total_def dict_map_values_def net_demand_of_def max_def)

lemma demand_total_ints: "demand_total (dict_map_values PyInt d) = of_int (sum_list (map snd d))"
  by (induction d) (auto simp: demand_total_def dict_map_values_def)

lemma depot_step_ints:
  fixes d site_inventory :: "(string \<times> int) list"
  defines "plan \<equiv> num_optimize_depot_allocation (dict_map_values PyInt d)
               [(''DEPOT_001'', py_mul (py_sum (map snd (dict_map_values PyInt d))) (PyInt 2))]
               (dict_map_values PyInt site_inventory)
               [(''DEPOT_001'', map (\<lambda>(sid, q). (sid, 7)) (dict_map_values PyInt d))]"
  shows "num_unmet_demand plan = []
           \<longleftrightarrow> net_demand_total (dict_map_values PyInt d) site_inventory = 0
               \<or> net_demand_total (dict_map_values PyInt d) site_inventory
                   \<le> 2 * demand_total (dict_map_values PyInt d)"
    and "num_unmet_demand plan = []
           \<Longrightarrow> num_optimization_score plan
               = (if 0 < net_demand_total (dict_map_values PyInt d) site_inventory then 100 else 0)"
proof -
  let ?r = "sum_list (map snd d) * 2"
  let ?lt = "[(''DEPOT_001'', map (\<lambda>(sid, q). (sid, 7::int)) d)]"
  let ?p = "optimize_depot_allocation d [(''DEPOT_001'', ?r)] site_inventory ?lt"
  let ?tnet = "sum_list (map (\<lambda>(sid, demand). net_demand_of site_inventory sid demand) d)"
  have di: "[(''DEPOT_001'', py_mul (py_sum (map snd (dict_map_values PyInt d))) (PyInt 2))]
      = dict_map_values PyInt [(''DEPOT_001'', ?r)]"
  proof -
    have "py_sum (map snd (dict_map_values PyInt d)) = PyInt (sum_list (map snd d))"
      by (simp only: map_snd_dict_map_values py_sum_ints)
    then show ?thesis
      by (simp add: dict_map_values_simps)
  qed
  have lt: "map (\<lambda>(sid, q). (sid, 7::int)) (dict_map_values PyInt d)
      = map (\<lambda>(sid, q). (sid, 7)) d"
    by (simp add: dict_map_values_def case_prod_unfold)
  have plan: "plan = num_plan_of ?p"
    unfolding plan_def di lt by (rule num_optimize_depot_allocation_ints)
  have un: "num_unmet_demand plan = [] \<longleftrightarrow> unmet_demand ?p = []"
    by (simp add: plan num_plan_of_def dict_map_values_def)
  have sc: "num_optimization_score plan = optimization_score ?p"
    by (simp add: plan num_plan_of_def)
  have nt: "net_demand_total (dict_map_values PyInt d) site_inventory = of_int ?tnet"
    by (rule net_demand_total_ints)
  have dt: "2 * demand_total (dict_map_values PyInt d) = of_int ?r"
    by (simp add: demand_total_ints)
  note o = optimize_single_depot [where dep = "''DEPOT_001''" and site_demands = d and r = ?r
      and site_inventory = site_inventory]
  show "num_unmet_demand plan = []
           \<longleftrightarrow> net_demand_total (dict_map_values PyInt d) site_inventory = 0
               \<or> net_demand_total (dict_map_values PyInt d) site_inventory
                   \<le> 2 * demand_total (dict_map_values PyInt d)"
  proof -
    have "num_unmet_demand plan = [] \<longleftrightarrow> ?tnet = 0 \<or> ?tnet \<le> ?r"
      using un o(1) by simp
    also have "\<dots> \<longleftrightarrow> (of_int ?tnet :: rat) = 0 \<or> (of_int ?tnet :: rat) \<le> of_int ?r"
      by (simp only: of_int_eq_0_iff of_int_le_iff)
    finally show ?thesis
      by (simp only: nt dt)
  qed
  show "num_optimization_score plan
               = (if 0 < net_demand_total (dict_map_values PyInt d) site_inventory then 100 else 0)"
    if "num_unmet_demand plan = []"
  proof -
    from that un have "unmet_demand ?p = []" by simp
    from o(2) [OF this] show ?thesis
      unfolding sc nt by simp
  qed
qed

subsection \<open>Evaluated depot steps\<close>

lemma enrich_inventory:
  assumes "result_current_inventory d = None"
    and "result_current_inventory (enrich sl d) = Some i"
  shows "\<exists>row \<in> set sl. i = current_inventory row"
proof -
  from assms obtain row where "find (\<lambda>r. site_id r = result_site_id d) sl = Some row"
    and "i = current_inventory row"
    by (auto simp: enrich_def split: option.splits)
  then show ?thesis
    by (auto simp: find_Some_iff)
qed

lemma run_negative_inventory_example:
  "(case Orchestrator_init default_config of
      Inl e \<Rightarrow> False
    | Inr self \<Rightarrow>
        (case run default_config (example_remote 10) no_schedule self [negative_inventory_site] of
           Inl e \<Rightarrow> False
         | Inr (out, self') \<Rightarrow>
             map (\<lambda>d. (result_site_id d, action d, quantity d, llm_used d,
                        result_current_inventory d)) (results out)
               = [(''SITE_001'', ''resupply'', PyInt 10, True, Some (- 30))]
             \<and> (case depot_optimization out of
                None \<Rightarrow> False
              | Some plan \<Rightarrow>
                  num_unmet_demand plan = [(''SITE_001'', PyInt 20)]
                  \<and> num_optimization_score plan = 50
                  \<and> num_total_allocated plan = PyInt 20)))"
  by code_simp

lemma run_fractional_example:
  "(case Orchestrator_init default_config of
      Inl e \<Rightarrow> False
    | Inr self \<Rightarrow>
        (case run default_config fractional_remote no_schedule self
                [stockout_site ''SITE_001'', stockout_site ''SITE_002'',
                 stockout_site ''SITE_003''] of
           Inl e \<Rightarrow> False
         | Inr (out, self') \<Rightarrow>
             map (\<lambda>d. (result_site_id d, action d, llm_used d, result_current_inventory d))
                 (results out)
               = [(''SITE_001'', ''resupply'', True, Some 0),
                  (''SITE_002'', ''resupply'', True, Some 0),
                  (''SITE_003'', ''resupply'', True, Some 0)]
             \<and> 0 < net_demand_total (depot_site_demands (results out))
                     (depot_site_inventory (results out))
             \<and> (case depot_optimization out of
                None \<Rightarrow> False
              | Some plan \<Rightarrow>
                  num_unmet_demand plan = []
                  \<and> num_total_allocated plan = PyFloat (7205759403792793 / 9007199254740992)
                  \<and> num_optimization_score plan = 100 - 1 / 2 ^ 46)))"
  by code_simp

lemma run_default_example:
  "(case Orchestrator_init default_config of
      Inl e \<Rightarrow> False
    | Inr self \<Rightarrow>
        (case run default_config (example_remote 70) no_schedule self [example_site ''SITE_001''] of
           Inl e \<Rightarrow> False
         | Inr (out, self') \<Rightarrow>
             map (\<lambda>d. (result_site_id d, action d, quantity d, llm_used d,
                        result_current_inventory d)) (results out)
               = [(''SITE_001'', ''resupply'', PyInt 70, True, Some 50)]))"
  by code_simp

subsection \<open>Coverage of the demand\<close>

lemma rules_decision_quantity:
  "\<exists>q. quantity (process_site_with_rules row sid) = PyInt q
     \<and> (action (process_site_with_rules row sid) = ''resupply'' \<longrightarrow> 0 \<le> q)"
  using recommend_resupply_valid [of row]
  by (auto simp: process_site_with_rules_def Let_def MIN_ORDER_QUANTITY_def)

lemma depot_site_demands_member:
  assumes "(sid, q) \<in> set (depot_site_demands ds)"
  shows "\<exists>d \<in> set ds. action d = ''resupply'' \<and> quantity d = q"
proof -
  from assms set_dict_of_items
  have "(sid, q) \<in> set (map (\<lambda>r. (result_site_id r, quantity r))
                            (filter (\<lambda>r. action r = ''resupply'') ds))"
    unfolding depot_site_demands_def by blast
  then show ?thesis by auto
qed

lemma depot_site_inventory_nonneg:
  assumes "\<forall>d \<in> set ds. \<forall>i. result_current_inventory d = Some i \<longrightarrow> 0 \<le> i"
  shows "0 \<le> dict_get (depot_site_inventory ds) sid 0"
proof (cases "map_of (depot_site_inventory ds) sid")
  case None
  then show ?thesis by (simp add: dict_get_def)
next
  case (Some i)
  then have "(sid, i) \<in> set (depot_site_inventory ds)"
    by (rule map_of_SomeD)
  with set_dict_of_items
  have "(sid, i) \<in> set (map (\<lambda>r. (result_site_id r,
                         (case result_current_inventory r of None \<Rightarrow> 0 | Some i \<Rightarrow> i))) ds)"
    unfolding depot_site_inventory_def by blast
  with assms have "0 \<le> i"
    by (auto split: option.splits)
  with Some show ?thesis by (simp add: dict_get_def)
qed

lemma net_demand_total_Cons:
  "net_demand_total ((sid, q) # site_demands) site_inventory
     = max 0 (num_val q - of_int (dict_get site_inventory sid 0))
       + net_demand_total site_demands site_inventory"
  by (simp add: net_demand_total_def)

lemma demand_total_Cons:
  "demand_total ((sid, q) # site_demands) = num_val q + demand_total site_demands"
  by (simp add: demand_total_def)

lemma net_demand_total_le:
  assumes "\<forall>(sid, q) \<in> set site_demands. 0 \<le> num_val q"
    and "\<And>sid. 0 \<le> dict_get site_inventory sid 0"
  shows "net_demand_total site_demands site_inventory \<le> 2 * demand_total site_demands"
proof -
  have "net_demand_total site_demands site_inventory \<le> demand_total site_demands
        \<and> 0 \<le> demand_total site_demands"
    using assms(1)
  proof (induction site_demands)
    case Nil
    then show ?case by (simp add: net_demand_total_def demand_total_def)
  next
    case (Cons x site_demands)
    obtain sid q where x: "x = (sid, q)" by (cases x)
    from Cons.prems have q: "0 \<le> num_val q" by (simp add: x)
    from assms(2) [of sid] have "(0::rat) \<le> of_int (dict_get site_inventory sid 0)"
      by simp
    with q have h: "max 0 (num_val q - of_int (dict_get site_inventory sid 0)) \<le> num_val q"
      by simp
    from Cons have ih: "net_demand_total site_demands site_inventory \<le> demand_total site_demands"
      and nn: "0 \<le> demand_total site_demands"
      by simp_all
    have "net_demand_total ((sid, q) # site_demands) site_inventory
            \<le> demand_total ((sid, q) # site_demands)"
      unfolding net_demand_total_Cons demand_total_Cons using h ih by (rule add_mono)
    moreover have "0 \<le> demand_total ((sid, q) # site_demands)"
      unfolding demand_total_Cons using q nn by (rule add_nonneg_nonneg)
    ultimately show ?case
      unfolding x by (rule conjI)
  qed
  then show ?thesis by simp
qed

text \<open>
  C10 (as stated, refuted): \<open>unmet_demand\<close> can be non-empty, and the score can miss 100
  while \<open>unmet_demand\<close> is empty. Net demand is the resupply quantity minus the site
  inventory, so a site with a negative inventory count has a net demand above its
  quantity: for the site with inventory -30 and a reasoning answer of \<open>resupply\<close> with
  quantity 10, the depot holds 20, the net demand is 40, 20 stay unmet and the score is
  50. The quantities of the reasoning lane are JSON numbers that the orchestrator copies
  without a cast: for three sites without stock and the answers 0.1, 0.2 and 0.5,
  \<open>total_demand\<close> is the float sum in dictionary order, 0.8, and \<open>total_allocated\<close> is the
  float sum in allocation order, 0.5 + 0.2 + 0.1 = 0.7999999999999999; nothing is unmet
  and the score is 99.99999999999999.
\<close>

theorem depot_step_full_coverage_counterexample:
  "(\<exists>self out self' plan. Orchestrator_init default_config = Inr self
      \<and> run default_config (example_remote 10) no_schedule self [negative_inventory_site]
            = Inr (out, self')
      \<and> depot_optimization out = Some plan
      \<and> num_unmet_demand plan = [(''SITE_001'', PyInt 20)]
      \<and> num_optimization_score plan = 50)
   \<and> (\<exists>self out self' plan. Orchestrator_init default_config = Inr self
      \<and> run default_config fractional_remote no_schedule self
            [stockout_site ''SITE_001'', stockout_site ''SITE_002'', stockout_site ''SITE_003'']
            = Inr (out, self')
      \<and> depot_optimization out = Some plan
      \<and> 0 < net_demand_total (depot_site_demands (results out))
              (depot_site_inventory (results out))
      \<and> num_unmet_demand plan = []
      \<and> num_total_allocated plan = PyFloat (7205759403792793 / 9007199254740992)
      \<and> num_optimization_score plan = 100 - 1 / 2 ^ 46
      \<and> num_optimization_score plan < 100)"
proof
  from run_negative_inventory_example
  show "\<exists>self out self' plan. Orchestrator_init default_config = Inr self
      \<and> run default_config (example_remote 10) no_schedule self [negative_inventory_site]
            = Inr (out, self')
      \<and> depot_optimization out = Some plan
      \<and> num_unmet_demand plan = [(''SITE_001'', PyInt 20)]
      \<and> num_optimization_score plan = 50"
    by (auto split: sum.splits prod.splits option.splits)
  from run_fractional_example
  obtain self out self' plan where "Orchestrator_init default_config = Inr self"
      "run default_config fractional_remote no_schedule self
            [stockout_site ''SITE_001'', stockout_site ''SITE_002'', stockout_site ''SITE_003'']
            = Inr (out, self')"
      "depot_optimization out = Some plan"
      "0 < net_demand_total (depot_site_demands (results out))
              (depot_site_inventory (results out))"
      "num_unmet_demand plan = []"
      "num_total_allocated plan = PyFloat (7205759403792793 / 9007199254740992)"
      "num_optimization_score plan = 100 - 1 / 2 ^ 46"
    by (auto split: sum.splits prod.splits option.splits)
  moreover from this(7) have "num_optimization_score plan < 100"
    by simp
  ultimately show "\<exists>self out self' plan. Orchestrator_init default_config = Inr self
      \<and> run default_config fractional_remote no_schedule self
            [stockout_site ''SITE_001'', stockout_site ''SITE_002'', stockout_site ''SITE_003'']
            = Inr (out, self')
      \<and> depot_optimization out = Some plan
      \<and> 0 < net_demand_total (depot_site_demands (results out))
              (depot_site_inventory (results out))
      \<and> num_unmet_demand plan = []
      \<and> num_total_allocated plan = PyFloat (7205759403792793 / 9007199254740992)
      \<and> num_optimization_score plan = 100 - 1 / 2 ^ 46
      \<and> num_optimization_score plan < 100"
    by blast
qed

text \<open>
  C10 (amended): in a run over at least one site, the depot step is fed the demands of
  the resupply decisions, the single depot \<open>DEPOT_001\<close> with twice the sum of these demands
  and a lead time of 7 days for every demand site. When every resupply quantity of the
  reasoning lane is an int, \<open>unmet_demand\<close> is empty exactly when the total net demand is
  zero or at most twice the total demand, and then \<open>optimization_score\<close> is exactly 100
  if some site has a positive net demand, and 0 otherwise. This is the case whenever
  moreover no site inventory and no resupply quantity of the reasoning lane is negative.
\<close>

theorem run_depot_step_covers_demand:
  assumes "Orchestrator_init cfg = Inr self"
    and "run cfg rem sched self site_features = Inr (out, self')"
    and "site_features \<noteq> []"
  shows "\<exists>plan. depot_optimization out = Some plan
     \<and> plan = num_optimize_depot_allocation (depot_site_demands (results out))
                [(''DEPOT_001'',
                  py_mul (py_sum (map snd (depot_site_demands (results out)))) (PyInt 2))]
                (dict_map_values PyInt (depot_site_inventory (results out)))
                [(''DEPOT_001'', map (\<lambda>(sid, q). (sid, 7)) (depot_site_demands (results out)))]
     \<and> ((\<forall>d \<in> set (results out).
            llm_used d \<longrightarrow> action d = ''resupply'' \<longrightarrow> (\<exists>q. quantity d = PyInt q))
          \<longrightarrow> (num_unmet_demand plan = []
                \<longleftrightarrow> net_demand_total (depot_site_demands (results out))
                        (depot_site_inventory (results out)) = 0
                    \<or> net_demand_total (depot_site_demands (results out))
                        (depot_site_inventory (results out))
                        \<le> 2 * demand_total (depot_site_demands (results out)))
              \<and> (num_unmet_demand plan = []
                  \<longrightarrow> num_optimization_score plan
                        = (if 0 < net_demand_total (depot_site_demands (results out))
                                    (depot_site_inventory (results out))
                           then 100 else 0))
              \<and> ((\<forall>row \<in> set site_features. 0 \<le> current_inventory row)
                  \<and> (\<forall>d \<in> set (results out).
                        llm_used d \<longrightarrow> action d = ''resupply'' \<longrightarrow> 0 \<le> num_val (quantity d))
                  \<longrightarrow> num_unmet_demand plan = []))"
proof -
  let ?sl = "sort_sites site_features"
  let ?D = "depot_site_demands (results out)"
  let ?I = "depot_site_inventory (results out)"
  let ?plan = "num_optimize_depot_allocation ?D
                [(''DEPOT_001'', py_mul (py_sum (map snd ?D)) (PyInt 2))]
                (dict_map_values PyInt ?I)
                [(''DEPOT_001'', map (\<lambda>(sid, q). (sid, 7)) ?D)]"
  from run_results_pre [OF assms(1,2)] obtain order pre
    where m: "mset order = mset site_features" and a: "list_all2 (lane_ok rem) order pre"
      and o: "results out = map (enrich ?sl) pre"
      and dp: "depot_optimization out = depot_step (results out)"
    by blast
  have "length (results out) = length site_features"
    using list_all2_lengthD [OF a] mset_eq_length [OF m] by (simp add: o)
  with assms(3) have ne: "results out \<noteq> []"
    by auto
  have plan: "depot_optimization out = Some ?plan"
    using dp depot_step_plan [OF ne] by simp
  have origin: "\<exists>row d0. lane_ok rem row d0 \<and> d = enrich ?sl d0" if "d \<in> set (results out)" for d
    using run_result_origin [OF assms(1,2) that] by blast
  have rule_q: "\<exists>q. quantity d = PyInt q \<and> (action d = ''resupply'' \<longrightarrow> 0 \<le> q)"
    if "d \<in> set (results out)" "\<not> llm_used d" for d
  proof -
    from origin [OF that(1)] obtain row d0 where l: "lane_ok rem row d0" and d: "d = enrich ?sl d0"
      by blast
    from lane_ok_cases [OF l] that(2) d have "d0 = process_site_with_rules row (site_id row)"
      by auto
    with rules_decision_quantity [of row "site_id row"] d show ?thesis
      by simp
  qed
  have sl: "set ?sl = set site_features"
    using mset_sort_sites [of site_features] by (rule mset_eq_setD)
  have part: "(num_unmet_demand ?plan = []
                \<longleftrightarrow> net_demand_total ?D ?I = 0 \<or> net_demand_total ?D ?I \<le> 2 * demand_total ?D)
              \<and> (num_unmet_demand ?plan = []
                  \<longrightarrow> num_optimization_score ?plan
                        = (if 0 < net_demand_total ?D ?I then 100 else 0))
              \<and> ((\<forall>row \<in> set site_features. 0 \<le> current_inventory row)
                  \<and> (\<forall>d \<in> set (results out).
                        llm_used d \<longrightarrow> action d = ''resupply'' \<longrightarrow> 0 \<le> num_val (quantity d))
                  \<longrightarrow> num_unmet_demand ?plan = [])"
    if ints: "\<forall>d \<in> set (results out).
            llm_used d \<longrightarrow> action d = ''resupply'' \<longrightarrow> (\<exists>q. quantity d = PyInt q)"
  proof -
    have "\<exists>i. q = PyInt i" if "(sid, q) \<in> set ?D" for sid q
    proof -
      from depot_site_demands_member [OF that] obtain d
        where d: "d \<in> set (results out)" "action d = ''resupply''" "quantity d = q"
        by blast
      show ?thesis
      proof (cases "llm_used d")
        case True
        with ints d show ?thesis by blast
      next
        case False
        with rule_q [OF d(1)] d(3) show ?thesis by blast
      qed
    qed
    then have "\<forall>(sid, q) \<in> set ?D. \<exists>i. q = PyInt i"
      by blast
    from dict_map_values_ints [OF this]
    obtain Dint :: "(string \<times> int) list" where D: "?D = dict_map_values PyInt Dint"
      by metis
    note s = depot_step_ints [of Dint ?I, folded D]
    have iff: "num_unmet_demand ?plan = []
                \<longleftrightarrow> net_demand_total ?D ?I = 0 \<or> net_demand_total ?D ?I \<le> 2 * demand_total ?D"
      by (rule s(1))
    have score: "num_unmet_demand ?plan = []
                  \<longrightarrow> num_optimization_score ?plan
                        = (if 0 < net_demand_total ?D ?I then 100 else 0)"
      using s(2) by blast
    have cover: "num_unmet_demand ?plan = []"
      if inv: "\<forall>row \<in> set site_features. 0 \<le> current_inventory row"
        and q: "\<forall>d \<in> set (results out).
                  llm_used d \<longrightarrow> action d = ''resupply'' \<longrightarrow> 0 \<le> num_val (quantity d)"
    proof -
      have Dq: "\<forall>(sid, q) \<in> set ?D. 0 \<le> num_val q"
      proof (intro ballI, clarify)
        fix sid q assume "(sid, q) \<in> set ?D"
        from depot_site_demands_member [OF this] obtain d
          where d: "d \<in> set (results out)" "action d = ''resupply''" "quantity d = q"
          by blast
        show "0 \<le> num_val q"
        proof (cases "llm_used d")
          case True
          with q d show ?thesis by blast
        next
          case False
          from rule_q [OF d(1) False] d(2,3) show ?thesis by auto
        qed
      qed
      have ri: "\<forall>d \<in> set (results out). \<forall>i. result_current_inventory d = Some i \<longrightarrow> 0 \<le> i"
      proof (intro ballI allI impI)
        fix d i assume d: "d \<in> set (results out)" and i: "result_current_inventory d = Some i"
        from origin [OF d] obtain row d0 where l: "lane_ok rem row d0" and e: "d = enrich ?sl d0"
          by blast
        from l have "result_current_inventory d0 = None"
          by (rule lane_ok_not_enriched)
        from enrich_inventory [OF this] i e obtain row' where "row' \<in> set ?sl"
          "i = current_inventory row'"
          by blast
        with inv sl show "0 \<le> i" by auto
      qed
      have "net_demand_total ?D ?I \<le> 2 * demand_total ?D"
        using Dq depot_site_inventory_nonneg [OF ri] by (rule net_demand_total_le)
      with iff show ?thesis by blast
    qed
    from iff score cover show ?thesis by blast
  qed
  from plan part show ?thesis
    by blast
qed

theorem run_depot_step_covers_demand_witness:
  "(\<exists>self out self' plan. Orchestrator_init default_config = Inr self
      \<and> run default_config (example_remote 70) no_schedule self [example_site ''SITE_001'']
            = Inr (out, self')
      \<and> depot_optimization out = Some plan
      \<and> net_demand_total (depot_site_demands (results out))
           (depot_site_inventory (results out)) = 20
      \<and> demand_total (depot_site_demands (results out)) = 70
      \<and> num_unmet_demand plan = [] \<and> num_optimization_score plan = 100)
   \<and> (\<exists>self out self' plan. Orchestrator_init default_config = Inr self
      \<and> run default_config (example_remote 10) no_schedule self [negative_inventory_site]
            = Inr (out, self')
      \<and> depot_optimization out = Some plan
      \<and> net_demand_total (depot_site_demands (results out))
           (depot_site_inventory (results out)) = 40
      \<and> demand_total (depot_site_demands (results out)) = 10
      \<and> num_unmet_demand plan \<noteq> [])"
proof
  from run_default_example obtain self out self'
    where i: "Orchestrator_init default_config = Inr self"
      and r: "run default_config (example_remote 70) no_schedule self [example_site ''SITE_001'']
                = Inr (out, self')"
      and m: "map (\<lambda>d. (result_site_id d, action d, quantity d, llm_used d,
                         result_current_inventory d)) (results out)
                = [(''SITE_001'', ''resupply'', PyInt 70, True, Some 50)]"
    by (auto split: sum.splits prod.splits)
  from m obtain d where res: "results out = [d]" and d: "result_site_id d = ''SITE_001''"
      "action d = ''resupply''" "quantity d = PyInt 70" "result_current_inventory d = Some 50"
    by (cases "results out") auto
  let ?D = "depot_site_demands (results out)"
  let ?I = "depot_site_inventory (results out)"
  have D: "?D = [(''SITE_001'', PyInt 70)]"
    by (simp add: depot_site_demands_def res d dict_of_items_def)
  have I: "?I = [(''SITE_001'', 50)]"
    by (simp add: depot_site_inventory_def res d dict_of_items_def)
  have n: "net_demand_total ?D ?I = 20"
    unfolding D I by (simp add: net_demand_total_def dict_get_def)
  have t: "demand_total ?D = 70"
    unfolding D by (simp add: demand_total_def)
  have h1: "[example_site ''SITE_001''] \<noteq> []" by simp
  have h2: "\<forall>d \<in> set (results out).
              llm_used d \<longrightarrow> action d = ''resupply'' \<longrightarrow> (\<exists>q. quantity d = PyInt q)"
    by (simp add: res d)
  have h3: "\<forall>row \<in> set [example_site ''SITE_001'']. 0 \<le> current_inventory row"
    by (simp add: example_site_def)
  have h4: "\<forall>d \<in> set (results out).
              llm_used d \<longrightarrow> action d = ''resupply'' \<longrightarrow> 0 \<le> num_val (quantity d)"
    by (simp add: res d)
  from run_depot_step_covers_demand [OF i r h1] h2 h3 h4 obtain plan
    where p: "depot_optimization out = Some plan" and u: "num_unmet_demand plan = []"
      and s: "num_unmet_demand plan = []
                \<longrightarrow> num_optimization_score plan = (if 0 < net_demand_total ?D ?I then 100 else 0)"
    by blast
  from s u n have "num_optimization_score plan = 100"
    by simp
  with i r p n t u
  show "\<exists>self out self' plan. Orchestrator_init default_config = Inr self
      \<and> run default_config (example_remote 70) no_schedule self [example_site ''SITE_001'']
            = Inr (out, self')
      \<and> depot_optimization out = Some plan
      \<and> net_demand_total (depot_site_demands (results out))
           (depot_site_inventory (results out)) = 20
      \<and> demand_total (depot_site_demands (results out)) = 70
      \<and> num_unmet_demand plan = [] \<and> num_optimization_score plan = 100"
    by blast
next
  from run_negative_inventory_example obtain self out self'
    where i: "Orchestrator_init default_config = Inr self"
      and r: "run default_config (example_remote 10) no_schedule self [negative_inventory_site]
                = Inr (out, self')"
      and m: "map (\<lambda>d. (result_site_id d, action d, quantity d, llm_used d,
                         result_current_inventory d)) (results out)
                = [(''SITE_001'', ''resupply'', PyInt 10, True, Some (- 30))]"
    by (auto split: sum.splits prod.splits)
  from m obtain d where res: "results out = [d]" and d: "result_site_id d = ''SITE_001''"
      "action d = ''resupply''" "quantity d = PyInt 10" "result_current_inventory d = Some (- 30)"
    by (cases "results out") auto
  let ?D = "depot_site_demands (results out)"
  let ?I = "depot_site_inventory (results out)"
  have D: "?D = [(''SITE_001'', PyInt 10)]"
    by (simp add: depot_site_demands_def res d dict_of_items_def)
  have I: "?I = [(''SITE_001'', - 30)]"
    by (simp add: depot_site_inventory_def res d dict_of_items_def)
  have n: "net_demand_total ?D ?I = 40"
    unfolding D I by (simp add: net_demand_total_def dict_get_def)
  have t: "demand_total ?D = 10"
    unfolding D by (simp add: demand_total_def)
  have h1: "[negative_inventory_site] \<noteq> []" by simp
  have h2: "\<forall>d \<in> set (results out).
              llm_used d \<longrightarrow> action d = ''resupply'' \<longrightarrow> (\<exists>q. quantity d = PyInt q)"
    by (simp add: res d)
  from run_depot_step_covers_demand [OF i r h1] h2 obtain plan
    where p: "depot_optimization out = Some plan"
      and u: "num_unmet_demand plan = []
                \<longleftrightarrow> net_demand_total ?D ?I = 0
                    \<or> net_demand_total ?D ?I \<le> 2 * demand_total ?D"
    by blast
  from u n t have "num_unmet_demand plan \<noteq> []"
    by simp
  with i r p n t
  show "\<exists>self out self' plan. Orchestrator_init default_config = Inr self
      \<and> run default_config (example_remote 10) no_schedule self [negative_inventory_site]
            = Inr (out, self')
      \<and> depot_optimization out = Some plan
      \<and> net_demand_total (depot_site_demands (results out))
           (depot_site_inventory (results out)) = 40
      \<and> demand_total (depot_site_demands (results out)) = 10
      \<and> num_unmet_demand plan \<noteq> []"
    by blast
qed

end
